theory Spec2Isabelle
  imports Complex_Main "HOL-Library.Word"
begin

section \<open>The value library the mock provider computes with\<close>

text \<open>
  \<^verbatim>\<open>provider_mock.go\<close> works on \<^verbatim>\<open>cty.Value\<close> and \<^verbatim>\<open>cty.Type\<close> of the go-cty library.
  A type is one of the primitive types, a collection type over an element type, a
  structural type, the dynamic pseudo-type, or the zero \<^verbatim>\<open>cty.Type{}\<close> (\<^verbatim>\<open>cty.NilType\<close>).
  Capsule types, marks and refinements of unknown values are left out: the mock never
  looks at them.
\<close>

datatype cty_type =
    CtyString
  | CtyNumber
  | CtyBool
  | CtyList cty_type
  | CtyMap cty_type
  | CtySet cty_type
  | CtyObject "(string \<times> cty_type) list"
  | CtyTuple "cty_type list"
  | DynamicPseudoType
  | NilType

text \<open>
  A value carries its type. \<open>NilVal\<close> is the zero \<^verbatim>\<open>cty.Value{}\<close>, which every response
  struct holds until a field is assigned. Numbers are arbitrary-precision in the library
  and rationals here. A collection keeps its element type, because an empty collection
  has no element to read it from; an object keeps its attributes as an association list
  in one fixed order of names, a set keeps its elements in their order of insertion.
\<close>

datatype Value =
    NilVal
  | NullVal cty_type
  | UnknownVal cty_type
  | StringVal string
  | NumberVal rat
  | BoolVal bool
  | ListV cty_type "Value list"
  | MapV cty_type "(string \<times> Value) list"
  | SetV cty_type "Value list"
  | ObjectV "(string \<times> Value) list"
  | TupleV "Value list"

fun IsNull :: "Value \<Rightarrow> bool" where
  "IsNull NilVal = True"
| "IsNull (NullVal t) = True"
| "IsNull v = False"

fun IsKnown :: "Value \<Rightarrow> bool" where
  "IsKnown (UnknownVal t) = False"
| "IsKnown v = True"

fun Type :: "Value \<Rightarrow> cty_type" where
  "Type NilVal = NilType"
| "Type (NullVal t) = t"
| "Type (UnknownVal t) = t"
| "Type (StringVal s) = CtyString"
| "Type (NumberVal n) = CtyNumber"
| "Type (BoolVal b) = CtyBool"
| "Type (ListV t xs) = CtyList t"
| "Type (MapV t kvs) = CtyMap t"
| "Type (SetV t xs) = CtySet t"
| "Type (ObjectV avs) = CtyObject (map (\<lambda>(n, v). (n, Type v)) avs)"
| "Type (TupleV xs) = CtyTuple (map Type xs)"

definition DynamicVal :: Value where
  "DynamicVal = UnknownVal DynamicPseudoType"

definition NumberIntVal :: "int \<Rightarrow> Value" where
  "NumberIntVal i = NumberVal (of_int i)"

definition MapValEmpty :: "cty_type \<Rightarrow> Value" where
  "MapValEmpty t = MapV t []"

definition ListValEmpty :: "cty_type \<Rightarrow> Value" where
  "ListValEmpty t = ListV t []"

definition SetValEmpty :: "cty_type \<Rightarrow> Value" where
  "SetValEmpty t = SetV t []"

text \<open>
  \<^verbatim>\<open>cty.ListVal\<close>, \<^verbatim>\<open>cty.MapVal\<close> and \<^verbatim>\<open>cty.SetVal\<close> read the element type from the
  elements: they start from the dynamic pseudo-type, take the type of the first element
  that has another one, and panic on an empty argument or on a later element of a third
  type. \<open>None\<close> is the panic.
\<close>

fun unify_element_type :: "cty_type \<Rightarrow> Value list \<Rightarrow> cty_type option" where
  "unify_element_type t [] = Some t"
| "unify_element_type t (v # vs) =
     (if t = DynamicPseudoType then unify_element_type (Type v) vs
      else if Type v \<noteq> DynamicPseudoType \<and> Type v \<noteq> t then None
      else unify_element_type t vs)"

text \<open>
  Whether a value has an unknown value anywhere in its structure
  (the negation of \<^verbatim>\<open>Value.IsWhollyKnown\<close>).
\<close>

fun has_unknown :: "Value \<Rightarrow> bool"
  and has_unknown_list :: "Value list \<Rightarrow> bool"
  and has_unknown_fields :: "(string \<times> Value) list \<Rightarrow> bool" where
  "has_unknown NilVal = False"
| "has_unknown (NullVal t) = False"
| "has_unknown (UnknownVal t) = True"
| "has_unknown (StringVal s) = False"
| "has_unknown (NumberVal n) = False"
| "has_unknown (BoolVal b) = False"
| "has_unknown (ListV t xs) = has_unknown_list xs"
| "has_unknown (MapV t kvs) = has_unknown_fields kvs"
| "has_unknown (SetV t xs) = has_unknown_list xs"
| "has_unknown (ObjectV avs) = has_unknown_fields avs"
| "has_unknown (TupleV xs) = has_unknown_list xs"
| "has_unknown_list [] = False"
| "has_unknown_list (x # xs) = (has_unknown x \<or> has_unknown_list xs)"
| "has_unknown_fields [] = False"
| "has_unknown_fields (kv # kvs) = (has_unknown (snd kv) \<or> has_unknown_fields kvs)"

text \<open>
  A set holds no two equivalent elements; two elements are equivalent when
  \<^verbatim>\<open>Equals\<close> returns a known true, which it never does when either has an unknown
  value inside. \<open>set_insert\<close> adds one element to a set's elements.
\<close>

definition set_insert :: "Value list \<Rightarrow> Value \<Rightarrow> Value list" where
  "set_insert acc v = (if \<not> has_unknown v \<and> v \<in> set acc then acc else acc @ [v])"

definition ListVal :: "Value list \<Rightarrow> Value option" where
  "ListVal vals =
     (if vals = [] then None
      else case unify_element_type DynamicPseudoType vals of
             None \<Rightarrow> None
           | Some t \<Rightarrow> Some (ListV t vals))"

definition MapVal :: "(string \<times> Value) list \<Rightarrow> Value option" where
  "MapVal vals =
     (if vals = [] then None
      else case unify_element_type DynamicPseudoType (map snd vals) of
             None \<Rightarrow> None
           | Some t \<Rightarrow> Some (MapV t vals))"

definition SetVal :: "Value list \<Rightarrow> Value option" where
  "SetVal vals =
     (if vals = [] then None
      else case unify_element_type DynamicPseudoType vals of
             None \<Rightarrow> None
           | Some t \<Rightarrow> Some (SetV t (foldl set_insert [] vals)))"

definition ObjectVal :: "(string \<times> Value) list \<Rightarrow> Value" where
  "ObjectVal attrs = ObjectV attrs"

definition TupleVal :: "Value list \<Rightarrow> Value" where
  "TupleVal elems = TupleV elems"

subsection \<open>Errors, outcomes and paths\<close>

text \<open>
  An error of the mock's own is a \<^verbatim>\<open>fmt.Errorf\<close> of a format and its arguments (each
  \<^verbatim>\<open>%q\<close> stands for the quoted argument); an error that a library call returns is kept
  apart, with the library's message.
\<close>

datatype error =
    Errorf string "string list"
  | LibraryError string

text \<open>
  A call returns a value (\<open>Done\<close>), returns an error (\<open>Failed\<close>) or panics.
\<close>

datatype 'a outcome = Panic | Failed error | Done 'a

datatype PathStep =
    GetAttrStep string
  | IndexStep Value

type_synonym Path = "PathStep list"


text \<open>
  \<^verbatim>\<open>GetAttrStep.Apply\<close>: a null value and a value that is not of an object type with
  the attribute are errors; an unknown object gives an unknown attribute.
\<close>

definition GetAttrStep_Apply :: "string \<Rightarrow> Value \<Rightarrow> Value outcome" where
  "GetAttrStep_Apply name val =
     (if IsNull val then Failed (LibraryError ''cannot access attributes on a null value'')
      else case val of
        ObjectV avs \<Rightarrow>
          (case map_of avs name of
             None \<Rightarrow> Failed (LibraryError ''object has no attribute'')
           | Some v \<Rightarrow> Done v)
      | UnknownVal ty \<Rightarrow>
          (case ty of
             CtyObject atys \<Rightarrow>
               (case map_of atys name of
                  None \<Rightarrow> Failed (LibraryError ''object has no attribute'')
                | Some aty \<Rightarrow> Done (UnknownVal aty))
           | _ \<Rightarrow> Failed (LibraryError ''not an object type''))
      | _ \<Rightarrow> Failed (LibraryError ''not an object type''))"

text \<open>
  \<^verbatim>\<open>IndexStep.Apply\<close>: a null value is an error; a number key needs a list or a
  tuple, a string key needs a map, and any other key (an element of a set) is an error.
  Then \<^verbatim>\<open>HasIndex(key)\<close> decides: when it is unknown (an unknown collection or an
  unknown key) the result is an unknown value of the element type, when the key is not
  there it is an error, otherwise the result is the element. The call panics on a null
  key of a known collection and on an unknown key of a tuple, which has no element type.
\<close>

definition index_of_key :: "rat \<Rightarrow> nat \<Rightarrow> nat option" where
  "index_of_key n len =
     (if n = of_int \<lfloor>n\<rfloor> \<and> 0 \<le> n \<and> nat \<lfloor>n\<rfloor> < len then Some (nat \<lfloor>n\<rfloor>) else None)"

definition index_elem :: "Value \<Rightarrow> nat \<Rightarrow> (nat \<Rightarrow> Value) \<Rightarrow> Value outcome \<Rightarrow> Value outcome" where
  "index_elem key len elem unknownKey =
     (case key of
        NumberVal n \<Rightarrow>
          (case index_of_key n len of
             None \<Rightarrow> Failed (LibraryError ''value does not have given index key'')
           | Some i \<Rightarrow> Done (elem i))
      | UnknownVal t \<Rightarrow> unknownKey
      | _ \<Rightarrow> Panic)"

definition index_map :: "Value \<Rightarrow> (string \<times> Value) list \<Rightarrow> Value outcome \<Rightarrow> Value outcome" where
  "index_map key kvs unknownKey =
     (case key of
        StringVal k \<Rightarrow>
          (case map_of kvs k of
             None \<Rightarrow> Failed (LibraryError ''value does not have given index key'')
           | Some v \<Rightarrow> Done v)
      | UnknownVal t \<Rightarrow> unknownKey
      | _ \<Rightarrow> Panic)"

definition IndexStep_Apply :: "Value \<Rightarrow> Value \<Rightarrow> Value outcome" where
  "IndexStep_Apply key val =
     (if IsNull val then Failed (LibraryError ''cannot index a null value'')
      else if Type key = CtyNumber then
        (case val of
           ListV t xs \<Rightarrow> index_elem key (length xs) (\<lambda>i. xs ! i) (Done (UnknownVal t))
         | TupleV xs \<Rightarrow> index_elem key (length xs) (\<lambda>i. xs ! i) Panic
         | UnknownVal ty \<Rightarrow>
             (case ty of
                CtyList t \<Rightarrow> Done (UnknownVal t)
              | CtyTuple ts \<Rightarrow> index_elem key (length ts) (\<lambda>i. UnknownVal (ts ! i)) Panic
              | _ \<Rightarrow> Failed (LibraryError ''not a list type''))
         | _ \<Rightarrow> Failed (LibraryError ''not a list type''))
      else if Type key = CtyString then
        (case val of
           MapV t kvs \<Rightarrow> index_map key kvs (Done (UnknownVal t))
         | UnknownVal ty \<Rightarrow>
             (case ty of
                CtyMap t \<Rightarrow> Done (UnknownVal t)
              | _ \<Rightarrow> Failed (LibraryError ''not a map type''))
         | _ \<Rightarrow> Failed (LibraryError ''not a map type''))
      else Failed (LibraryError ''key value not number or string''))"

fun PathStep_Apply :: "PathStep \<Rightarrow> Value \<Rightarrow> Value outcome" where
  "PathStep_Apply (GetAttrStep name) val = GetAttrStep_Apply name val"
| "PathStep_Apply (IndexStep key) val = IndexStep_Apply key val"

text \<open>\<^verbatim>\<open>Path.Apply\<close>: the steps in order, stopping at the first error.\<close>

fun Path_Apply :: "Path \<Rightarrow> Value \<Rightarrow> Value outcome" where
  "Path_Apply [] val = Done val"
| "Path_Apply (step # p) val =
     (case PathStep_Apply step val of
        Done v \<Rightarrow> Path_Apply p v
      | Failed e \<Rightarrow> Failed e
      | Panic \<Rightarrow> Panic)"

subsection \<open>The structural transform\<close>

text \<open>
  \<^verbatim>\<open>cty.Transform(val, cb)\<close> walks a value bottom-up. A null or unknown value has no
  elements to visit. The elements of a non-empty list, set, tuple or map and the
  attributes of a non-empty object are transformed first, each under the path extended
  by its step (the index number, the map key, the set element itself, the attribute
  name), and the collection is built again from the results; then the callback is called
  on the value at the path. The first error of a callback ends the walk. A callback is
  a Go closure; here it returns an outcome, since the mock's closures call into the
  library.
\<close>

definition rebuilt :: "(Path \<Rightarrow> Value \<Rightarrow> Value outcome) \<Rightarrow> Path \<Rightarrow> Value option \<Rightarrow> Value outcome" where
  "rebuilt cb path nv = (case nv of None \<Rightarrow> Panic | Some v \<Rightarrow> cb path v)"

fun transform :: "(Path \<Rightarrow> Value \<Rightarrow> Value outcome) \<Rightarrow> Path \<Rightarrow> Value \<Rightarrow> Value outcome"
  and transform_elems ::
    "(Path \<Rightarrow> Value \<Rightarrow> Value outcome) \<Rightarrow> Path \<Rightarrow> nat \<Rightarrow> Value list \<Rightarrow> Value list outcome"
  and transform_set_elems ::
    "(Path \<Rightarrow> Value \<Rightarrow> Value outcome) \<Rightarrow> Path \<Rightarrow> Value list \<Rightarrow> Value list outcome"
  and transform_map_elems ::
    "(Path \<Rightarrow> Value \<Rightarrow> Value outcome) \<Rightarrow> Path \<Rightarrow> (string \<times> Value) list
       \<Rightarrow> (string \<times> Value) list outcome"
  and transform_attrs ::
    "(Path \<Rightarrow> Value \<Rightarrow> Value outcome) \<Rightarrow> Path \<Rightarrow> (string \<times> Value) list
       \<Rightarrow> (string \<times> Value) list outcome" where
  "transform cb path NilVal = cb path NilVal"
| "transform cb path (NullVal t) = cb path (NullVal t)"
| "transform cb path (UnknownVal t) = cb path (UnknownVal t)"
| "transform cb path (StringVal s) = cb path (StringVal s)"
| "transform cb path (NumberVal n) = cb path (NumberVal n)"
| "transform cb path (BoolVal b) = cb path (BoolVal b)"
| "transform cb path (ListV t xs) =
     (if xs = [] then cb path (ListV t xs)
      else case transform_elems cb path 0 xs of
             Done elems \<Rightarrow> rebuilt cb path (ListVal elems)
           | Failed e \<Rightarrow> Failed e
           | Panic \<Rightarrow> Panic)"
| "transform cb path (SetV t xs) =
     (if xs = [] then cb path (SetV t xs)
      else case transform_set_elems cb path xs of
             Done elems \<Rightarrow> rebuilt cb path (SetVal elems)
           | Failed e \<Rightarrow> Failed e
           | Panic \<Rightarrow> Panic)"
| "transform cb path (TupleV xs) =
     (if xs = [] then cb path (TupleV xs)
      else case transform_elems cb path 0 xs of
             Done elems \<Rightarrow> cb path (TupleVal elems)
           | Failed e \<Rightarrow> Failed e
           | Panic \<Rightarrow> Panic)"
| "transform cb path (MapV t kvs) =
     (if kvs = [] then cb path (MapV t kvs)
      else case transform_map_elems cb path kvs of
             Done elems \<Rightarrow> rebuilt cb path (MapVal elems)
           | Failed e \<Rightarrow> Failed e
           | Panic \<Rightarrow> Panic)"
| "transform cb path (ObjectV avs) =
     (if avs = [] then cb path (ObjectV avs)
      else case transform_attrs cb path avs of
             Done newAVs \<Rightarrow> cb path (ObjectVal newAVs)
           | Failed e \<Rightarrow> Failed e
           | Panic \<Rightarrow> Panic)"
| "transform_elems cb path i [] = Done []"
| "transform_elems cb path i (ev # rest) =
     (case transform cb (path @ [IndexStep (NumberIntVal (int i))]) ev of
        Done newEv \<Rightarrow>
          (case transform_elems cb path (Suc i) rest of
             Done elems \<Rightarrow> Done (newEv # elems)
           | Failed e \<Rightarrow> Failed e
           | Panic \<Rightarrow> Panic)
      | Failed e \<Rightarrow> Failed e
      | Panic \<Rightarrow> Panic)"
| "transform_set_elems cb path [] = Done []"
| "transform_set_elems cb path (ev # rest) =
     (case transform cb (path @ [IndexStep ev]) ev of
        Done newEv \<Rightarrow>
          (case transform_set_elems cb path rest of
             Done elems \<Rightarrow> Done (newEv # elems)
           | Failed e \<Rightarrow> Failed e
           | Panic \<Rightarrow> Panic)
      | Failed e \<Rightarrow> Failed e
      | Panic \<Rightarrow> Panic)"
| "transform_map_elems cb path [] = Done []"
| "transform_map_elems cb path (kv # rest) =
     (case transform cb (path @ [IndexStep (StringVal (fst kv))]) (snd kv) of
        Done newEv \<Rightarrow>
          (case transform_map_elems cb path rest of
             Done elems \<Rightarrow> Done ((fst kv, newEv) # elems)
           | Failed e \<Rightarrow> Failed e
           | Panic \<Rightarrow> Panic)
      | Failed e \<Rightarrow> Failed e
      | Panic \<Rightarrow> Panic)"
| "transform_attrs cb path [] = Done []"
| "transform_attrs cb path (av # rest) =
     (case transform cb (path @ [GetAttrStep (fst av)]) (snd av) of
        Done newAV \<Rightarrow>
          (case transform_attrs cb path rest of
             Done newAVs \<Rightarrow> Done ((fst av, newAV) # newAVs)
           | Failed e \<Rightarrow> Failed e
           | Panic \<Rightarrow> Panic)
      | Failed e \<Rightarrow> Failed e
      | Panic \<Rightarrow> Panic)"

definition Transform :: "Value \<Rightarrow> (Path \<Rightarrow> Value \<Rightarrow> Value outcome) \<Rightarrow> Value outcome" where
  "Transform val cb = transform cb [] val"


section \<open>Schemas and diagnostics\<close>

text \<open>
  Modelled from the spec: \<^verbatim>\<open>configschema.Block\<close>, \<^verbatim>\<open>Block.ImpliedType\<close> and
  \<^verbatim>\<open>Block.AttributeByPath\<close> (package \<^verbatim>\<open>internal/configs/configschema\<close>) are not among
  the source files. A block maps attribute names to attribute schemas (type, required,
  optional, computed) and names to nested blocks; the nesting mode of a nested block
  says which collection holds its instances. The implied type is the object type of the
  attributes and the nested blocks. A path resolves to a declared attribute when its
  attribute steps lead through nested blocks to an attribute and end there; index steps
  select an instance of a nested block and are passed over. Every other path (the root,
  a nested block, an instance of one, a place inside an attribute's value) resolves to
  none.
\<close>

datatype NestingMode = NestingSingle | NestingGroup | NestingList | NestingSet | NestingMap

record Attribute =
  AttrType :: cty_type
  Required :: bool
  Optional :: bool
  Computed :: bool

datatype Block =
  MkBlock (Attributes: "(string \<times> Attribute) list")
          (BlockTypes: "(string \<times> NestingMode \<times> Block) list")

fun nested_type :: "NestingMode \<Rightarrow> cty_type \<Rightarrow> cty_type" where
  "nested_type NestingSingle t = t"
| "nested_type NestingGroup t = t"
| "nested_type NestingList t = CtyList t"
| "nested_type NestingSet t = CtySet t"
| "nested_type NestingMap t = CtyMap t"

fun ImpliedType :: "Block \<Rightarrow> cty_type"
  and ImpliedType_blocks :: "(string \<times> NestingMode \<times> Block) list \<Rightarrow> (string \<times> cty_type) list" where
  "ImpliedType (MkBlock attrs blocks) =
     CtyObject (map (\<lambda>(n, a). (n, AttrType a)) attrs @ ImpliedType_blocks blocks)"
| "ImpliedType_blocks [] = []"
| "ImpliedType_blocks (nb # rest) =
     (fst nb, nested_type (fst (snd nb)) (ImpliedType (snd (snd nb)))) # ImpliedType_blocks rest"

fun AttributeByPath :: "Block \<Rightarrow> Path \<Rightarrow> Attribute option" where
  "AttributeByPath b [] = None"
| "AttributeByPath b (IndexStep k # path) = AttributeByPath b path"
| "AttributeByPath b (GetAttrStep name # path) =
     (case map_of (Attributes b) name of
        Some attr \<Rightarrow> (if path \<noteq> [] then None else Some attr)
      | None \<Rightarrow>
          (case map_of (BlockTypes b) name of
             Some nestedBlock \<Rightarrow> AttributeByPath (snd nestedBlock) path
           | None \<Rightarrow> None))"

text \<open>
  \<^verbatim>\<open>providers.Schema\<close> and the response of \<^verbatim>\<open>GetProviderSchema\<close>, with the fields
  the mock reads. The block pointer of a schema is taken as set; the zero schema has
  the empty block.
\<close>

record Schema =
  Version :: int
  Block :: Block

datatype Severity = Error | Warning

text \<open>
  A diagnostic is either built by the caller (severity, summary, detail) or wraps an
  error: \<^verbatim>\<open>Diagnostics.Append(err)\<close> adds one diagnostic of severity error for the
  error.
\<close>

datatype Diagnostic =
    Diag Severity string string
  | NativeError error

type_synonym Diagnostics = "Diagnostic list"

fun Severity_of :: "Diagnostic \<Rightarrow> Severity" where
  "Severity_of (Diag s summary detail) = s"
| "Severity_of (NativeError e) = Error"

definition Append :: "Diagnostics \<Rightarrow> error \<Rightarrow> Diagnostics" where
  "Append diags err = diags @ [NativeError err]"

definition errors_of :: "Diagnostics \<Rightarrow> Diagnostics" where
  "errors_of diags = filter (\<lambda>d. Severity_of d = Error) diags"

record GetProviderSchemaResponse =
  Provider :: Schema
  DataSources :: "string \<rightharpoonup> Schema"
  ResourceTypes :: "string \<rightharpoonup> Schema"
  GPS_Diagnostics :: Diagnostics

section \<open>Requests and responses\<close>

text \<open>
  The request and response structs of package \<^verbatim>\<open>internal/providers\<close>, with the fields
  the mock and the specification name. Field names carry the initials of the operation
  and \<open>q\<close> (request) or \<open>s\<close> (response), since a field name is global here.
  \<^verbatim>\<open>[]byte\<close> is a list of bytes (nil and empty are one list); a nil Go map or pointer
  is \<open>None\<close>.
\<close>

type_synonym bytes = "8 word list"

record ValidateProviderConfigRequest =
  VPCq_Config :: Value

record ValidateProviderConfigResponse =
  VPCs_PreparedConfig :: Value
  VPCs_Diagnostics :: Diagnostics

record ValidateResourceConfigRequest =
  VRCq_TypeName :: string
  VRCq_Config :: Value

record ValidateResourceConfigResponse =
  VRCs_Diagnostics :: Diagnostics

record UpgradeResourceStateRequest =
  URSq_TypeName :: string
  URSq_Version :: int
  URSq_RawStateJSON :: bytes
  URSq_RawStateFlatmap :: "(string \<times> string) list option"

record UpgradeResourceStateResponse =
  URSs_UpgradedState :: Value
  URSs_Diagnostics :: Diagnostics

record ConfigureProviderRequest =
  CPq_TerraformVersion :: string
  CPq_Config :: Value

record ConfigureProviderResponse =
  CPs_Diagnostics :: Diagnostics

record ReadResourceRequest =
  RRq_TypeName :: string
  RRq_PriorState :: Value
  RRq_Private :: bytes

record ReadResourceResponse =
  RRs_NewState :: Value
  RRs_Diagnostics :: Diagnostics
  RRs_Private :: bytes

record PlanResourceChangeRequest =
  PRCq_TypeName :: string
  PRCq_PriorState :: Value
  PRCq_ProposedNewState :: Value
  PRCq_Config :: Value
  PRCq_PriorPrivate :: bytes

record PlanResourceChangeResponse =
  PRCs_PlannedState :: Value
  PRCs_RequiresReplace :: "Path list"
  PRCs_PlannedPrivate :: bytes
  PRCs_Diagnostics :: Diagnostics

record ApplyResourceChangeRequest =
  ARCq_TypeName :: string
  ARCq_PriorState :: Value
  ARCq_PlannedState :: Value
  ARCq_Config :: Value
  ARCq_PlannedPrivate :: bytes

record ApplyResourceChangeResponse =
  ARCs_NewState :: Value
  ARCs_Private :: bytes
  ARCs_Diagnostics :: Diagnostics

record ImportedResource =
  IR_TypeName :: string
  IR_Private :: bytes
  IR_State :: Value

record ImportResourceStateRequest =
  IRSq_TypeName :: string
  IRSq_ID :: string

record ImportResourceStateResponse =
  IRSs_ImportedResources :: "ImportedResource list"
  IRSs_Diagnostics :: Diagnostics

record ReadDataSourceRequest =
  RDSq_TypeName :: string
  RDSq_Config :: Value

record ReadDataSourceResponse =
  RDSs_State :: Value
  RDSs_Diagnostics :: Diagnostics

record PlanActionRequest =
  PAq_TypeName :: string
  PAq_ProposedActionData :: Value

record PlanActionResponse =
  PAs_Diagnostics :: Diagnostics

record ApplyActionRequest =
  AAq_TypeName :: string
  AAq_PlannedActionData :: Value

record ApplyActionResponse =
  AAs_Diagnostics :: Diagnostics

record CallFunctionRequest =
  CFq_FunctionName :: string
  CFq_Arguments :: "Value list"

record CallFunctionResponse =
  CFs_Result :: Value
  CFs_Err :: "error option"


section \<open>Decoding a legacy flatmap state\<close>

text \<open>
  Modelled from the spec: \<^verbatim>\<open>hcl2shim.HCL2ValueFromFlatmap\<close> (package
  \<^verbatim>\<open>internal/configs/hcl2shim\<close>) is not among the source files. It interprets a flat
  map from dotted, indexed string keys to strings against a type and reconstructs the
  nested structure: an attribute \<open>a\<close> of an object under the key \<open>a\<close>; the elements
  of a list or tuple under \<open>a.0\<close>, \<open>a.1\<close>, ... with their count under \<open>a.#\<close>; the
  elements of a map under \<open>a.<key>\<close> with the count under \<open>a.%\<close>; the elements of
  a set under \<open>a.<hash>\<close> with the count under \<open>a.#\<close>. A missing key or count is
  null, the marker \<open>UnknownVariableValue\<close> is unknown, and a string that does not fit
  its place is a decode error. The functions follow the package function by function.
  They return an error beside the value; \<open>Panic\<close> is a run-time panic of the Go code: a
  type that is not an object type at the entry, a slice made with a negative length, a
  collection built from elements of different types. The conversion of a string to a
  primitive type is the value library's and is a parameter; a Go map is read in the
  order of its keys here; the messages of errors are abridged; memory is unbounded.
\<close>

definition UnknownVariableValue :: string where
  "UnknownVariableValue = ''74D93920-ED26-11E3-AC10-0800200C9A66''"

fun sequence :: "'a outcome list \<Rightarrow> 'a list outcome" where
  "sequence [] = Done []"
| "sequence (r # rs) =
     (case r of
        Panic \<Rightarrow> Panic
      | Failed e \<Rightarrow> Failed e
      | Done x \<Rightarrow>
          (case sequence rs of Panic \<Rightarrow> Panic | Failed e \<Rightarrow> Failed e | Done xs \<Rightarrow> Done (x # xs)))"

definition named :: "string \<Rightarrow> Value outcome \<Rightarrow> (string \<times> Value) outcome" where
  "named name r = (case r of Panic \<Rightarrow> Panic | Failed e \<Rightarrow> Failed e | Done v \<Rightarrow> Done (name, v))"

definition built :: "Value option \<Rightarrow> Value outcome" where
  "built nv = (case nv of None \<Rightarrow> Panic | Some v \<Rightarrow> Done v)"

definition digit_char :: "nat \<Rightarrow> char" where
  "digit_char d = char_of (of_char CHR ''0'' + d)"

fun Itoa :: "nat \<Rightarrow> string" where
  "Itoa n = (if n < 10 then [digit_char n] else Itoa (n div 10) @ [digit_char (n mod 10)])"

declare Itoa.simps [simp del]

fun parse_digits :: "nat \<Rightarrow> string \<Rightarrow> nat option" where
  "parse_digits acc [] = Some acc"
| "parse_digits acc (c # cs) =
     (if 48 \<le> (of_char c :: nat) \<and> (of_char c :: nat) \<le> 57
      then parse_digits (10 * acc + (of_char c - 48)) cs
      else None)"

definition Atoi :: "string \<Rightarrow> string + int" where
  "Atoi s =
     (let neg = (s \<noteq> [] \<and> hd s = CHR ''-'');
          ds = (if s \<noteq> [] \<and> (hd s = CHR ''-'' \<or> hd s = CHR ''+'') then tl s else s)
      in if ds = [] then Inl ''invalid syntax''
         else case parse_digits 0 ds of
                None \<Rightarrow> Inl ''invalid syntax''
              | Some n \<Rightarrow>
                  (let i = (if neg then - int n else int n)
                   in if - (2 ^ 63) \<le> i \<and> i < 2 ^ 63 then Inr i else Inl ''value out of range''))"

definition TrimRight_dot :: "string \<Rightarrow> string" where
  "TrimRight_dot s = rev (dropWhile (\<lambda>c. c = CHR ''.'') (rev s))"

definition HasPrefix :: "string \<Rightarrow> string \<Rightarrow> bool" where
  "HasPrefix s prefix = (take (length prefix) s = prefix)"

definition hcl2ValueFromFlatmapPrimitive ::
    "(Value \<Rightarrow> cty_type \<Rightarrow> string + Value) \<Rightarrow> (string \<times> string) list \<Rightarrow> string \<Rightarrow> cty_type
       \<Rightarrow> Value outcome" where
  "hcl2ValueFromFlatmapPrimitive conv m key ty =
     (case map_of m key of
        None \<Rightarrow> Done (NullVal ty)
      | Some rawVal \<Rightarrow>
          (if rawVal = UnknownVariableValue then Done (UnknownVal ty)
           else case conv (StringVal rawVal) ty of
                  Inl msg \<Rightarrow> Failed (Errorf ''invalid value for %q in state: %s'' [key, msg])
                | Inr val \<Rightarrow> Done val))"

text \<open>
  The keys of the elements of a map under a prefix (all but the count), and of a set
  (each cut after the element's own part, once).
\<close>

definition map_keys :: "(string \<times> string) list \<Rightarrow> string \<Rightarrow> string list" where
  "map_keys m prefix =
     filter (\<lambda>fullKey. HasPrefix fullKey prefix \<and> drop (length prefix) fullKey \<noteq> ''%'')
       (remdups (map fst m))"

definition set_key :: "string \<Rightarrow> string \<Rightarrow> string" where
  "set_key prefix fullKey =
     (let subKey = drop (length prefix) fullKey in
      if CHR ''.'' \<in> set subKey
      then take (length (takeWhile (\<lambda>c. c \<noteq> CHR ''.'') subKey) + length prefix) fullKey
      else fullKey)"

definition set_keys :: "(string \<times> string) list \<Rightarrow> string \<Rightarrow> string list" where
  "set_keys m prefix =
     remdups (map (set_key prefix)
       (filter (\<lambda>fullKey. HasPrefix fullKey prefix \<and> drop (length prefix) fullKey \<noteq> ''#'')
          (remdups (map fst m))))"

text \<open>
  The count of a collection: the collection is unknown when its own key or its count
  holds the marker, null when it has no count.
\<close>

datatype count = CountNull | CountUnknown | CountBad string | Count int

definition read_count :: "(string \<times> string) list \<Rightarrow> string \<Rightarrow> string \<Rightarrow> count" where
  "read_count m prefix mark =
     (if map_of m (TrimRight_dot prefix) = Some UnknownVariableValue then CountUnknown
      else case map_of m (prefix @ mark) of
             None \<Rightarrow> CountNull
           | Some countStr \<Rightarrow>
               (if countStr = UnknownVariableValue then CountUnknown
                else case Atoi countStr of
                       Inl msg \<Rightarrow> CountBad msg
                     | Inr n \<Rightarrow> Count n))"

definition object_of :: "(string \<times> Value) list outcome \<Rightarrow> Value outcome" where
  "object_of r =
     (case r of Panic \<Rightarrow> Panic | Failed e \<Rightarrow> Failed e | Done vals \<Rightarrow> Done (ObjectVal vals))"

definition hcl2ValueFromFlatmapTuple ::
    "Value list outcome \<Rightarrow> (string \<times> string) list \<Rightarrow> string \<Rightarrow> cty_type list \<Rightarrow> Value outcome" where
  "hcl2ValueFromFlatmapTuple elems m prefix etys =
     (case read_count m prefix ''#'' of
        CountUnknown \<Rightarrow> Done (UnknownVal (CtyTuple etys))
      | CountNull \<Rightarrow> Done (NullVal (CtyTuple etys))
      | CountBad msg \<Rightarrow> Failed (Errorf ''invalid count value for %q in state: %s'' [prefix, msg])
      | Count n \<Rightarrow>
          (if n \<noteq> int (length etys)
           then Failed (Errorf ''wrong number of values for %q in state'' [prefix])
           else case elems of
                  Panic \<Rightarrow> Panic
                | Failed e \<Rightarrow> Failed e
                | Done vals \<Rightarrow> Done (TupleVal vals)))"

definition hcl2ValueFromFlatmapMap ::
    "(string \<Rightarrow> Value outcome) \<Rightarrow> (string \<times> string) list \<Rightarrow> string \<Rightarrow> cty_type \<Rightarrow> Value outcome" where
  "hcl2ValueFromFlatmapMap dec m prefix ety =
     (case read_count m prefix ''%'' of
        CountUnknown \<Rightarrow> Done (UnknownVal (CtyMap ety))
      | CountNull \<Rightarrow> Done (NullVal (CtyMap ety))
      | _ \<Rightarrow>
          (case sequence (map (\<lambda>fullKey. named (drop (length prefix) fullKey) (dec fullKey))
                        (map_keys m prefix)) of
             Panic \<Rightarrow> Panic
           | Failed e \<Rightarrow> Failed e
           | Done vals \<Rightarrow> (if vals = [] then Done (MapValEmpty ety) else built (MapVal vals))))"

text \<open>
  The list decoder makes a slice of \<open>count\<close> values before it reads the elements:
  \<^verbatim>\<open>make([]cty.Value, count)\<close> panics when the count is negative.
\<close>

definition hcl2ValueFromFlatmapList ::
    "(string \<Rightarrow> Value outcome) \<Rightarrow> (string \<times> string) list \<Rightarrow> string \<Rightarrow> cty_type \<Rightarrow> Value outcome" where
  "hcl2ValueFromFlatmapList dec m prefix ety =
     (case read_count m prefix ''#'' of
        CountUnknown \<Rightarrow> Done (UnknownVal (CtyList ety))
      | CountNull \<Rightarrow> Done (NullVal (CtyList ety))
      | CountBad msg \<Rightarrow> Failed (Errorf ''invalid count value for %q in state: %s'' [prefix, msg])
      | Count n \<Rightarrow>
          (if n = 0 then Done (ListValEmpty ety)
           else if n < 0 then Panic
           else case sequence (map (\<lambda>i. dec (prefix @ Itoa i)) [0..<nat n]) of
                  Panic \<Rightarrow> Panic
                | Failed e \<Rightarrow> Failed e
                | Done vals \<Rightarrow> built (ListVal vals)))"

text \<open>
  A set whose count is \<open>1\<close> and that has no element key holds one empty element: an empty
  collection made with the element type as it stands, an object of null attributes, or
  a null.
\<close>

definition empty_element :: "cty_type \<Rightarrow> Value" where
  "empty_element ety =
     (case ety of
        CtyMap t \<Rightarrow> MapValEmpty ety
      | CtyList t \<Rightarrow> ListValEmpty ety
      | CtySet t \<Rightarrow> SetValEmpty ety
      | CtyObject atys \<Rightarrow> ObjectVal (map (\<lambda>(attr, ty). (attr, NullVal ty)) atys)
      | _ \<Rightarrow> NullVal ety)"

definition hcl2ValueFromFlatmapSet ::
    "(string \<Rightarrow> Value outcome) \<Rightarrow> (string \<times> string) list \<Rightarrow> string \<Rightarrow> cty_type \<Rightarrow> Value outcome" where
  "hcl2ValueFromFlatmapSet dec m prefix ety =
     (case read_count m prefix ''#'' of
        CountUnknown \<Rightarrow> Done (UnknownVal (CtySet ety))
      | CountNull \<Rightarrow> Done (NullVal (CtySet ety))
      | _ \<Rightarrow>
          (case sequence (map dec (set_keys m prefix)) of
             Panic \<Rightarrow> Panic
           | Failed e \<Rightarrow> Failed e
           | Done vals \<Rightarrow>
               (if vals = [] \<and> map_of m (prefix @ ''#'') = Some ''1''
                then built (SetVal [empty_element ety])
                else if vals = [] then Done (SetValEmpty ety)
                else built (SetVal vals))))"

fun hcl2ValueFromFlatmapValue ::
    "(Value \<Rightarrow> cty_type \<Rightarrow> string + Value) \<Rightarrow> (string \<times> string) list \<Rightarrow> string \<Rightarrow> cty_type
       \<Rightarrow> Value outcome"
  and hcl2ValueFromFlatmapAttrs ::
    "(Value \<Rightarrow> cty_type \<Rightarrow> string + Value) \<Rightarrow> (string \<times> string) list \<Rightarrow> string
       \<Rightarrow> (string \<times> cty_type) list \<Rightarrow> (string \<times> Value) list outcome"
  and hcl2ValueFromFlatmapElems ::
    "(Value \<Rightarrow> cty_type \<Rightarrow> string + Value) \<Rightarrow> (string \<times> string) list \<Rightarrow> string \<Rightarrow> nat
       \<Rightarrow> cty_type list \<Rightarrow> Value list outcome" where
  "hcl2ValueFromFlatmapValue conv m key CtyString = hcl2ValueFromFlatmapPrimitive conv m key CtyString"
| "hcl2ValueFromFlatmapValue conv m key CtyNumber = hcl2ValueFromFlatmapPrimitive conv m key CtyNumber"
| "hcl2ValueFromFlatmapValue conv m key CtyBool = hcl2ValueFromFlatmapPrimitive conv m key CtyBool"
| "hcl2ValueFromFlatmapValue conv m key (CtyObject atys) =
     object_of (hcl2ValueFromFlatmapAttrs conv m (key @ ''.'') atys)"
| "hcl2ValueFromFlatmapValue conv m key (CtyTuple etys) =
     hcl2ValueFromFlatmapTuple (hcl2ValueFromFlatmapElems conv m (key @ ''.'') 0 etys) m (key @ ''.'') etys"
| "hcl2ValueFromFlatmapValue conv m key (CtyMap ety) =
     hcl2ValueFromFlatmapMap (\<lambda>k. hcl2ValueFromFlatmapValue conv m k ety) m (key @ ''.'') ety"
| "hcl2ValueFromFlatmapValue conv m key (CtyList ety) =
     hcl2ValueFromFlatmapList (\<lambda>k. hcl2ValueFromFlatmapValue conv m k ety) m (key @ ''.'') ety"
| "hcl2ValueFromFlatmapValue conv m key (CtySet ety) =
     hcl2ValueFromFlatmapSet (\<lambda>k. hcl2ValueFromFlatmapValue conv m k ety) m (key @ ''.'') ety"
| "hcl2ValueFromFlatmapValue conv m key DynamicPseudoType =
     Failed (Errorf ''cannot decode %s from flatmap'' [''dynamic''])"
| "hcl2ValueFromFlatmapValue conv m key NilType =
     Failed (Errorf ''cannot decode %s from flatmap'' [''invalid type''])"
| "hcl2ValueFromFlatmapAttrs conv m prefix [] = Done []"
| "hcl2ValueFromFlatmapAttrs conv m prefix (a # atys) =
     (case hcl2ValueFromFlatmapValue conv m (prefix @ fst a) (snd a) of
        Panic \<Rightarrow> Panic
      | Failed e \<Rightarrow> Failed e
      | Done val \<Rightarrow>
          (case hcl2ValueFromFlatmapAttrs conv m prefix atys of
             Panic \<Rightarrow> Panic
           | Failed e \<Rightarrow> Failed e
           | Done vals \<Rightarrow> Done ((fst a, val) # vals)))"
| "hcl2ValueFromFlatmapElems conv m prefix i [] = Done []"
| "hcl2ValueFromFlatmapElems conv m prefix i (ety # etys) =
     (case hcl2ValueFromFlatmapValue conv m (prefix @ Itoa i) ety of
        Panic \<Rightarrow> Panic
      | Failed e \<Rightarrow> Failed e
      | Done val \<Rightarrow>
          (case hcl2ValueFromFlatmapElems conv m prefix (Suc i) etys of
             Panic \<Rightarrow> Panic
           | Failed e \<Rightarrow> Failed e
           | Done vals \<Rightarrow> Done (val # vals)))"

text \<open>
  The entry point: a nil flatmap is the null value of the type; any other flatmap is
  read against an object type, whose attributes have no prefix, and the function panics
  on a type that is not an object type.
\<close>

definition HCL2ValueFromFlatmap ::
    "(Value \<Rightarrow> cty_type \<Rightarrow> string + Value) \<Rightarrow> (string \<times> string) list option \<Rightarrow> cty_type
       \<Rightarrow> Value outcome" where
  "HCL2ValueFromFlatmap conv m ty =
     (case m of
        None \<Rightarrow> Done (NullVal ty)
      | Some fm \<Rightarrow>
          (case ty of
             CtyObject atys \<Rightarrow> object_of (hcl2ValueFromFlatmapAttrs conv fm [] atys)
           | _ \<Rightarrow> Panic))"

section \<open>The mock provider\<close>

text \<open>
  Calls into packages outside the source files are parameters of the operations:
  \<^verbatim>\<open>msgpack.Marshal\<close> (only its error is read), \<^verbatim>\<open>ctyjson.Unmarshal\<close>,
  \<^verbatim>\<open>Block.CoerceValue\<close> (its value is read also when it returns an error) and the
  conversion \<^verbatim>\<open>convert.Convert\<close> that the flatmap decoder uses. Each returns the
  message of its error, which the mock wraps in a diagnostic.
\<close>

record externals =
  Marshal :: "Value \<Rightarrow> cty_type \<Rightarrow> string option"
  Unmarshal :: "bytes \<Rightarrow> cty_type \<Rightarrow> string + Value"
  CoerceValue :: "Block \<Rightarrow> Value \<Rightarrow> Value \<times> string option"
  Convert :: "Value \<Rightarrow> cty_type \<Rightarrow> string + Value"

text \<open>
  The fields of \<^verbatim>\<open>MockProvider\<close> that the operations below read or write. A nil
  function or response pointer is \<open>None\<close>. The embedded mutex is not a field: every
  operation but \<^verbatim>\<open>Stop\<close> holds it from entry to return, so the operations of one
  provider run one after another, each from the state the last one left.
\<close>

record MockProvider =
  GetProviderSchemaCalled :: bool
  GetProviderSchemaResponse :: "GetProviderSchemaResponse option"
  ValidateProviderConfigCalled :: bool
  ValidateProviderConfigResponse :: "ValidateProviderConfigResponse option"
  ValidateProviderConfigRequest :: ValidateProviderConfigRequest
  ValidateProviderConfigFn :: "(ValidateProviderConfigRequest \<Rightarrow> ValidateProviderConfigResponse) option"
  ValidateResourceConfigCalled :: bool
  ValidateResourceConfigResponse :: "ValidateResourceConfigResponse option"
  ValidateResourceConfigRequest :: ValidateResourceConfigRequest
  ValidateResourceConfigFn :: "(ValidateResourceConfigRequest \<Rightarrow> ValidateResourceConfigResponse) option"
  UpgradeResourceStateCalled :: bool
  UpgradeResourceStateResponse :: "UpgradeResourceStateResponse option"
  UpgradeResourceStateRequest :: UpgradeResourceStateRequest
  UpgradeResourceStateFn :: "(UpgradeResourceStateRequest \<Rightarrow> UpgradeResourceStateResponse) option"
  ConfigureProviderCalled :: bool
  ConfigureProviderResponse :: "ConfigureProviderResponse option"
  ConfigureProviderRequest :: ConfigureProviderRequest
  ConfigureProviderFn :: "(ConfigureProviderRequest \<Rightarrow> ConfigureProviderResponse) option"
  StopCalled :: bool
  StopFn :: "error option option"
  StopResponse :: "error option"
  ReadResourceCalled :: bool
  ReadResourceResponse :: "ReadResourceResponse option"
  ReadResourceRequest :: ReadResourceRequest
  ReadResourceFn :: "(ReadResourceRequest \<Rightarrow> ReadResourceResponse) option"
  PlanResourceChangeCalled :: bool
  PlanResourceChangeResponse :: "PlanResourceChangeResponse option"
  PlanResourceChangeRequest :: PlanResourceChangeRequest
  PlanResourceChangeFn :: "(PlanResourceChangeRequest \<Rightarrow> PlanResourceChangeResponse) option"
  ApplyResourceChangeCalled :: bool
  ApplyResourceChangeResponse :: "ApplyResourceChangeResponse option"
  ApplyResourceChangeRequest :: ApplyResourceChangeRequest
  ApplyResourceChangeFn :: "(ApplyResourceChangeRequest \<Rightarrow> ApplyResourceChangeResponse) option"
  ImportResourceStateCalled :: bool
  ImportResourceStateResponse :: "ImportResourceStateResponse option"
  ImportResourceStateRequest :: ImportResourceStateRequest
  ImportResourceStateFn :: "(ImportResourceStateRequest \<Rightarrow> ImportResourceStateResponse) option"
  ReadDataSourceCalled :: bool
  ReadDataSourceResponse :: "ReadDataSourceResponse option"
  ReadDataSourceRequest :: ReadDataSourceRequest
  ReadDataSourceFn :: "(ReadDataSourceRequest \<Rightarrow> ReadDataSourceResponse) option"
  PlanActionCalled :: bool
  PlanActionRequest :: PlanActionRequest
  PlanActionResponse :: "PlanActionResponse option"
  PlanActionFn :: "(PlanActionRequest \<Rightarrow> PlanActionResponse) option"
  ApplyActionCalled :: bool
  ApplyActionRequest :: ApplyActionRequest
  ApplyActionResponse :: "ApplyActionResponse option"
  ApplyActionFn :: "(ApplyActionRequest \<Rightarrow> ApplyActionResponse) option"
  CallFunctionCalled :: bool
  CallFunctionResponse :: CallFunctionResponse
  CallFunctionRequest :: CallFunctionRequest
  CallFunctionFn :: "(CallFunctionRequest \<Rightarrow> CallFunctionResponse) option"

subsection \<open>Schema and configuration operations\<close>

definition getProviderSchema :: "MockProvider \<Rightarrow> GetProviderSchemaResponse" where
  "getProviderSchema p =
     (case GetProviderSchemaResponse p of
        Some resp \<Rightarrow> resp
      | None \<Rightarrow>
          \<lparr>Provider = \<lparr>Version = 0, Block = MkBlock [] []\<rparr>,
           DataSources = Map.empty,
           ResourceTypes = Map.empty,
           GPS_Diagnostics = []\<rparr>)"

definition GetProviderSchema :: "MockProvider \<Rightarrow> GetProviderSchemaResponse \<times> MockProvider" where
  "GetProviderSchema p =
     (let p = p\<lparr>GetProviderSchemaCalled := True\<rparr>
      in (getProviderSchema p, p))"

definition ValidateProviderConfig ::
    "MockProvider \<Rightarrow> ValidateProviderConfigRequest \<Rightarrow> ValidateProviderConfigResponse \<times> MockProvider" where
  "ValidateProviderConfig p r =
     (let p = p\<lparr>ValidateProviderConfigCalled := True, ValidateProviderConfigRequest := r\<rparr>;
          resp = \<lparr>VPCs_PreparedConfig = NilVal, VPCs_Diagnostics = []\<rparr>
      in case ValidateProviderConfigFn p of
           Some f \<Rightarrow> (f r, p)
         | None \<Rightarrow>
             (case ValidateProviderConfigResponse p of
                Some canned \<Rightarrow> (canned, p)
              | None \<Rightarrow> (resp\<lparr>VPCs_PreparedConfig := VPCq_Config r\<rparr>, p)))"

definition ValidateResourceConfig ::
    "externals \<Rightarrow> MockProvider \<Rightarrow> ValidateResourceConfigRequest
       \<Rightarrow> ValidateResourceConfigResponse \<times> MockProvider" where
  "ValidateResourceConfig ext p r =
     (let p = p\<lparr>ValidateResourceConfigCalled := True, ValidateResourceConfigRequest := r\<rparr>;
          resp = \<lparr>VRCs_Diagnostics = []\<rparr>
      in case ResourceTypes (getProviderSchema p) (VRCq_TypeName r) of
           None \<Rightarrow>
             (resp\<lparr>VRCs_Diagnostics :=
                Append (VRCs_Diagnostics resp) (Errorf ''no schema found for %q'' [VRCq_TypeName r])\<rparr>, p)
         | Some resourceSchema \<Rightarrow>
             (case Marshal ext (VRCq_Config r) (ImpliedType (Block resourceSchema)) of
                Some err \<Rightarrow>
                  (resp\<lparr>VRCs_Diagnostics := Append (VRCs_Diagnostics resp) (LibraryError err)\<rparr>, p)
              | None \<Rightarrow>
                  (case ValidateResourceConfigFn p of
                     Some f \<Rightarrow> (f r, p)
                   | None \<Rightarrow>
                       (case ValidateResourceConfigResponse p of
                          Some canned \<Rightarrow> (canned, p)
                        | None \<Rightarrow> (resp, p)))))"

text \<open>
  \<^verbatim>\<open>UpgradeResourceState\<close> has no \<^verbatim>\<open>recover\<close>: a panic of the flatmap decoder ends the
  call, and the result is \<open>None\<close>.
\<close>

definition UpgradeResourceState ::
    "externals \<Rightarrow> MockProvider \<Rightarrow> UpgradeResourceStateRequest
       \<Rightarrow> (UpgradeResourceStateResponse \<times> MockProvider) option" where
  "UpgradeResourceState ext p r =
     (let resp = \<lparr>URSs_UpgradedState = NilVal, URSs_Diagnostics = []\<rparr>
      in if \<not> ConfigureProviderCalled p then
           Some (resp\<lparr>URSs_Diagnostics :=
              Append (URSs_Diagnostics resp)
                (Errorf ''Configure not called before UpgradeResourceState %q'' [URSq_TypeName r])\<rparr>, p)
         else case ResourceTypes (getProviderSchema p) (URSq_TypeName r) of
           None \<Rightarrow>
             Some (resp\<lparr>URSs_Diagnostics :=
                Append (URSs_Diagnostics resp) (Errorf ''no schema found for %q'' [URSq_TypeName r])\<rparr>, p)
         | Some schema \<Rightarrow>
             (let schemaType = ImpliedType (Block schema);
                  p = p\<lparr>UpgradeResourceStateCalled := True, UpgradeResourceStateRequest := r\<rparr>
              in case UpgradeResourceStateFn p of
                   Some f \<Rightarrow> Some (f r, p)
                 | None \<Rightarrow>
                     (case UpgradeResourceStateResponse p of
                        Some canned \<Rightarrow> Some (canned, p)
                      | None \<Rightarrow>
                          (if URSq_RawStateFlatmap r \<noteq> None then
                             (case HCL2ValueFromFlatmap (Convert ext) (URSq_RawStateFlatmap r) schemaType of
                                Panic \<Rightarrow> None
                              | Failed err \<Rightarrow>
                                  Some (resp\<lparr>URSs_Diagnostics := Append (URSs_Diagnostics resp) err\<rparr>, p)
                              | Done v \<Rightarrow> Some (resp\<lparr>URSs_UpgradedState := v\<rparr>, p))
                           else if length (URSq_RawStateJSON r) > 0 then
                             (case Unmarshal ext (URSq_RawStateJSON r) schemaType of
                                Inl err \<Rightarrow>
                                  Some (resp\<lparr>URSs_Diagnostics :=
                                     Append (URSs_Diagnostics resp) (LibraryError err)\<rparr>, p)
                              | Inr v \<Rightarrow> Some (resp\<lparr>URSs_UpgradedState := v\<rparr>, p))
                           else Some (resp, p)))))"

definition ConfigureProvider ::
    "MockProvider \<Rightarrow> ConfigureProviderRequest \<Rightarrow> ConfigureProviderResponse \<times> MockProvider" where
  "ConfigureProvider p r =
     (let p = p\<lparr>ConfigureProviderCalled := True, ConfigureProviderRequest := r\<rparr>;
          resp = \<lparr>CPs_Diagnostics = []\<rparr>
      in case ConfigureProviderFn p of
           Some f \<Rightarrow> (f r, p)
         | None \<Rightarrow>
             (case ConfigureProviderResponse p of
                Some canned \<Rightarrow> (canned, p)
              | None \<Rightarrow> (resp, p)))"

text \<open>
  \<^verbatim>\<open>Stop\<close> takes no lock. \<^verbatim>\<open>StopFn\<close> has no argument, so a set \<^verbatim>\<open>StopFn\<close> is the
  error it returns.
\<close>

definition Stop :: "MockProvider \<Rightarrow> error option \<times> MockProvider" where
  "Stop p =
     (let p = p\<lparr>StopCalled := True\<rparr>
      in case StopFn p of
           Some result \<Rightarrow> (result, p)
         | None \<Rightarrow> (StopResponse p, p))"

definition CallFunction ::
    "MockProvider \<Rightarrow> CallFunctionRequest \<Rightarrow> CallFunctionResponse \<times> MockProvider" where
  "CallFunction p r =
     (let p = p\<lparr>CallFunctionCalled := True, CallFunctionRequest := r\<rparr>
      in case CallFunctionFn p of
           Some f \<Rightarrow> (f r, p)
         | None \<Rightarrow> (CallFunctionResponse p, p))"

subsection \<open>Instance operations\<close>

definition ReadResource ::
    "externals \<Rightarrow> MockProvider \<Rightarrow> ReadResourceRequest \<Rightarrow> ReadResourceResponse \<times> MockProvider" where
  "ReadResource ext p r =
     (let p = p\<lparr>ReadResourceCalled := True, ReadResourceRequest := r\<rparr>;
          resp = \<lparr>RRs_NewState = NilVal, RRs_Diagnostics = [], RRs_Private = []\<rparr>
      in if \<not> ConfigureProviderCalled p then
           (resp\<lparr>RRs_Diagnostics :=
              Append (RRs_Diagnostics resp)
                (Errorf ''Configure not called before ReadResource %q'' [RRq_TypeName r])\<rparr>, p)
         else case ReadResourceFn p of
           Some f \<Rightarrow> (f r, p)
         | None \<Rightarrow>
             (case ReadResourceResponse p of
                Some canned \<Rightarrow>
                  (let resp = canned
                   in case ResourceTypes (getProviderSchema p) (RRq_TypeName r) of
                        None \<Rightarrow>
                          (resp\<lparr>RRs_Diagnostics :=
                             Append (RRs_Diagnostics resp)
                               (Errorf ''no schema found for %q'' [RRq_TypeName r])\<rparr>, p)
                      | Some schema \<Rightarrow>
                          (let (newState, err) = CoerceValue ext (Block schema) (RRs_NewState resp);
                               resp = (case err of
                                         Some msg \<Rightarrow>
                                           resp\<lparr>RRs_Diagnostics :=
                                             Append (RRs_Diagnostics resp) (LibraryError msg)\<rparr>
                                       | None \<Rightarrow> resp)
                           in (resp\<lparr>RRs_NewState := newState\<rparr>, p)))
              | None \<Rightarrow>
                  (resp\<lparr>RRs_NewState := RRq_PriorState r, RRs_Private := RRq_Private r\<rparr>, p)))"

text \<open>
  The closure that \<^verbatim>\<open>PlanResourceChange\<close> passes to \<^verbatim>\<open>cty.Transform\<close>. It never
  returns an error; it panics only where \<^verbatim>\<open>path.Apply\<close> does.
\<close>

definition PlanResourceChange_callback ::
    "Schema \<Rightarrow> PlanResourceChangeRequest \<Rightarrow> Path \<Rightarrow> Value \<Rightarrow> Value outcome" where
  "PlanResourceChange_callback schema r path v =
     (if \<not> IsKnown v then Done v
      else case AttributeByPath (Block schema) path of
             None \<Rightarrow> Done v
           | Some attrSchema \<Rightarrow>
               (case Path_Apply path (PRCq_Config r) of
                  Panic \<Rightarrow> Panic
                | Failed err \<Rightarrow> Done v
                | Done configVal \<Rightarrow>
                    (if Computed attrSchema \<and> \<not> Optional attrSchema \<and> IsNull v
                     then Done (UnknownVal (Type v))
                     else if Computed attrSchema \<and> Optional attrSchema \<and> \<not> IsNull v \<and> IsNull configVal
                     then Done (UnknownVal (Type v))
                     else Done v)))"

text \<open>
  \<^verbatim>\<open>PlanResourceChange\<close> and \<^verbatim>\<open>ApplyResourceChange\<close> return \<open>None\<close> when the
  transform panics.
\<close>

definition PlanResourceChange ::
    "MockProvider \<Rightarrow> PlanResourceChangeRequest
       \<Rightarrow> (PlanResourceChangeResponse \<times> MockProvider) option" where
  "PlanResourceChange p r =
     (let resp = \<lparr>PRCs_PlannedState = NilVal, PRCs_RequiresReplace = [],
                   PRCs_PlannedPrivate = [], PRCs_Diagnostics = []\<rparr>
      in if \<not> ConfigureProviderCalled p then
           Some (resp\<lparr>PRCs_Diagnostics :=
                   Append (PRCs_Diagnostics resp)
                     (Errorf ''Configure not called before PlanResourceChange %q'' [PRCq_TypeName r])\<rparr>, p)
         else
           (let p = p\<lparr>PlanResourceChangeCalled := True, PlanResourceChangeRequest := r\<rparr>
            in case PlanResourceChangeFn p of
                 Some f \<Rightarrow> Some (f r, p)
               | None \<Rightarrow>
                   (case PlanResourceChangeResponse p of
                      Some canned \<Rightarrow> Some (canned, p)
                    | None \<Rightarrow>
                        (if IsNull (PRCq_ProposedNewState r) then
                           Some (resp\<lparr>PRCs_PlannedState := PRCq_ProposedNewState r,
                                      PRCs_PlannedPrivate := PRCq_PriorPrivate r\<rparr>, p)
                         else case ResourceTypes (getProviderSchema p) (PRCq_TypeName r) of
                           None \<Rightarrow>
                             Some (resp\<lparr>PRCs_Diagnostics :=
                                     Append (PRCs_Diagnostics resp)
                                       (Errorf ''no schema found for %q'' [PRCq_TypeName r])\<rparr>, p)
                         | Some schema \<Rightarrow>
                             (case Transform (PRCq_ProposedNewState r)
                                     (PlanResourceChange_callback schema r) of
                                Panic \<Rightarrow> None
                              | Failed err \<Rightarrow>
                                  Some (resp\<lparr>PRCs_Diagnostics :=
                                          Append (PRCs_Diagnostics resp) err\<rparr>, p)
                              | Done val \<Rightarrow>
                                  Some (resp\<lparr>PRCs_PlannedPrivate := PRCq_PriorPrivate r,
                                             PRCs_PlannedState := val\<rparr>, p))))))"

text \<open>The closure that \<^verbatim>\<open>ApplyResourceChange\<close> passes to \<^verbatim>\<open>cty.Transform\<close>.\<close>

definition ApplyResourceChange_callback :: "Path \<Rightarrow> Value \<Rightarrow> Value outcome" where
  "ApplyResourceChange_callback path v =
     (if \<not> IsKnown v then
        (let ty = Type v
         in if ty = CtyString then Done (StringVal [])
            else if ty = CtyNumber then Done (NumberIntVal 0)
            else if ty = CtyBool then Done (BoolVal False)
            else case ty of
                   CtyMap ety \<Rightarrow> Done (MapValEmpty ety)
                 | CtyList ety \<Rightarrow> Done (ListValEmpty ety)
                 | _ \<Rightarrow> Done (NullVal ty))
      else Done v)"

definition ApplyResourceChange ::
    "MockProvider \<Rightarrow> ApplyResourceChangeRequest
       \<Rightarrow> (ApplyResourceChangeResponse \<times> MockProvider) option" where
  "ApplyResourceChange p r =
     (let p = p\<lparr>ApplyResourceChangeCalled := True, ApplyResourceChangeRequest := r\<rparr>;
          resp = \<lparr>ARCs_NewState = NilVal, ARCs_Private = [], ARCs_Diagnostics = []\<rparr>
      in if \<not> ConfigureProviderCalled p then
           Some (resp\<lparr>ARCs_Diagnostics :=
                   Append (ARCs_Diagnostics resp)
                     (Errorf ''Configure not called before ApplyResourceChange %q'' [ARCq_TypeName r])\<rparr>, p)
         else case ApplyResourceChangeFn p of
           Some f \<Rightarrow> Some (f r, p)
         | None \<Rightarrow>
             (case ApplyResourceChangeResponse p of
                Some canned \<Rightarrow> Some (canned, p)
              | None \<Rightarrow>
                  (if IsNull (ARCq_PlannedState r) then
                     Some (resp\<lparr>ARCs_NewState := ARCq_PlannedState r\<rparr>, p)
                   else case Transform (ARCq_PlannedState r) ApplyResourceChange_callback of
                          Panic \<Rightarrow> None
                        | Failed err \<Rightarrow>
                            Some (resp\<lparr>ARCs_NewState := DynamicVal,
                                       ARCs_Private := ARCq_PlannedPrivate r\<rparr>, p)
                        | Done val \<Rightarrow>
                            Some (resp\<lparr>ARCs_NewState := val,
                                       ARCs_Private := ARCq_PlannedPrivate r\<rparr>, p))))"

text \<open>
  The loop of \<^verbatim>\<open>ImportResourceState\<close> over a copy of the canned resources: each state
  is coerced to the schema of its own type; the first missing schema or coercion error
  ends the loop with that error.
\<close>

fun import_fixup ::
    "externals \<Rightarrow> GetProviderSchemaResponse \<Rightarrow> ImportedResource list
       \<Rightarrow> error + ImportedResource list" where
  "import_fixup ext schemas [] = Inr []"
| "import_fixup ext schemas (res # rest) =
     (case ResourceTypes schemas (IR_TypeName res) of
        None \<Rightarrow> Inl (Errorf ''no schema found for %q'' [IR_TypeName res])
      | Some schema \<Rightarrow>
          (case CoerceValue ext (Block schema) (IR_State res) of
             (state, Some msg) \<Rightarrow> Inl (LibraryError msg)
           | (state, None) \<Rightarrow>
               (case import_fixup ext schemas rest of
                  Inl err \<Rightarrow> Inl err
                | Inr importedResources \<Rightarrow> Inr (res\<lparr>IR_State := state\<rparr> # importedResources))))"

definition ImportResourceState ::
    "externals \<Rightarrow> MockProvider \<Rightarrow> ImportResourceStateRequest
       \<Rightarrow> ImportResourceStateResponse \<times> MockProvider" where
  "ImportResourceState ext p r =
     (let resp = \<lparr>IRSs_ImportedResources = [], IRSs_Diagnostics = []\<rparr>
      in if \<not> ConfigureProviderCalled p then
           (resp\<lparr>IRSs_Diagnostics :=
              Append (IRSs_Diagnostics resp)
                (Errorf ''Configure not called before ImportResourceState %q'' [IRSq_TypeName r])\<rparr>, p)
         else
           (let p = p\<lparr>ImportResourceStateCalled := True, ImportResourceStateRequest := r\<rparr>
            in case ImportResourceStateFn p of
                 Some f \<Rightarrow> (f r, p)
               | None \<Rightarrow>
                   (case ImportResourceStateResponse p of
                      Some canned \<Rightarrow>
                        (let resp = canned
                         in case import_fixup ext (getProviderSchema p) (IRSs_ImportedResources resp) of
                              Inl err \<Rightarrow>
                                (resp\<lparr>IRSs_Diagnostics := Append (IRSs_Diagnostics resp) err\<rparr>, p)
                            | Inr importedResources \<Rightarrow>
                                (resp\<lparr>IRSs_ImportedResources := importedResources\<rparr>, p))
                    | None \<Rightarrow> (resp, p))))"

definition ReadDataSource ::
    "MockProvider \<Rightarrow> ReadDataSourceRequest \<Rightarrow> ReadDataSourceResponse \<times> MockProvider" where
  "ReadDataSource p r =
     (let resp = \<lparr>RDSs_State = NilVal, RDSs_Diagnostics = []\<rparr>
      in if \<not> ConfigureProviderCalled p then
           (resp\<lparr>RDSs_Diagnostics :=
              Append (RDSs_Diagnostics resp)
                (Errorf ''Configure not called before ReadDataSource %q'' [RDSq_TypeName r])\<rparr>, p)
         else
           (let p = p\<lparr>ReadDataSourceCalled := True, ReadDataSourceRequest := r\<rparr>
            in case ReadDataSourceFn p of
                 Some f \<Rightarrow> (f r, p)
               | None \<Rightarrow>
                   (case ReadDataSourceResponse p of
                      Some canned \<Rightarrow> (canned, p)
                    | None \<Rightarrow> (resp, p))))"

definition PlanAction ::
    "MockProvider \<Rightarrow> PlanActionRequest \<Rightarrow> PlanActionResponse \<times> MockProvider" where
  "PlanAction p r =
     (let resp = \<lparr>PAs_Diagnostics = []\<rparr>
      in if \<not> ConfigureProviderCalled p then
           (resp\<lparr>PAs_Diagnostics :=
              Append (PAs_Diagnostics resp)
                (Errorf ''Configure not called before PlanAction %q'' [PAq_TypeName r])\<rparr>, p)
         else
           (let p = p\<lparr>PlanActionCalled := True, PlanActionRequest := r\<rparr>
            in case PlanActionFn p of
                 Some f \<Rightarrow> (f r, p)
               | None \<Rightarrow>
                   (case PlanActionResponse p of
                      Some canned \<Rightarrow> (canned, p)
                    | None \<Rightarrow> (resp, p))))"

definition ApplyAction ::
    "MockProvider \<Rightarrow> ApplyActionRequest \<Rightarrow> ApplyActionResponse \<times> MockProvider" where
  "ApplyAction p r =
     (let resp = \<lparr>AAs_Diagnostics = []\<rparr>
      in if \<not> ConfigureProviderCalled p then
           (resp\<lparr>AAs_Diagnostics :=
              Append (AAs_Diagnostics resp)
                (Errorf ''Configure not called before ApplyAction %q'' [AAq_TypeName r])\<rparr>, p)
         else
           (let p = p\<lparr>ApplyActionCalled := True, ApplyActionRequest := r\<rparr>
            in case ApplyActionFn p of
                 Some f \<Rightarrow> (f r, p)
               | None \<Rightarrow>
                   (case ApplyActionResponse p of
                      Some canned \<Rightarrow> (canned, p)
                    | None \<Rightarrow> (resp, p))))"

section \<open>The call-ordering gate\<close>

text \<open>
  The diagnostic of the gate names the operation and the type name of the request. A
  diagnostic is an ordering violation when it wraps an error of the mock's own whose
  format starts with \<open>Configure not called\<close>. The diagnostics that the test supplied
  for a call are those of the override function's response or, without an override, of
  the canned response.
\<close>

definition ordering_violation :: "string \<Rightarrow> string \<Rightarrow> Diagnostic" where
  "ordering_violation operation typeName =
     NativeError (Errorf (''Configure not called before '' @ operation @ '' %q'') [typeName])"

fun is_ordering_violation :: "Diagnostic \<Rightarrow> bool" where
  "is_ordering_violation (NativeError (Errorf format args)) = HasPrefix format ''Configure not called''"
| "is_ordering_violation d = False"

definition supplied :: "('q \<Rightarrow> 's) option \<Rightarrow> 's option \<Rightarrow> 'q \<Rightarrow> ('s \<Rightarrow> Diagnostics) \<Rightarrow> Diagnostics" where
  "supplied fn canned r diags =
     (case fn of
        Some f \<Rightarrow> diags (f r)
      | None \<Rightarrow> (case canned of Some resp \<Rightarrow> diags resp | None \<Rightarrow> []))"

text \<open>The diagnostics of a call that may panic: none when it panics.\<close>

definition diagnostics_of :: "('s \<Rightarrow> Diagnostics) \<Rightarrow> ('s \<times> MockProvider) option \<Rightarrow> Diagnostics" where
  "diagnostics_of diags res = (case res of None \<Rightarrow> [] | Some (resp, p) \<Rightarrow> diags resp)"

section \<open>Sample values\<close>

text \<open>
  \<open>new_MockProvider\<close> is \<^verbatim>\<open>&MockProvider{}\<close>, every field at its zero value. The
  sample externals encode a value when it has the type asked for, coerce nothing, parse
  no JSON and convert strings to strings only. The sample provider is configured and
  has one resource type, with a computed attribute and an optional and computed one.
\<close>

definition new_MockProvider :: MockProvider where
  "new_MockProvider =
     \<lparr>GetProviderSchemaCalled = False,
      GetProviderSchemaResponse = None,
      ValidateProviderConfigCalled = False,
      ValidateProviderConfigResponse = None,
      ValidateProviderConfigRequest = \<lparr>VPCq_Config = NilVal\<rparr>,
      ValidateProviderConfigFn = None,
      ValidateResourceConfigCalled = False,
      ValidateResourceConfigResponse = None,
      ValidateResourceConfigRequest = \<lparr>VRCq_TypeName = [], VRCq_Config = NilVal\<rparr>,
      ValidateResourceConfigFn = None,
      UpgradeResourceStateCalled = False,
      UpgradeResourceStateResponse = None,
      UpgradeResourceStateRequest =
        \<lparr>URSq_TypeName = [], URSq_Version = 0, URSq_RawStateJSON = [], URSq_RawStateFlatmap = None\<rparr>,
      UpgradeResourceStateFn = None,
      ConfigureProviderCalled = False,
      ConfigureProviderResponse = None,
      ConfigureProviderRequest = \<lparr>CPq_TerraformVersion = [], CPq_Config = NilVal\<rparr>,
      ConfigureProviderFn = None,
      StopCalled = False,
      StopFn = None,
      StopResponse = None,
      ReadResourceCalled = False,
      ReadResourceResponse = None,
      ReadResourceRequest = \<lparr>RRq_TypeName = [], RRq_PriorState = NilVal, RRq_Private = []\<rparr>,
      ReadResourceFn = None,
      PlanResourceChangeCalled = False,
      PlanResourceChangeResponse = None,
      PlanResourceChangeRequest =
        \<lparr>PRCq_TypeName = [], PRCq_PriorState = NilVal, PRCq_ProposedNewState = NilVal,
         PRCq_Config = NilVal, PRCq_PriorPrivate = []\<rparr>,
      PlanResourceChangeFn = None,
      ApplyResourceChangeCalled = False,
      ApplyResourceChangeResponse = None,
      ApplyResourceChangeRequest =
        \<lparr>ARCq_TypeName = [], ARCq_PriorState = NilVal, ARCq_PlannedState = NilVal,
         ARCq_Config = NilVal, ARCq_PlannedPrivate = []\<rparr>,
      ApplyResourceChangeFn = None,
      ImportResourceStateCalled = False,
      ImportResourceStateResponse = None,
      ImportResourceStateRequest = \<lparr>IRSq_TypeName = [], IRSq_ID = []\<rparr>,
      ImportResourceStateFn = None,
      ReadDataSourceCalled = False,
      ReadDataSourceResponse = None,
      ReadDataSourceRequest = \<lparr>RDSq_TypeName = [], RDSq_Config = NilVal\<rparr>,
      ReadDataSourceFn = None,
      PlanActionCalled = False,
      PlanActionRequest = \<lparr>PAq_TypeName = [], PAq_ProposedActionData = NilVal\<rparr>,
      PlanActionResponse = None,
      PlanActionFn = None,
      ApplyActionCalled = False,
      ApplyActionRequest = \<lparr>AAq_TypeName = [], AAq_PlannedActionData = NilVal\<rparr>,
      ApplyActionResponse = None,
      ApplyActionFn = None,
      CallFunctionCalled = False,
      CallFunctionResponse = \<lparr>CFs_Result = NilVal, CFs_Err = None\<rparr>,
      CallFunctionRequest = \<lparr>CFq_FunctionName = [], CFq_Arguments = []\<rparr>,
      CallFunctionFn = None\<rparr>"

definition sample_externals :: externals where
  "sample_externals =
     \<lparr>Marshal = (\<lambda>v ty. if Type v = ty then None else Some ''wrong type''),
      Unmarshal = (\<lambda>buf ty. Inl ''unsupported''),
      CoerceValue = (\<lambda>b v. (v, None)),
      Convert = (\<lambda>v ty. if ty = CtyString then Inr v else Inl ''unsupported'')\<rparr>"

definition configured_MockProvider :: MockProvider where
  "configured_MockProvider =
     snd (ConfigureProvider new_MockProvider \<lparr>CPq_TerraformVersion = ''1.0'', CPq_Config = NilVal\<rparr>)"

definition test_schema :: Schema where
  "test_schema =
     \<lparr>Version = 1,
      Block = MkBlock
        [(''id'', \<lparr>AttrType = CtyString, Required = False, Optional = False, Computed = True\<rparr>),
         (''name'', \<lparr>AttrType = CtyString, Required = False, Optional = True, Computed = True\<rparr>)]
        []\<rparr>"

definition test_provider :: MockProvider where
  "test_provider =
     new_MockProvider
       \<lparr>GetProviderSchemaResponse :=
          Some \<lparr>Provider = \<lparr>Version = 0, Block = MkBlock [] []\<rparr>,
                DataSources = Map.empty,
                ResourceTypes = [''test_instance'' \<mapsto> test_schema],
                GPS_Diagnostics = []\<rparr>,
        ConfigureProviderCalled := True\<rparr>"

section \<open>Well-formed values\<close>

text \<open>
  The library builds values through its constructors only, so that the elements of a
  list, map or set have the element type of the collection, a map and an object have
  each key once, a set has no two equivalent elements, and the zero value stands
  inside no other value.
\<close>

fun well_formed :: "Value \<Rightarrow> bool"
  and well_formed_elems :: "cty_type \<Rightarrow> Value list \<Rightarrow> bool"
  and well_formed_entries :: "cty_type \<Rightarrow> (string \<times> Value) list \<Rightarrow> bool"
  and well_formed_items :: "Value list \<Rightarrow> bool"
  and well_formed_attrs :: "(string \<times> Value) list \<Rightarrow> bool" where
  "well_formed NilVal = False"
| "well_formed (NullVal t) = True"
| "well_formed (UnknownVal t) = True"
| "well_formed (StringVal s) = True"
| "well_formed (NumberVal n) = True"
| "well_formed (BoolVal b) = True"
| "well_formed (ListV t xs) = well_formed_elems t xs"
| "well_formed (MapV t kvs) = (distinct (map fst kvs) \<and> well_formed_entries t kvs)"
| "well_formed (SetV t xs) = (foldl set_insert [] xs = xs \<and> well_formed_elems t xs)"
| "well_formed (ObjectV avs) = (distinct (map fst avs) \<and> well_formed_attrs avs)"
| "well_formed (TupleV xs) = well_formed_items xs"
| "well_formed_elems t [] = True"
| "well_formed_elems t (x # xs) = (well_formed x \<and> Type x = t \<and> well_formed_elems t xs)"
| "well_formed_entries t [] = True"
| "well_formed_entries t (kv # kvs) =
     (well_formed (snd kv) \<and> Type (snd kv) = t \<and> well_formed_entries t kvs)"
| "well_formed_items [] = True"
| "well_formed_items (x # xs) = (well_formed x \<and> well_formed_items xs)"
| "well_formed_attrs [] = True"
| "well_formed_attrs (av # avs) = (well_formed (snd av) \<and> well_formed_attrs avs)"

section \<open>The default apply, as the specification words it\<close>

text \<open>
  The zero value of a type: the empty string, zero, false, the empty map or list, and
  null for any other type. \<open>zero_unknowns\<close> replaces every unknown value in a value by
  the zero value of its type; a set is built again from its new elements.
\<close>

fun zero_value :: "cty_type \<Rightarrow> Value" where
  "zero_value CtyString = StringVal []"
| "zero_value CtyNumber = NumberVal 0"
| "zero_value CtyBool = BoolVal False"
| "zero_value (CtyMap ety) = MapV ety []"
| "zero_value (CtyList ety) = ListV ety []"
| "zero_value ty = NullVal ty"

fun zero_unknowns :: "Value \<Rightarrow> Value"
  and zero_unknowns_list :: "Value list \<Rightarrow> Value list"
  and zero_unknowns_fields :: "(string \<times> Value) list \<Rightarrow> (string \<times> Value) list" where
  "zero_unknowns NilVal = NilVal"
| "zero_unknowns (NullVal t) = NullVal t"
| "zero_unknowns (UnknownVal t) = zero_value t"
| "zero_unknowns (StringVal s) = StringVal s"
| "zero_unknowns (NumberVal n) = NumberVal n"
| "zero_unknowns (BoolVal b) = BoolVal b"
| "zero_unknowns (ListV t xs) = ListV t (zero_unknowns_list xs)"
| "zero_unknowns (MapV t kvs) = MapV t (zero_unknowns_fields kvs)"
| "zero_unknowns (SetV t xs) = SetV t (foldl set_insert [] (zero_unknowns_list xs))"
| "zero_unknowns (ObjectV avs) = ObjectV (zero_unknowns_fields avs)"
| "zero_unknowns (TupleV xs) = TupleV (zero_unknowns_list xs)"
| "zero_unknowns_list [] = []"
| "zero_unknowns_list (x # xs) = zero_unknowns x # zero_unknowns_list xs"
| "zero_unknowns_fields [] = []"
| "zero_unknowns_fields (kv # kvs) = (fst kv, zero_unknowns (snd kv)) # zero_unknowns_fields kvs"

section \<open>Schemas of legacy states\<close>





section \<open>A schema with a set-nested block\<close>

text \<open>
  A schema with an optional and computed attribute and a set-nested block that has a
  computed attribute, and a configured provider that registers it.
\<close>

definition disk_schema :: Schema where
  "disk_schema =
     \<lparr>Version = 1,
      Block = MkBlock
        [(''name'', \<lparr>AttrType = CtyString, Required = False, Optional = True, Computed = True\<rparr>)]
        [(''disk'', NestingSet,
          MkBlock [(''id'', \<lparr>AttrType = CtyString, Required = False, Optional = False, Computed = True\<rparr>)]
                  [])]\<rparr>"

definition disk_provider :: MockProvider where
  "disk_provider =
     new_MockProvider
       \<lparr>GetProviderSchemaResponse :=
          Some \<lparr>Provider = \<lparr>Version = 0, Block = MkBlock [] []\<rparr>,
                DataSources = Map.empty,
                ResourceTypes = [''test_instance'' \<mapsto> disk_schema],
                GPS_Diagnostics = []\<rparr>,
        ConfigureProviderCalled := True\<rparr>"

section \<open>The default plan, as the specification words it\<close>

text \<open>
  What the plan makes of the value at one path: the value becomes unknown when the path
  resolves to a declared attribute and to a value of the configuration and either the
  attribute is computed and not optional and the value is null, or the attribute is
  optional and computed, the value is known and not null and the value of the
  configuration is null. Every other value stays as it is.
\<close>

definition planned_value :: "Schema \<Rightarrow> Value \<Rightarrow> Path \<Rightarrow> Value \<Rightarrow> Value" where
  "planned_value schema config path v =
     (case AttributeByPath (Block schema) path of
        None \<Rightarrow> v
      | Some attr \<Rightarrow>
          (case Path_Apply path config of
             Done c \<Rightarrow>
               (if Computed attr \<and> \<not> Optional attr \<and> IsNull v then UnknownVal (Type v)
                else if Computed attr \<and> Optional attr \<and> IsKnown v \<and> \<not> IsNull v \<and> IsNull c
                then UnknownVal (Type v)
                else v)
           | _ \<Rightarrow> v))"

text \<open>
  A structural walk that visits every path of a value bottom-up: the elements of a
  collection and the attributes of an object first, each under its own path, then the
  value itself. The visitor returns the value or its replacement.
\<close>

fun walk :: "(Path \<Rightarrow> Value \<Rightarrow> Value) \<Rightarrow> Path \<Rightarrow> Value \<Rightarrow> Value"
  and walk_elems :: "(Path \<Rightarrow> Value \<Rightarrow> Value) \<Rightarrow> Path \<Rightarrow> nat \<Rightarrow> Value list \<Rightarrow> Value list"
  and walk_set_elems :: "(Path \<Rightarrow> Value \<Rightarrow> Value) \<Rightarrow> Path \<Rightarrow> Value list \<Rightarrow> Value list"
  and walk_map_elems ::
    "(Path \<Rightarrow> Value \<Rightarrow> Value) \<Rightarrow> Path \<Rightarrow> (string \<times> Value) list \<Rightarrow> (string \<times> Value) list"
  and walk_attrs ::
    "(Path \<Rightarrow> Value \<Rightarrow> Value) \<Rightarrow> Path \<Rightarrow> (string \<times> Value) list \<Rightarrow> (string \<times> Value) list" where
  "walk f path NilVal = f path NilVal"
| "walk f path (NullVal t) = f path (NullVal t)"
| "walk f path (UnknownVal t) = f path (UnknownVal t)"
| "walk f path (StringVal s) = f path (StringVal s)"
| "walk f path (NumberVal n) = f path (NumberVal n)"
| "walk f path (BoolVal b) = f path (BoolVal b)"
| "walk f path (ListV t xs) = f path (ListV t (walk_elems f path 0 xs))"
| "walk f path (MapV t kvs) = f path (MapV t (walk_map_elems f path kvs))"
| "walk f path (SetV t xs) = f path (SetV t (foldl set_insert [] (walk_set_elems f path xs)))"
| "walk f path (ObjectV avs) = f path (ObjectV (walk_attrs f path avs))"
| "walk f path (TupleV xs) = f path (TupleV (walk_elems f path 0 xs))"
| "walk_elems f path i [] = []"
| "walk_elems f path i (x # xs) =
     walk f (path @ [IndexStep (NumberIntVal (int i))]) x # walk_elems f path (Suc i) xs"
| "walk_set_elems f path [] = []"
| "walk_set_elems f path (x # xs) = walk f (path @ [IndexStep x]) x # walk_set_elems f path xs"
| "walk_map_elems f path [] = []"
| "walk_map_elems f path (kv # kvs) =
     (fst kv, walk f (path @ [IndexStep (StringVal (fst kv))]) (snd kv)) # walk_map_elems f path kvs"
| "walk_attrs f path [] = []"
| "walk_attrs f path (av # avs) =
     (fst av, walk f (path @ [GetAttrStep (fst av)]) (snd av)) # walk_attrs f path avs"

definition planned :: "Schema \<Rightarrow> Value \<Rightarrow> Value \<Rightarrow> Value" where
  "planned schema config proposed = walk (planned_value schema config) [] proposed"

text \<open>
  The keys that the transform puts into a path: the index of a list or tuple element,
  the key of a map element, and a set element itself. A key is plain when it is not a
  null or unknown number or string; a set element that has elements of its own is plain.
\<close>

fun plain_key :: "Value \<Rightarrow> bool" where
  "plain_key (NullVal t) = (t \<noteq> CtyNumber \<and> t \<noteq> CtyString)"
| "plain_key (UnknownVal t) = (t \<noteq> CtyNumber \<and> t \<noteq> CtyString)"
| "plain_key v = True"

fun plain_step :: "PathStep \<Rightarrow> bool" where
  "plain_step (GetAttrStep name) = True"
| "plain_step (IndexStep key) = plain_key key"

definition plain_path :: "Path \<Rightarrow> bool" where
  "plain_path path = (\<forall>step \<in> set path. plain_step step)"

section \<open>Properties of the transform\<close>

lemma transform_no_Failed:
  assumes "\<And>path v e. cb path v \<noteq> Failed e"
  shows "transform cb path v \<noteq> Failed e"
    and "transform_elems cb path i xs \<noteq> Failed e"
    and "transform_set_elems cb path xs \<noteq> Failed e"
    and "transform_map_elems cb path kvs \<noteq> Failed e"
    and "transform_attrs cb path avs \<noteq> Failed e"
  using assms
  by (induction cb path v and cb path i xs and cb path xs and cb path kvs and cb path avs
      rule: transform_transform_elems_transform_set_elems_transform_map_elems_transform_attrs.induct)
     (auto simp: rebuilt_def split: outcome.splits option.splits)

lemma PlanResourceChange_callback_no_Failed:
  "PlanResourceChange_callback schema r path v \<noteq> Failed e"
  by (simp add: PlanResourceChange_callback_def split: option.splits outcome.splits)

lemma ApplyResourceChange_callback_no_Failed:
  "ApplyResourceChange_callback path v \<noteq> Failed e"
  by (simp add: ApplyResourceChange_callback_def Let_def split: cty_type.splits)

section \<open>The gate of each instance operation\<close>

lemma import_fixup_no_violation:
  "import_fixup ext schemas rs = Inl err \<Longrightarrow> \<not> is_ordering_violation (NativeError err)"
  by (induction rs arbitrary: err)
     (auto simp: HasPrefix_def split: option.splits prod.splits sum.splits)

lemma gate_ReadResource:
  "\<not> ConfigureProviderCalled p \<Longrightarrow>
     RRs_Diagnostics (fst (ReadResource ext p r)) = [ordering_violation ''ReadResource'' (RRq_TypeName r)]"
  by (simp add: ReadResource_def ordering_violation_def Append_def)

lemma open_ReadResource:
  "ConfigureProviderCalled p \<Longrightarrow> d \<in> set (RRs_Diagnostics (fst (ReadResource ext p r))) \<Longrightarrow>
     is_ordering_violation d \<Longrightarrow>
     d \<in> set (supplied (ReadResourceFn p) (ReadResourceResponse p) r RRs_Diagnostics)"
  by (auto simp: ReadResource_def supplied_def Append_def HasPrefix_def Let_def
           split: option.splits prod.splits)

lemma gate_PlanResourceChange:
  "\<not> ConfigureProviderCalled p \<Longrightarrow>
     map_option (PRCs_Diagnostics \<circ> fst) (PlanResourceChange p r)
       = Some [ordering_violation ''PlanResourceChange'' (PRCq_TypeName r)]"
  by (simp add: PlanResourceChange_def ordering_violation_def Append_def)

lemma open_PlanResourceChange:
  "ConfigureProviderCalled p \<Longrightarrow>
     d \<in> set (diagnostics_of PRCs_Diagnostics (PlanResourceChange p r)) \<Longrightarrow>
     is_ordering_violation d \<Longrightarrow>
     d \<in> set (supplied (PlanResourceChangeFn p) (PlanResourceChangeResponse p) r PRCs_Diagnostics)"
  by (auto simp: PlanResourceChange_def supplied_def diagnostics_of_def Append_def HasPrefix_def
                 Let_def Transform_def
                 transform_no_Failed(1)[OF PlanResourceChange_callback_no_Failed]
           split: option.splits outcome.splits if_splits)

lemma gate_ApplyResourceChange:
  "\<not> ConfigureProviderCalled p \<Longrightarrow>
     map_option (ARCs_Diagnostics \<circ> fst) (ApplyResourceChange p r)
       = Some [ordering_violation ''ApplyResourceChange'' (ARCq_TypeName r)]"
  by (simp add: ApplyResourceChange_def ordering_violation_def Append_def)

lemma open_ApplyResourceChange:
  "ConfigureProviderCalled p \<Longrightarrow>
     d \<in> set (diagnostics_of ARCs_Diagnostics (ApplyResourceChange p r)) \<Longrightarrow>
     is_ordering_violation d \<Longrightarrow>
     d \<in> set (supplied (ApplyResourceChangeFn p) (ApplyResourceChangeResponse p) r ARCs_Diagnostics)"
  by (auto simp: ApplyResourceChange_def supplied_def diagnostics_of_def Append_def HasPrefix_def
                 Let_def
           split: option.splits outcome.splits if_splits)

lemma gate_ImportResourceState:
  "\<not> ConfigureProviderCalled p \<Longrightarrow>
     IRSs_Diagnostics (fst (ImportResourceState ext p r))
       = [ordering_violation ''ImportResourceState'' (IRSq_TypeName r)]"
  by (simp add: ImportResourceState_def ordering_violation_def Append_def)

lemma open_ImportResourceState:
  "ConfigureProviderCalled p \<Longrightarrow>
     d \<in> set (IRSs_Diagnostics (fst (ImportResourceState ext p r))) \<Longrightarrow>
     is_ordering_violation d \<Longrightarrow>
     d \<in> set (supplied (ImportResourceStateFn p) (ImportResourceStateResponse p) r IRSs_Diagnostics)"
  by (auto simp: ImportResourceState_def supplied_def Append_def Let_def
           dest: import_fixup_no_violation
           split: option.splits sum.splits)

lemma gate_ReadDataSource:
  "\<not> ConfigureProviderCalled p \<Longrightarrow>
     RDSs_Diagnostics (fst (ReadDataSource p r)) = [ordering_violation ''ReadDataSource'' (RDSq_TypeName r)]"
  by (simp add: ReadDataSource_def ordering_violation_def Append_def)

lemma open_ReadDataSource:
  "ConfigureProviderCalled p \<Longrightarrow> d \<in> set (RDSs_Diagnostics (fst (ReadDataSource p r))) \<Longrightarrow>
     d \<in> set (supplied (ReadDataSourceFn p) (ReadDataSourceResponse p) r RDSs_Diagnostics)"
  by (auto simp: ReadDataSource_def supplied_def Let_def split: option.splits)

lemma gate_PlanAction:
  "\<not> ConfigureProviderCalled p \<Longrightarrow>
     PAs_Diagnostics (fst (PlanAction p r)) = [ordering_violation ''PlanAction'' (PAq_TypeName r)]"
  by (simp add: PlanAction_def ordering_violation_def Append_def)

lemma open_PlanAction:
  "ConfigureProviderCalled p \<Longrightarrow> d \<in> set (PAs_Diagnostics (fst (PlanAction p r))) \<Longrightarrow>
     d \<in> set (supplied (PlanActionFn p) (PlanActionResponse p) r PAs_Diagnostics)"
  by (auto simp: PlanAction_def supplied_def Let_def split: option.splits)

lemma gate_ApplyAction:
  "\<not> ConfigureProviderCalled p \<Longrightarrow>
     AAs_Diagnostics (fst (ApplyAction p r)) = [ordering_violation ''ApplyAction'' (AAq_TypeName r)]"
  by (simp add: ApplyAction_def ordering_violation_def Append_def)

lemma open_ApplyAction:
  "ConfigureProviderCalled p \<Longrightarrow> d \<in> set (AAs_Diagnostics (fst (ApplyAction p r))) \<Longrightarrow>
     d \<in> set (supplied (ApplyActionFn p) (ApplyActionResponse p) r AAs_Diagnostics)"
  by (auto simp: ApplyAction_def supplied_def Let_def split: option.splits)

lemma ConfigureProvider_sets_flag:
  "ConfigureProviderCalled (snd (ConfigureProvider p r))"
  by (simp add: ConfigureProvider_def Let_def split: option.splits)

lemma configured_flag: "ConfigureProviderCalled configured_MockProvider"
  by (simp add: configured_MockProvider_def ConfigureProvider_sets_flag)

section \<open>Claims\<close>

text \<open>
  C1. Before \<^verbatim>\<open>ConfigureProvider\<close> each of the seven instance operations returns
  exactly one diagnostic, the ordering violation naming the operation and the type name
  of the request. After it, an ordering violation among the diagnostics of the response
  is one that the test supplied: the mock adds none. \<^verbatim>\<open>ConfigureProvider\<close> sets the
  flag whatever it returns.
\<close>

theorem ordering_gate:
  "(\<not> ConfigureProviderCalled p \<longrightarrow>
      RRs_Diagnostics (fst (ReadResource ext p rr))
        = [ordering_violation ''ReadResource'' (RRq_TypeName rr)]
    \<and> map_option (PRCs_Diagnostics \<circ> fst) (PlanResourceChange p pr)
        = Some [ordering_violation ''PlanResourceChange'' (PRCq_TypeName pr)]
    \<and> map_option (ARCs_Diagnostics \<circ> fst) (ApplyResourceChange p ar)
        = Some [ordering_violation ''ApplyResourceChange'' (ARCq_TypeName ar)]
    \<and> IRSs_Diagnostics (fst (ImportResourceState ext p ir))
        = [ordering_violation ''ImportResourceState'' (IRSq_TypeName ir)]
    \<and> RDSs_Diagnostics (fst (ReadDataSource p dr))
        = [ordering_violation ''ReadDataSource'' (RDSq_TypeName dr)]
    \<and> PAs_Diagnostics (fst (PlanAction p pa))
        = [ordering_violation ''PlanAction'' (PAq_TypeName pa)]
    \<and> AAs_Diagnostics (fst (ApplyAction p aa))
        = [ordering_violation ''ApplyAction'' (AAq_TypeName aa)])
   \<and> (ConfigureProviderCalled p \<longrightarrow>
      (\<forall>d \<in> set (RRs_Diagnostics (fst (ReadResource ext p rr))). is_ordering_violation d \<longrightarrow>
         d \<in> set (supplied (ReadResourceFn p) (ReadResourceResponse p) rr RRs_Diagnostics))
    \<and> (\<forall>d \<in> set (diagnostics_of PRCs_Diagnostics (PlanResourceChange p pr)). is_ordering_violation d \<longrightarrow>
         d \<in> set (supplied (PlanResourceChangeFn p) (PlanResourceChangeResponse p) pr PRCs_Diagnostics))
    \<and> (\<forall>d \<in> set (diagnostics_of ARCs_Diagnostics (ApplyResourceChange p ar)). is_ordering_violation d \<longrightarrow>
         d \<in> set (supplied (ApplyResourceChangeFn p) (ApplyResourceChangeResponse p) ar ARCs_Diagnostics))
    \<and> (\<forall>d \<in> set (IRSs_Diagnostics (fst (ImportResourceState ext p ir))). is_ordering_violation d \<longrightarrow>
         d \<in> set (supplied (ImportResourceStateFn p) (ImportResourceStateResponse p) ir IRSs_Diagnostics))
    \<and> (\<forall>d \<in> set (RDSs_Diagnostics (fst (ReadDataSource p dr))). is_ordering_violation d \<longrightarrow>
         d \<in> set (supplied (ReadDataSourceFn p) (ReadDataSourceResponse p) dr RDSs_Diagnostics))
    \<and> (\<forall>d \<in> set (PAs_Diagnostics (fst (PlanAction p pa))). is_ordering_violation d \<longrightarrow>
         d \<in> set (supplied (PlanActionFn p) (PlanActionResponse p) pa PAs_Diagnostics))
    \<and> (\<forall>d \<in> set (AAs_Diagnostics (fst (ApplyAction p aa))). is_ordering_violation d \<longrightarrow>
         d \<in> set (supplied (ApplyActionFn p) (ApplyActionResponse p) aa AAs_Diagnostics)))
   \<and> ConfigureProviderCalled (snd (ConfigureProvider p cr))"
proof (intro conjI impI ballI)
  assume "\<not> ConfigureProviderCalled p"
  then show "RRs_Diagnostics (fst (ReadResource ext p rr))
        = [ordering_violation ''ReadResource'' (RRq_TypeName rr)]"
    and "map_option (PRCs_Diagnostics \<circ> fst) (PlanResourceChange p pr)
        = Some [ordering_violation ''PlanResourceChange'' (PRCq_TypeName pr)]"
    and "map_option (ARCs_Diagnostics \<circ> fst) (ApplyResourceChange p ar)
        = Some [ordering_violation ''ApplyResourceChange'' (ARCq_TypeName ar)]"
    and "IRSs_Diagnostics (fst (ImportResourceState ext p ir))
        = [ordering_violation ''ImportResourceState'' (IRSq_TypeName ir)]"
    and "RDSs_Diagnostics (fst (ReadDataSource p dr))
        = [ordering_violation ''ReadDataSource'' (RDSq_TypeName dr)]"
    and "PAs_Diagnostics (fst (PlanAction p pa))
        = [ordering_violation ''PlanAction'' (PAq_TypeName pa)]"
    and "AAs_Diagnostics (fst (ApplyAction p aa))
        = [ordering_violation ''ApplyAction'' (AAq_TypeName aa)]"
    by (rule gate_ReadResource gate_PlanResourceChange gate_ApplyResourceChange
          gate_ImportResourceState gate_ReadDataSource gate_PlanAction gate_ApplyAction)+
next
  show "ConfigureProviderCalled (snd (ConfigureProvider p cr))"
    by (rule ConfigureProvider_sets_flag)
qed (erule (2) open_ReadResource open_PlanResourceChange open_ApplyResourceChange
       open_ImportResourceState
   | erule (1) open_ReadDataSource open_PlanAction open_ApplyAction)+

theorem ordering_gate_witness:
  "\<not> ConfigureProviderCalled new_MockProvider
   \<and> RRs_Diagnostics (fst (ReadResource sample_externals new_MockProvider
         \<lparr>RRq_TypeName = ''test_instance'', RRq_PriorState = NullVal (CtyObject []), RRq_Private = []\<rparr>))
       = [NativeError (Errorf ''Configure not called before ReadResource %q'' [''test_instance''])]
   \<and> map_option (PRCs_Diagnostics \<circ> fst) (PlanResourceChange new_MockProvider
         \<lparr>PRCq_TypeName = ''test_instance'', PRCq_PriorState = NullVal (CtyObject []),
          PRCq_ProposedNewState = ObjectV [], PRCq_Config = ObjectV [], PRCq_PriorPrivate = []\<rparr>)
       = Some [NativeError (Errorf ''Configure not called before PlanResourceChange %q'' [''test_instance''])]
   \<and> map_option (ARCs_Diagnostics \<circ> fst) (ApplyResourceChange new_MockProvider
         \<lparr>ARCq_TypeName = ''test_instance'', ARCq_PriorState = NullVal (CtyObject []),
          ARCq_PlannedState = ObjectV [], ARCq_Config = ObjectV [], ARCq_PlannedPrivate = []\<rparr>)
       = Some [NativeError (Errorf ''Configure not called before ApplyResourceChange %q'' [''test_instance''])]
   \<and> IRSs_Diagnostics (fst (ImportResourceState sample_externals new_MockProvider
         \<lparr>IRSq_TypeName = ''test_instance'', IRSq_ID = ''id''\<rparr>))
       = [NativeError (Errorf ''Configure not called before ImportResourceState %q'' [''test_instance''])]
   \<and> RDSs_Diagnostics (fst (ReadDataSource new_MockProvider
         \<lparr>RDSq_TypeName = ''test_data'', RDSq_Config = ObjectV []\<rparr>))
       = [NativeError (Errorf ''Configure not called before ReadDataSource %q'' [''test_data''])]
   \<and> PAs_Diagnostics (fst (PlanAction new_MockProvider
         \<lparr>PAq_TypeName = ''test_action'', PAq_ProposedActionData = ObjectV []\<rparr>))
       = [NativeError (Errorf ''Configure not called before PlanAction %q'' [''test_action''])]
   \<and> AAs_Diagnostics (fst (ApplyAction new_MockProvider
         \<lparr>AAq_TypeName = ''test_action'', AAq_PlannedActionData = ObjectV []\<rparr>))
       = [NativeError (Errorf ''Configure not called before ApplyAction %q'' [''test_action''])]
   \<and> ConfigureProviderCalled configured_MockProvider
   \<and> \<not> (\<exists>d \<in> set (RRs_Diagnostics (fst (ReadResource sample_externals configured_MockProvider
         \<lparr>RRq_TypeName = ''test_instance'', RRq_PriorState = NullVal (CtyObject []), RRq_Private = []\<rparr>))).
          is_ordering_violation d)
   \<and> \<not> (\<exists>d \<in> set (diagnostics_of PRCs_Diagnostics (PlanResourceChange configured_MockProvider
         \<lparr>PRCq_TypeName = ''test_instance'', PRCq_PriorState = NullVal (CtyObject []),
          PRCq_ProposedNewState = ObjectV [], PRCq_Config = ObjectV [], PRCq_PriorPrivate = []\<rparr>)).
          is_ordering_violation d)
   \<and> \<not> (\<exists>d \<in> set (diagnostics_of ARCs_Diagnostics (ApplyResourceChange configured_MockProvider
         \<lparr>ARCq_TypeName = ''test_instance'', ARCq_PriorState = NullVal (CtyObject []),
          ARCq_PlannedState = ObjectV [], ARCq_Config = ObjectV [], ARCq_PlannedPrivate = []\<rparr>)).
          is_ordering_violation d)
   \<and> \<not> (\<exists>d \<in> set (IRSs_Diagnostics (fst (ImportResourceState sample_externals configured_MockProvider
         \<lparr>IRSq_TypeName = ''test_instance'', IRSq_ID = ''id''\<rparr>))). is_ordering_violation d)
   \<and> \<not> (\<exists>d \<in> set (RDSs_Diagnostics (fst (ReadDataSource configured_MockProvider
         \<lparr>RDSq_TypeName = ''test_data'', RDSq_Config = ObjectV []\<rparr>))). is_ordering_violation d)
   \<and> \<not> (\<exists>d \<in> set (PAs_Diagnostics (fst (PlanAction configured_MockProvider
         \<lparr>PAq_TypeName = ''test_action'', PAq_ProposedActionData = ObjectV []\<rparr>))). is_ordering_violation d)
   \<and> \<not> (\<exists>d \<in> set (AAs_Diagnostics (fst (ApplyAction configured_MockProvider
         \<lparr>AAq_TypeName = ''test_action'', AAq_PlannedActionData = ObjectV []\<rparr>))). is_ordering_violation d)"
proof -
  have unconfigured: "\<not> ConfigureProviderCalled new_MockProvider"
    by (simp add: new_MockProvider_def)
  have fns: "ReadResourceFn configured_MockProvider = None"
      "ReadResourceResponse configured_MockProvider = None"
      "PlanResourceChangeFn configured_MockProvider = None"
      "PlanResourceChangeResponse configured_MockProvider = None"
      "ApplyResourceChangeFn configured_MockProvider = None"
      "ApplyResourceChangeResponse configured_MockProvider = None"
      "ImportResourceStateFn configured_MockProvider = None"
      "ImportResourceStateResponse configured_MockProvider = None"
      "ReadDataSourceFn configured_MockProvider = None"
      "ReadDataSourceResponse configured_MockProvider = None"
      "PlanActionFn configured_MockProvider = None"
      "PlanActionResponse configured_MockProvider = None"
      "ApplyActionFn configured_MockProvider = None"
      "ApplyActionResponse configured_MockProvider = None"
    by (simp_all add: configured_MockProvider_def ConfigureProvider_def new_MockProvider_def)
  show ?thesis
    using unconfigured configured_flag
      ordering_gate [of new_MockProvider sample_externals
        "\<lparr>RRq_TypeName = ''test_instance'', RRq_PriorState = NullVal (CtyObject []), RRq_Private = []\<rparr>"
        "\<lparr>PRCq_TypeName = ''test_instance'', PRCq_PriorState = NullVal (CtyObject []),
          PRCq_ProposedNewState = ObjectV [], PRCq_Config = ObjectV [], PRCq_PriorPrivate = []\<rparr>"
        "\<lparr>ARCq_TypeName = ''test_instance'', ARCq_PriorState = NullVal (CtyObject []),
          ARCq_PlannedState = ObjectV [], ARCq_Config = ObjectV [], ARCq_PlannedPrivate = []\<rparr>"
        "\<lparr>IRSq_TypeName = ''test_instance'', IRSq_ID = ''id''\<rparr>"
        "\<lparr>RDSq_TypeName = ''test_data'', RDSq_Config = ObjectV []\<rparr>"
        "\<lparr>PAq_TypeName = ''test_action'', PAq_ProposedActionData = ObjectV []\<rparr>"
        "\<lparr>AAq_TypeName = ''test_action'', AAq_PlannedActionData = ObjectV []\<rparr>"]
      ordering_gate [of configured_MockProvider sample_externals
        "\<lparr>RRq_TypeName = ''test_instance'', RRq_PriorState = NullVal (CtyObject []), RRq_Private = []\<rparr>"
        "\<lparr>PRCq_TypeName = ''test_instance'', PRCq_PriorState = NullVal (CtyObject []),
          PRCq_ProposedNewState = ObjectV [], PRCq_Config = ObjectV [], PRCq_PriorPrivate = []\<rparr>"
        "\<lparr>ARCq_TypeName = ''test_instance'', ARCq_PriorState = NullVal (CtyObject []),
          ARCq_PlannedState = ObjectV [], ARCq_Config = ObjectV [], ARCq_PlannedPrivate = []\<rparr>"
        "\<lparr>IRSq_TypeName = ''test_instance'', IRSq_ID = ''id''\<rparr>"
        "\<lparr>RDSq_TypeName = ''test_data'', RDSq_Config = ObjectV []\<rparr>"
        "\<lparr>PAq_TypeName = ''test_action'', PAq_ProposedActionData = ObjectV []\<rparr>"
        "\<lparr>AAq_TypeName = ''test_action'', AAq_PlannedActionData = ObjectV []\<rparr>"]
    by (simp add: ordering_violation_def fns supplied_def)
qed

text \<open>
  C2 (as the code has it). \<^verbatim>\<open>UpgradeResourceState\<close> stands behind the gate: before
  \<^verbatim>\<open>ConfigureProvider\<close> it returns the ordering violation alone and records nothing.
  The responses of \<^verbatim>\<open>ValidateProviderConfig\<close>, \<^verbatim>\<open>ValidateResourceConfig\<close>,
  \<^verbatim>\<open>GetProviderSchema\<close>, \<^verbatim>\<open>CallFunction\<close> and \<^verbatim>\<open>Stop\<close> do not depend on the flag.
\<close>

theorem UpgradeResourceState_gated:
  "(\<not> ConfigureProviderCalled p \<longrightarrow>
      UpgradeResourceState ext p r =
        Some (\<lparr>URSs_UpgradedState = NilVal,
          URSs_Diagnostics = [ordering_violation ''UpgradeResourceState'' (URSq_TypeName r)]\<rparr>, p))
   \<and> fst (ValidateProviderConfig (p\<lparr>ConfigureProviderCalled := b\<rparr>) vp) = fst (ValidateProviderConfig p vp)
   \<and> fst (ValidateResourceConfig ext (p\<lparr>ConfigureProviderCalled := b\<rparr>) vr)
       = fst (ValidateResourceConfig ext p vr)
   \<and> fst (GetProviderSchema (p\<lparr>ConfigureProviderCalled := b\<rparr>)) = fst (GetProviderSchema p)
   \<and> fst (CallFunction (p\<lparr>ConfigureProviderCalled := b\<rparr>) cf) = fst (CallFunction p cf)
   \<and> fst (Stop (p\<lparr>ConfigureProviderCalled := b\<rparr>)) = fst (Stop p)"
proof (intro conjI impI)
  assume "\<not> ConfigureProviderCalled p"
  then show "UpgradeResourceState ext p r =
        Some (\<lparr>URSs_UpgradedState = NilVal,
          URSs_Diagnostics = [ordering_violation ''UpgradeResourceState'' (URSq_TypeName r)]\<rparr>, p)"
    by (simp add: UpgradeResourceState_def ordering_violation_def Append_def)
next
  show "fst (ValidateProviderConfig (p\<lparr>ConfigureProviderCalled := b\<rparr>) vp) = fst (ValidateProviderConfig p vp)"
    by (simp add: ValidateProviderConfig_def Let_def split: option.splits)
next
  show "fst (ValidateResourceConfig ext (p\<lparr>ConfigureProviderCalled := b\<rparr>) vr)
       = fst (ValidateResourceConfig ext p vr)"
    by (simp add: ValidateResourceConfig_def getProviderSchema_def Let_def split: option.splits)
next
  show "fst (GetProviderSchema (p\<lparr>ConfigureProviderCalled := b\<rparr>)) = fst (GetProviderSchema p)"
    by (simp add: GetProviderSchema_def getProviderSchema_def Let_def)
next
  show "fst (CallFunction (p\<lparr>ConfigureProviderCalled := b\<rparr>) cf) = fst (CallFunction p cf)"
    by (simp add: CallFunction_def Let_def split: option.splits)
next
  show "fst (Stop (p\<lparr>ConfigureProviderCalled := b\<rparr>)) = fst (Stop p)"
    by (simp add: Stop_def Let_def split: option.splits)
qed

theorem UpgradeResourceState_gated_witness:
  "\<not> ConfigureProviderCalled new_MockProvider
   \<and> UpgradeResourceState sample_externals new_MockProvider
        \<lparr>URSq_TypeName = ''test_instance'', URSq_Version = 0, URSq_RawStateJSON = [],
         URSq_RawStateFlatmap = Some [(''id'', ''foo'')]\<rparr>
      = Some (\<lparr>URSs_UpgradedState = NilVal,
          URSs_Diagnostics =
            [NativeError (Errorf ''Configure not called before UpgradeResourceState %q'' [''test_instance''])]\<rparr>,
         new_MockProvider)
   \<and> VRCs_Diagnostics (fst (ValidateResourceConfig sample_externals new_MockProvider
        \<lparr>VRCq_TypeName = ''test_instance'', VRCq_Config = ObjectV []\<rparr>))
      = [NativeError (Errorf ''no schema found for %q'' [''test_instance''])]"
  using UpgradeResourceState_gated [of new_MockProvider sample_externals
      "\<lparr>URSq_TypeName = ''test_instance'', URSq_Version = 0, URSq_RawStateJSON = [],
        URSq_RawStateFlatmap = Some [(''id'', ''foo'')]\<rparr>"
      False "\<lparr>VPCq_Config = ObjectV []\<rparr>"
      "\<lparr>VRCq_TypeName = ''test_instance'', VRCq_Config = ObjectV []\<rparr>"
      "\<lparr>CFq_FunctionName = ''f'', CFq_Arguments = []\<rparr>"]
  by (simp add: new_MockProvider_def ordering_violation_def ValidateResourceConfig_def
        getProviderSchema_def Append_def)

theorem UpgradeResourceState_exempt_counterexample:
  "\<not> ConfigureProviderCalled new_MockProvider
   \<and> map_option (URSs_Diagnostics \<circ> fst) (UpgradeResourceState sample_externals new_MockProvider
        \<lparr>URSq_TypeName = ''test_instance'', URSq_Version = 0, URSq_RawStateJSON = [],
         URSq_RawStateFlatmap = Some [(''id'', ''foo'')]\<rparr>)
      = Some [NativeError (Errorf ''Configure not called before UpgradeResourceState %q'' [''test_instance''])]
   \<and> is_ordering_violation
        (NativeError (Errorf ''Configure not called before UpgradeResourceState %q'' [''test_instance'']))"
  by (simp add: new_MockProvider_def UpgradeResourceState_def Append_def HasPrefix_def)

text \<open>
  C3 (as the code has it). On a provider that has been configured and has neither an
  override function nor a canned response for \<^verbatim>\<open>PlanResourceChange\<close>, a request whose
  proposed new state is null is answered with that null state as the planned state and
  the prior private bytes as the planned private bytes.
\<close>

theorem destroy_plan_identity:
  assumes "ConfigureProviderCalled p"
    and "PlanResourceChangeFn p = None"
    and "PlanResourceChangeResponse p = None"
    and "IsNull (PRCq_ProposedNewState r)"
  shows "map_option (PRCs_PlannedState \<circ> fst) (PlanResourceChange p r) = Some (PRCq_ProposedNewState r)
       \<and> map_option (PRCs_PlannedPrivate \<circ> fst) (PlanResourceChange p r) = Some (PRCq_PriorPrivate r)"
  using assms by (simp add: PlanResourceChange_def Let_def)

theorem destroy_plan_identity_witness:
  "ConfigureProviderCalled configured_MockProvider
   \<and> PlanResourceChangeFn configured_MockProvider = None
   \<and> PlanResourceChangeResponse configured_MockProvider = None
   \<and> IsNull (NullVal (CtyObject [(''id'', CtyString)]))
   \<and> map_option (PRCs_PlannedState \<circ> fst) (PlanResourceChange configured_MockProvider
          \<lparr>PRCq_TypeName = ''test_instance'', PRCq_PriorState = ObjectV [(''id'', StringVal ''a'')],
           PRCq_ProposedNewState = NullVal (CtyObject [(''id'', CtyString)]),
           PRCq_Config = NullVal (CtyObject [(''id'', CtyString)]),
           PRCq_PriorPrivate = [97, 98, 99]\<rparr>)
        = Some (NullVal (CtyObject [(''id'', CtyString)]))
   \<and> map_option (PRCs_PlannedPrivate \<circ> fst) (PlanResourceChange configured_MockProvider
          \<lparr>PRCq_TypeName = ''test_instance'', PRCq_PriorState = ObjectV [(''id'', StringVal ''a'')],
           PRCq_ProposedNewState = NullVal (CtyObject [(''id'', CtyString)]),
           PRCq_Config = NullVal (CtyObject [(''id'', CtyString)]),
           PRCq_PriorPrivate = [97, 98, 99]\<rparr>)
        = Some [97, 98, 99]"
proof -
  have a: "ConfigureProviderCalled configured_MockProvider"
    by (rule configured_flag)
  have b: "PlanResourceChangeFn configured_MockProvider = None"
    and c: "PlanResourceChangeResponse configured_MockProvider = None"
    by (simp_all add: configured_MockProvider_def ConfigureProvider_def new_MockProvider_def)
  have d: "IsNull (PRCq_ProposedNewState
          \<lparr>PRCq_TypeName = ''test_instance'', PRCq_PriorState = ObjectV [(''id'', StringVal ''a'')],
           PRCq_ProposedNewState = NullVal (CtyObject [(''id'', CtyString)]),
           PRCq_Config = NullVal (CtyObject [(''id'', CtyString)]),
           PRCq_PriorPrivate = [97, 98, 99]\<rparr>)"
    by simp
  show ?thesis
    using a b c destroy_plan_identity [OF a b c d] by simp
qed

theorem destroy_plan_unconditional_counterexample:
  "IsNull (NullVal (CtyObject [(''id'', CtyString)]))
   \<and> PlanResourceChange new_MockProvider
        \<lparr>PRCq_TypeName = ''test_instance'', PRCq_PriorState = ObjectV [(''id'', StringVal ''a'')],
         PRCq_ProposedNewState = NullVal (CtyObject [(''id'', CtyString)]),
         PRCq_Config = NullVal (CtyObject [(''id'', CtyString)]),
         PRCq_PriorPrivate = [97, 98, 99]\<rparr>
      = Some (\<lparr>PRCs_PlannedState = NilVal, PRCs_RequiresReplace = [], PRCs_PlannedPrivate = [],
               PRCs_Diagnostics =
                 [NativeError (Errorf ''Configure not called before PlanResourceChange %q'' [''test_instance''])]\<rparr>,
              new_MockProvider)
   \<and> ([] :: bytes) \<noteq> [97, 98, 99]"
  by (simp add: new_MockProvider_def PlanResourceChange_def Append_def)


text \<open>
  C9. A destroy plan needs no schema. On a configured provider without an override
  function or a canned response, a request with a null proposed new state is answered
  with the null plan and no diagnostic, whatever schemas are registered; and when the
  answer to any request holds the diagnostic that no schema was found, the proposed new
  state of that request is not null and its type name has no schema.
\<close>

theorem destroy_plan_needs_no_schema:
  assumes "ConfigureProviderCalled p"
    and "PlanResourceChangeFn p = None"
    and "PlanResourceChangeResponse p = None"
  shows "(IsNull (PRCq_ProposedNewState r) \<longrightarrow>
            PlanResourceChange p r =
              Some (\<lparr>PRCs_PlannedState = PRCq_ProposedNewState r, PRCs_RequiresReplace = [],
                     PRCs_PlannedPrivate = PRCq_PriorPrivate r, PRCs_Diagnostics = []\<rparr>,
                    p\<lparr>PlanResourceChangeCalled := True, PlanResourceChangeRequest := r\<rparr>))
       \<and> (NativeError (Errorf ''no schema found for %q'' [PRCq_TypeName r])
             \<in> set (diagnostics_of PRCs_Diagnostics (PlanResourceChange p r)) \<longrightarrow>
            \<not> IsNull (PRCq_ProposedNewState r)
            \<and> ResourceTypes (getProviderSchema p) (PRCq_TypeName r) = None)"
proof (intro conjI impI)
  assume "IsNull (PRCq_ProposedNewState r)"
  with assms show "PlanResourceChange p r =
              Some (\<lparr>PRCs_PlannedState = PRCq_ProposedNewState r, PRCs_RequiresReplace = [],
                     PRCs_PlannedPrivate = PRCq_PriorPrivate r, PRCs_Diagnostics = []\<rparr>,
                    p\<lparr>PlanResourceChangeCalled := True, PlanResourceChangeRequest := r\<rparr>)"
    by (simp add: PlanResourceChange_def Let_def)
next
  assume d: "NativeError (Errorf ''no schema found for %q'' [PRCq_TypeName r])
             \<in> set (diagnostics_of PRCs_Diagnostics (PlanResourceChange p r))"
  have nf: "Transform v (PlanResourceChange_callback schema r) \<noteq> Failed e" for v schema e
    unfolding Transform_def
    by (rule transform_no_Failed(1)) (rule PlanResourceChange_callback_no_Failed)
  from d assms show "\<not> IsNull (PRCq_ProposedNewState r)"
    by (auto simp: PlanResourceChange_def diagnostics_of_def Let_def)
  from d assms nf show "ResourceTypes (getProviderSchema p) (PRCq_TypeName r) = None"
    by (auto simp: PlanResourceChange_def diagnostics_of_def Let_def getProviderSchema_def
             split: if_splits option.splits outcome.splits)
qed

theorem destroy_plan_needs_no_schema_witness:
  "ConfigureProviderCalled configured_MockProvider
   \<and> PlanResourceChangeFn configured_MockProvider = None
   \<and> PlanResourceChangeResponse configured_MockProvider = None
   \<and> ResourceTypes (getProviderSchema configured_MockProvider) ''unknown_type'' = None
   \<and> map_option fst (PlanResourceChange configured_MockProvider
        \<lparr>PRCq_TypeName = ''unknown_type'', PRCq_PriorState = ObjectV [(''id'', StringVal ''a'')],
         PRCq_ProposedNewState = NullVal (CtyObject [(''id'', CtyString)]),
         PRCq_Config = NullVal (CtyObject [(''id'', CtyString)]),
         PRCq_PriorPrivate = [97, 98, 99]\<rparr>)
      = Some \<lparr>PRCs_PlannedState = NullVal (CtyObject [(''id'', CtyString)]), PRCs_RequiresReplace = [],
               PRCs_PlannedPrivate = [97, 98, 99], PRCs_Diagnostics = []\<rparr>
   \<and> NativeError (Errorf ''no schema found for %q'' [''unknown_type''])
        \<in> set (diagnostics_of PRCs_Diagnostics (PlanResourceChange configured_MockProvider
            \<lparr>PRCq_TypeName = ''unknown_type'', PRCq_PriorState = NullVal (CtyObject [(''id'', CtyString)]),
             PRCq_ProposedNewState = ObjectV [(''id'', StringVal ''a'')],
             PRCq_Config = ObjectV [(''id'', StringVal ''a'')],
             PRCq_PriorPrivate = []\<rparr>))
   \<and> \<not> IsNull (ObjectV [(''id'', StringVal ''a'')])"
proof -
  have a: "ConfigureProviderCalled configured_MockProvider"
    by (rule configured_flag)
  have b: "PlanResourceChangeFn configured_MockProvider = None"
    and c: "PlanResourceChangeResponse configured_MockProvider = None"
    and e: "ResourceTypes (getProviderSchema configured_MockProvider) ''unknown_type'' = None"
    by (simp_all add: configured_MockProvider_def ConfigureProvider_def new_MockProvider_def
          getProviderSchema_def)
  have f: "NativeError (Errorf ''no schema found for %q'' [''unknown_type''])
        \<in> set (diagnostics_of PRCs_Diagnostics (PlanResourceChange configured_MockProvider
            \<lparr>PRCq_TypeName = ''unknown_type'', PRCq_PriorState = NullVal (CtyObject [(''id'', CtyString)]),
             PRCq_ProposedNewState = ObjectV [(''id'', StringVal ''a'')],
             PRCq_Config = ObjectV [(''id'', StringVal ''a'')],
             PRCq_PriorPrivate = []\<rparr>))"
    by (simp add: PlanResourceChange_def diagnostics_of_def Append_def configured_MockProvider_def
          ConfigureProvider_def new_MockProvider_def getProviderSchema_def)
  show ?thesis
    using a b c e f
      destroy_plan_needs_no_schema [OF a b c, of
        "\<lparr>PRCq_TypeName = ''unknown_type'', PRCq_PriorState = ObjectV [(''id'', StringVal ''a'')],
         PRCq_ProposedNewState = NullVal (CtyObject [(''id'', CtyString)]),
         PRCq_Config = NullVal (CtyObject [(''id'', CtyString)]),
         PRCq_PriorPrivate = [97, 98, 99]\<rparr>"]
      destroy_plan_needs_no_schema [OF a b c, of
        "\<lparr>PRCq_TypeName = ''unknown_type'', PRCq_PriorState = NullVal (CtyObject [(''id'', CtyString)]),
             PRCq_ProposedNewState = ObjectV [(''id'', StringVal ''a'')],
             PRCq_Config = ObjectV [(''id'', StringVal ''a'')],
             PRCq_PriorPrivate = []\<rparr>"]
    by simp
qed

text \<open>
  C10. The built-in default of \<^verbatim>\<open>ReadResource\<close> is an identity refresh. On a
  configured provider without an override function or a canned response, the new state
  is the prior state of the request, the private bytes are those of the request, and
  there is no diagnostic, whatever the coercion and the schemas are. When a canned
  response is installed and the type has a schema, the new state is the coercion of the
  canned one to the schema's block.
\<close>

theorem read_default_is_identity:
  assumes "ConfigureProviderCalled p" and "ReadResourceFn p = None"
  shows "(ReadResourceResponse p = None \<longrightarrow>
            fst (ReadResource ext p r) =
              \<lparr>RRs_NewState = RRq_PriorState r, RRs_Diagnostics = [], RRs_Private = RRq_Private r\<rparr>)
       \<and> (\<forall>canned schema.
            ReadResourceResponse p = Some canned \<longrightarrow>
            ResourceTypes (getProviderSchema p) (RRq_TypeName r) = Some schema \<longrightarrow>
            RRs_NewState (fst (ReadResource ext p r))
              = fst (CoerceValue ext (Block schema) (RRs_NewState canned)))"
  using assms
  by (auto simp: ReadResource_def Let_def getProviderSchema_def split: option.splits prod.splits)

theorem read_default_is_identity_witness:
  "ConfigureProviderCalled configured_MockProvider
   \<and> ReadResourceFn configured_MockProvider = None
   \<and> ReadResourceResponse configured_MockProvider = None
   \<and> fst (ReadResource sample_externals configured_MockProvider
        \<lparr>RRq_TypeName = ''test_instance'', RRq_PriorState = ObjectV [(''id'', StringVal ''a'')],
         RRq_Private = [1, 2]\<rparr>)
      = \<lparr>RRs_NewState = ObjectV [(''id'', StringVal ''a'')], RRs_Diagnostics = [], RRs_Private = [1, 2]\<rparr>"
proof -
  have a: "ConfigureProviderCalled configured_MockProvider"
    by (rule configured_flag)
  have b: "ReadResourceFn configured_MockProvider = None"
    and c: "ReadResourceResponse configured_MockProvider = None"
    by (simp_all add: configured_MockProvider_def ConfigureProvider_def new_MockProvider_def)
  show ?thesis
    using a b c
      read_default_is_identity [OF a b, of sample_externals
        "\<lparr>RRq_TypeName = ''test_instance'', RRq_PriorState = ObjectV [(''id'', StringVal ''a'')],
         RRq_Private = [1, 2]\<rparr>"]
    by simp
qed

text \<open>
  C6. \<^verbatim>\<open>ValidateResourceConfig\<close> always returns a response. For a type name without
  a registered resource schema its diagnostics are the one error that no schema was
  found. For a type name with a schema the configuration is encoded against the implied
  type of the schema's block, and an encoding error is the one diagnostic of the
  response; without an encoding error the response is the override function's, the
  canned one, or empty.
\<close>

theorem validate_resource_config:
  "(ResourceTypes (getProviderSchema p) (VRCq_TypeName r) = None \<longrightarrow>
      VRCs_Diagnostics (fst (ValidateResourceConfig ext p r))
        = [NativeError (Errorf ''no schema found for %q'' [VRCq_TypeName r])]
      \<and> length (errors_of (VRCs_Diagnostics (fst (ValidateResourceConfig ext p r)))) = 1)
   \<and> (\<forall>schema. ResourceTypes (getProviderSchema p) (VRCq_TypeName r) = Some schema \<longrightarrow>
        (case Marshal ext (VRCq_Config r) (ImpliedType (Block schema)) of
           Some err \<Rightarrow>
             VRCs_Diagnostics (fst (ValidateResourceConfig ext p r)) = [NativeError (LibraryError err)]
         | None \<Rightarrow>
             fst (ValidateResourceConfig ext p r) =
               (case ValidateResourceConfigFn p of
                  Some f \<Rightarrow> f r
                | None \<Rightarrow>
                    (case ValidateResourceConfigResponse p of
                       Some canned \<Rightarrow> canned
                     | None \<Rightarrow> \<lparr>VRCs_Diagnostics = []\<rparr>))))"
  by (auto simp: ValidateResourceConfig_def getProviderSchema_def Let_def Append_def errors_of_def
           split: option.splits)


theorem validate_resource_config_witness:
  "ResourceTypes (getProviderSchema test_provider) ''unknown_type'' = None
   \<and> VRCs_Diagnostics (fst (ValidateResourceConfig sample_externals test_provider
        \<lparr>VRCq_TypeName = ''unknown_type'', VRCq_Config = ObjectV []\<rparr>))
      = [NativeError (Errorf ''no schema found for %q'' [''unknown_type''])]
   \<and> ResourceTypes (getProviderSchema test_provider) ''test_instance'' = Some test_schema
   \<and> ImpliedType (Block test_schema) = CtyObject [(''id'', CtyString), (''name'', CtyString)]
   \<and> VRCs_Diagnostics (fst (ValidateResourceConfig sample_externals test_provider
        \<lparr>VRCq_TypeName = ''test_instance'', VRCq_Config = ObjectV [(''id'', BoolVal True)]\<rparr>))
      = [NativeError (LibraryError ''wrong type'')]
   \<and> VRCs_Diagnostics (fst (ValidateResourceConfig sample_externals test_provider
        \<lparr>VRCq_TypeName = ''test_instance'',
         VRCq_Config = ObjectV [(''id'', NullVal CtyString), (''name'', StringVal ''x'')]\<rparr>))
      = []"
proof -
  have a: "ResourceTypes (getProviderSchema test_provider) ''unknown_type'' = None"
    and b: "ResourceTypes (getProviderSchema test_provider) ''test_instance'' = Some test_schema"
    by (simp_all add: test_provider_def getProviderSchema_def new_MockProvider_def)
  have c: "ImpliedType (Block test_schema) = CtyObject [(''id'', CtyString), (''name'', CtyString)]"
    by (simp add: test_schema_def)
  have d: "ValidateResourceConfigFn test_provider = None"
    "ValidateResourceConfigResponse test_provider = None"
    by (simp_all add: test_provider_def new_MockProvider_def)
  show ?thesis
    using a b c d
      validate_resource_config [of test_provider
        "\<lparr>VRCq_TypeName = ''unknown_type'', VRCq_Config = ObjectV []\<rparr>" sample_externals]
      validate_resource_config [of test_provider
        "\<lparr>VRCq_TypeName = ''test_instance'', VRCq_Config = ObjectV [(''id'', BoolVal True)]\<rparr>"
        sample_externals]
      validate_resource_config [of test_provider
        "\<lparr>VRCq_TypeName = ''test_instance'',
         VRCq_Config = ObjectV [(''id'', NullVal CtyString), (''name'', StringVal ''x'')]\<rparr>"
        sample_externals]
    by (simp add: sample_externals_def)
qed

section \<open>The default apply\<close>

lemma unify_same:
  "\<forall>y \<in> set ys. Type y = t \<Longrightarrow> unify_element_type t ys = Some t"
  by (induction ys) auto

lemma unify_all_same:
  "ys \<noteq> [] \<Longrightarrow> \<forall>y \<in> set ys. Type y = t \<Longrightarrow> unify_element_type DynamicPseudoType ys = Some t"
  by (cases ys) (auto simp: unify_same)

lemma ListVal_same:
  "ys \<noteq> [] \<Longrightarrow> \<forall>y \<in> set ys. Type y = t \<Longrightarrow> ListVal ys = Some (ListV t ys)"
  using unify_all_same [of ys t] by (simp add: ListVal_def)

lemma MapVal_same:
  "kvs \<noteq> [] \<Longrightarrow> \<forall>kv \<in> set kvs. Type (snd kv) = t \<Longrightarrow> MapVal kvs = Some (MapV t kvs)"
  using unify_all_same [of "map snd kvs" t] by (simp add: MapVal_def)

lemma SetVal_same:
  "ys \<noteq> [] \<Longrightarrow> \<forall>y \<in> set ys. Type y = t \<Longrightarrow> SetVal ys = Some (SetV t (foldl set_insert [] ys))"
  using unify_all_same [of ys t] by (simp add: SetVal_def)

lemma has_unknown_list_iff: "has_unknown_list xs = (\<exists>x \<in> set xs. has_unknown x)"
  by (induction xs) auto

lemma has_unknown_fields_iff: "has_unknown_fields kvs = (\<exists>kv \<in> set kvs. has_unknown (snd kv))"
  by (induction kvs) auto

lemma set_foldl_set_insert: "set (foldl set_insert acc xs) = set acc \<union> set xs"
  by (induction xs arbitrary: acc) (auto simp: set_insert_def)


lemma well_formed_elems_iff:
  "well_formed_elems t xs = (\<forall>x \<in> set xs. well_formed x \<and> Type x = t)"
  by (induction xs) auto

lemma well_formed_entries_iff:
  "well_formed_entries t kvs = (\<forall>kv \<in> set kvs. well_formed (snd kv) \<and> Type (snd kv) = t)"
  by (induction kvs) auto

lemma well_formed_items_iff: "well_formed_items xs = (\<forall>x \<in> set xs. well_formed x)"
  by (induction xs) auto

lemma well_formed_attrs_iff: "well_formed_attrs avs = (\<forall>av \<in> set avs. well_formed (snd av))"
  by (induction avs) auto

lemma types_carried:
  "map Type ys = map Type xs \<Longrightarrow> \<forall>x \<in> set xs. Type x = t \<Longrightarrow> \<forall>y \<in> set ys. Type y = t"
proof
  fix y assume eq: "map Type ys = map Type xs" and all: "\<forall>x \<in> set xs. Type x = t" and "y \<in> set ys"
  then have "Type y \<in> set (map Type xs)"
    by (metis image_eqI list.set_map)
  with all show "Type y = t" by auto
qed

lemma field_types_carried:
  "map (\<lambda>kv. Type (snd kv)) ys = map (\<lambda>kv. Type (snd kv)) kvs \<Longrightarrow> \<forall>kv \<in> set kvs. Type (snd kv) = t \<Longrightarrow>
     \<forall>kv \<in> set ys. Type (snd kv) = t"
proof
  fix kv assume eq: "map (\<lambda>kv. Type (snd kv)) ys = map (\<lambda>kv. Type (snd kv)) kvs"
    and all: "\<forall>kv \<in> set kvs. Type (snd kv) = t" and "kv \<in> set ys"
  then have "Type (snd kv) \<in> set (map (\<lambda>kv. Type (snd kv)) kvs)"
    by (metis image_eqI list.set_map)
  with all show "Type (snd kv) = t" by auto
qed

lemma attribute_types_split:
  "map (\<lambda>(n, v). (n, Type v)) avs = zip (map fst avs) (map (\<lambda>kv. Type (snd kv)) avs)"
  by (induction avs) auto

text \<open>
  A callback that answers a known value with the value itself and an unknown value with
  a value of the same type that has no unknown inside.
\<close>

lemma transform_zeroing:
  assumes known: "\<And>path v. IsKnown v \<Longrightarrow> cb path v = Done v"
    and unknown: "\<And>path v. \<not> IsKnown v \<Longrightarrow>
                    \<exists>v'. cb path v = Done v' \<and> Type v' = Type v \<and> \<not> has_unknown v'"
  shows "well_formed v \<Longrightarrow>
           \<exists>v'. transform cb path v = Done v' \<and> Type v' = Type v \<and> \<not> has_unknown v'"
    and "well_formed_items xs \<Longrightarrow>
           (\<exists>ys. transform_elems cb path i xs = Done ys \<and> map Type ys = map Type xs
                \<and> \<not> has_unknown_list ys)
         \<and> (\<exists>ys. transform_set_elems cb path xs = Done ys \<and> map Type ys = map Type xs
                \<and> \<not> has_unknown_list ys)"
    and "well_formed_attrs kvs \<Longrightarrow>
           (\<exists>ys. transform_map_elems cb path kvs = Done ys \<and> map fst ys = map fst kvs
                \<and> map (\<lambda>kv. Type (snd kv)) ys = map (\<lambda>kv. Type (snd kv)) kvs \<and> \<not> has_unknown_fields ys)
         \<and> (\<exists>ys. transform_attrs cb path kvs = Done ys \<and> map fst ys = map fst kvs
                \<and> map (\<lambda>kv. Type (snd kv)) ys = map (\<lambda>kv. Type (snd kv)) kvs \<and> \<not> has_unknown_fields ys)"
proof (induction v and xs and kvs arbitrary: path and path i and path
       rule: has_unknown_has_unknown_list_has_unknown_fields.induct)
  case 1
  then show ?case by simp
next
  case (2 t)
  then show ?case by (simp add: known)
next
  case (3 t)
  then show ?case using unknown [of "UnknownVal t" path] by simp
next
  case (4 s)
  then show ?case by (simp add: known)
next
  case (5 n)
  then show ?case by (simp add: known)
next
  case (6 b)
  then show ?case by (simp add: known)
next
  case (7 t xs)
  show ?case
  proof (cases "xs = []")
    case True
    then show ?thesis by (simp add: known)
  next
    case False
    from "7.prems" have items: "well_formed_items xs" and ty: "\<forall>x \<in> set xs. Type x = t"
      by (simp_all add: well_formed_elems_iff well_formed_items_iff)
    from "7.IH" [OF items, of path 0] obtain ys
      where ys: "transform_elems cb path 0 xs = Done ys" "map Type ys = map Type xs"
        "\<not> has_unknown_list ys"
      by blast
    from ys(2) False have "ys \<noteq> []" by auto
    moreover from ys(2) ty have "\<forall>y \<in> set ys. Type y = t" by (rule types_carried)
    ultimately have "ListVal ys = Some (ListV t ys)" by (rule ListVal_same)
    with False ys show ?thesis by (simp add: rebuilt_def known)
  qed
next
  case (8 t kvs)
  show ?case
  proof (cases "kvs = []")
    case True
    then show ?thesis by (simp add: known)
  next
    case False
    from "8.prems" have attrs: "well_formed_attrs kvs" and ty: "\<forall>kv \<in> set kvs. Type (snd kv) = t"
      by (simp_all add: well_formed_entries_iff well_formed_attrs_iff)
    from "8.IH" [OF attrs, of path] obtain ys
      where ys: "transform_map_elems cb path kvs = Done ys" "map fst ys = map fst kvs"
        "map (\<lambda>kv. Type (snd kv)) ys = map (\<lambda>kv. Type (snd kv)) kvs" "\<not> has_unknown_fields ys"
      by blast
    from ys(2) False have "ys \<noteq> []" by auto
    moreover from ys(3) ty have "\<forall>kv \<in> set ys. Type (snd kv) = t" by (rule field_types_carried)
    ultimately have "MapVal ys = Some (MapV t ys)" by (rule MapVal_same)
    with False ys show ?thesis by (simp add: rebuilt_def known)
  qed
next
  case (9 t xs)
  show ?case
  proof (cases "xs = []")
    case True
    then show ?thesis by (simp add: known)
  next
    case False
    from "9.prems" have items: "well_formed_items xs" and ty: "\<forall>x \<in> set xs. Type x = t"
      by (simp_all add: well_formed_elems_iff well_formed_items_iff)
    from "9.IH" [OF items, of path 0] obtain ys
      where ys: "transform_set_elems cb path xs = Done ys" "map Type ys = map Type xs"
        "\<not> has_unknown_list ys"
      by blast
    from ys(2) False have "ys \<noteq> []" by auto
    moreover from ys(2) ty have "\<forall>y \<in> set ys. Type y = t" by (rule types_carried)
    ultimately have "SetVal ys = Some (SetV t (foldl set_insert [] ys))" by (rule SetVal_same)
    moreover from ys(3) have "\<not> has_unknown_list (foldl set_insert [] ys)"
      by (simp add: has_unknown_list_iff set_foldl_set_insert)
    ultimately show ?thesis using False ys by (simp add: rebuilt_def known)
  qed
next
  case (10 avs)
  show ?case
  proof (cases "avs = []")
    case True
    then show ?thesis by (simp add: known)
  next
    case False
    from "10.prems" have attrs: "well_formed_attrs avs" by simp
    from "10.IH" [OF attrs, of path] obtain ys
      where ys: "transform_attrs cb path avs = Done ys" "map fst ys = map fst avs"
        "map (\<lambda>kv. Type (snd kv)) ys = map (\<lambda>kv. Type (snd kv)) avs" "\<not> has_unknown_fields ys"
      by blast
    from ys(2,3) have "map (\<lambda>(n, v). (n, Type v)) ys = map (\<lambda>(n, v). (n, Type v)) avs"
      by (simp add: attribute_types_split)
    with False ys show ?thesis by (simp add: ObjectVal_def known)
  qed
next
  case (11 xs)
  show ?case
  proof (cases "xs = []")
    case True
    then show ?thesis by (simp add: known)
  next
    case False
    from "11.prems" have items: "well_formed_items xs" by simp
    from "11.IH" [OF items, of path 0] obtain ys
      where ys: "transform_elems cb path 0 xs = Done ys" "map Type ys = map Type xs"
        "\<not> has_unknown_list ys"
      by blast
    with False show ?thesis by (simp add: TupleVal_def known)
  qed
next
  case 12
  then show ?case by simp
next
  case (13 x xs)
  from "13.prems" have x: "well_formed x" and xs: "well_formed_items xs" by simp_all
  from "13.IH"(1) [OF x, of "path @ [IndexStep (NumberIntVal (int i))]"] obtain y
    where y: "transform cb (path @ [IndexStep (NumberIntVal (int i))]) x = Done y"
      "Type y = Type x" "\<not> has_unknown y"
    by blast
  from "13.IH"(1) [OF x, of "path @ [IndexStep x]"] obtain z
    where z: "transform cb (path @ [IndexStep x]) x = Done z" "Type z = Type x" "\<not> has_unknown z"
    by blast
  from "13.IH"(2) [OF xs, of path "Suc i"] obtain ys zs
    where ys: "transform_elems cb path (Suc i) xs = Done ys" "map Type ys = map Type xs"
        "\<not> has_unknown_list ys"
      and zs: "transform_set_elems cb path xs = Done zs" "map Type zs = map Type xs"
        "\<not> has_unknown_list zs"
    by blast
  from y z ys zs show ?case by simp
next
  case 14
  then show ?case by simp
next
  case (15 kv kvs)
  from "15.prems" have v: "well_formed (snd kv)" and kvs: "well_formed_attrs kvs" by simp_all
  from "15.IH"(1) [OF v, of "path @ [IndexStep (StringVal (fst kv))]"] obtain y
    where y: "transform cb (path @ [IndexStep (StringVal (fst kv))]) (snd kv) = Done y"
      "Type y = Type (snd kv)" "\<not> has_unknown y"
    by blast
  from "15.IH"(1) [OF v, of "path @ [GetAttrStep (fst kv)]"] obtain z
    where z: "transform cb (path @ [GetAttrStep (fst kv)]) (snd kv) = Done z"
      "Type z = Type (snd kv)" "\<not> has_unknown z"
    by blast
  from "15.IH"(2) [OF kvs, of path] obtain ys zs
    where ys: "transform_map_elems cb path kvs = Done ys" "map fst ys = map fst kvs"
        "map (\<lambda>kv. Type (snd kv)) ys = map (\<lambda>kv. Type (snd kv)) kvs" "\<not> has_unknown_fields ys"
      and zs: "transform_attrs cb path kvs = Done zs" "map fst zs = map fst kvs"
        "map (\<lambda>kv. Type (snd kv)) zs = map (\<lambda>kv. Type (snd kv)) kvs" "\<not> has_unknown_fields zs"
    by blast
  from y z ys zs show ?case by simp
qed


lemma ApplyResourceChange_callback_unknown:
  "ApplyResourceChange_callback path (UnknownVal ty) = Done (zero_value ty)"
  by (cases ty)
     (simp_all add: ApplyResourceChange_callback_def NumberIntVal_def MapValEmpty_def ListValEmpty_def)

lemma ApplyResourceChange_callback_known:
  "IsKnown v \<Longrightarrow> ApplyResourceChange_callback path v = Done v"
  by (simp add: ApplyResourceChange_callback_def)

lemma zero_value_type: "Type (zero_value ty) = ty"
  by (cases ty) simp_all

lemma zero_value_has_no_unknown: "\<not> has_unknown (zero_value ty)"
  by (cases ty) simp_all

lemma ApplyResourceChange_callback_zeroes:
  "\<not> IsKnown v \<Longrightarrow>
     \<exists>v'. ApplyResourceChange_callback path v = Done v' \<and> Type v' = Type v \<and> \<not> has_unknown v'"
  by (cases v)
     (simp_all add: ApplyResourceChange_callback_unknown zero_value_type zero_value_has_no_unknown)

lemma apply_transform:
  shows "well_formed v \<Longrightarrow>
           \<exists>v'. transform ApplyResourceChange_callback path v = Done v' \<and> Type v' = Type v
                \<and> \<not> has_unknown v'"
    and "well_formed_items xs \<Longrightarrow>
           (\<exists>ys. transform_elems ApplyResourceChange_callback path i xs = Done ys
                \<and> map Type ys = map Type xs \<and> \<not> has_unknown_list ys)
         \<and> (\<exists>ys. transform_set_elems ApplyResourceChange_callback path xs = Done ys
                \<and> map Type ys = map Type xs \<and> \<not> has_unknown_list ys)"
    and "well_formed_attrs kvs \<Longrightarrow>
           (\<exists>ys. transform_map_elems ApplyResourceChange_callback path kvs = Done ys
                \<and> map fst ys = map fst kvs
                \<and> map (\<lambda>kv. Type (snd kv)) ys = map (\<lambda>kv. Type (snd kv)) kvs
                \<and> \<not> has_unknown_fields ys)
         \<and> (\<exists>ys. transform_attrs ApplyResourceChange_callback path kvs = Done ys
                \<and> map fst ys = map fst kvs
                \<and> map (\<lambda>kv. Type (snd kv)) ys = map (\<lambda>kv. Type (snd kv)) kvs
                \<and> \<not> has_unknown_fields ys)"
  by (rule transform_zeroing;
      simp add: ApplyResourceChange_callback_known ApplyResourceChange_callback_zeroes)+

lemma apply_transform_zero_unknowns:
  shows "well_formed v \<Longrightarrow> transform ApplyResourceChange_callback path v = Done (zero_unknowns v)"
    and "well_formed_items xs \<Longrightarrow>
           transform_elems ApplyResourceChange_callback path i xs = Done (zero_unknowns_list xs)
         \<and> transform_set_elems ApplyResourceChange_callback path xs = Done (zero_unknowns_list xs)"
    and "well_formed_attrs kvs \<Longrightarrow>
           transform_map_elems ApplyResourceChange_callback path kvs = Done (zero_unknowns_fields kvs)
         \<and> transform_attrs ApplyResourceChange_callback path kvs = Done (zero_unknowns_fields kvs)"
proof (induction v and xs and kvs arbitrary: path and path i and path
       rule: has_unknown_has_unknown_list_has_unknown_fields.induct)
  case 1
  then show ?case by simp
next
  case (2 t)
  then show ?case by (simp add: ApplyResourceChange_callback_known)
next
  case (3 t)
  then show ?case by (simp add: ApplyResourceChange_callback_unknown)
next
  case (4 s)
  then show ?case by (simp add: ApplyResourceChange_callback_known)
next
  case (5 n)
  then show ?case by (simp add: ApplyResourceChange_callback_known)
next
  case (6 b)
  then show ?case by (simp add: ApplyResourceChange_callback_known)
next
  case (7 t xs)
  show ?case
  proof (cases "xs = []")
    case True
    then show ?thesis by (simp add: ApplyResourceChange_callback_known)
  next
    case False
    from "7.prems" have items: "well_formed_items xs" and ty: "\<forall>x \<in> set xs. Type x = t"
      by (simp_all add: well_formed_elems_iff well_formed_items_iff)
    from "7.IH" [OF items, of path 0]
    have ys: "transform_elems ApplyResourceChange_callback path 0 xs = Done (zero_unknowns_list xs)"
      by simp
    from apply_transform(2) [OF items, of path 0] ys
    have tys: "map Type (zero_unknowns_list xs) = map Type xs" by auto
    with False have "zero_unknowns_list xs \<noteq> []" by auto
    moreover from tys ty have "\<forall>y \<in> set (zero_unknowns_list xs). Type y = t" by (rule types_carried)
    ultimately have "ListVal (zero_unknowns_list xs) = Some (ListV t (zero_unknowns_list xs))"
      by (rule ListVal_same)
    with False ys show ?thesis by (simp add: rebuilt_def ApplyResourceChange_callback_known)
  qed
next
  case (8 t kvs)
  show ?case
  proof (cases "kvs = []")
    case True
    then show ?thesis by (simp add: ApplyResourceChange_callback_known)
  next
    case False
    from "8.prems" have attrs: "well_formed_attrs kvs" and ty: "\<forall>kv \<in> set kvs. Type (snd kv) = t"
      by (simp_all add: well_formed_entries_iff well_formed_attrs_iff)
    from "8.IH" [OF attrs, of path]
    have ys: "transform_map_elems ApplyResourceChange_callback path kvs = Done (zero_unknowns_fields kvs)"
      by simp
    from apply_transform(3) [OF attrs, of path] ys
    have tys: "map (\<lambda>kv. Type (snd kv)) (zero_unknowns_fields kvs) = map (\<lambda>kv. Type (snd kv)) kvs"
      and keys: "map fst (zero_unknowns_fields kvs) = map fst kvs"
      by auto
    from keys False have "zero_unknowns_fields kvs \<noteq> []" by auto
    moreover from tys ty have "\<forall>kv \<in> set (zero_unknowns_fields kvs). Type (snd kv) = t"
      by (rule field_types_carried)
    ultimately have "MapVal (zero_unknowns_fields kvs) = Some (MapV t (zero_unknowns_fields kvs))"
      by (rule MapVal_same)
    with False ys show ?thesis by (simp add: rebuilt_def ApplyResourceChange_callback_known)
  qed
next
  case (9 t xs)
  show ?case
  proof (cases "xs = []")
    case True
    then show ?thesis by (simp add: ApplyResourceChange_callback_known)
  next
    case False
    from "9.prems" have items: "well_formed_items xs" and ty: "\<forall>x \<in> set xs. Type x = t"
      by (simp_all add: well_formed_elems_iff well_formed_items_iff)
    from "9.IH" [OF items, of path 0]
    have ys: "transform_set_elems ApplyResourceChange_callback path xs = Done (zero_unknowns_list xs)"
      by simp
    from apply_transform(2) [OF items, of path 0] ys
    have tys: "map Type (zero_unknowns_list xs) = map Type xs" by auto
    with False have "zero_unknowns_list xs \<noteq> []" by auto
    moreover from tys ty have "\<forall>y \<in> set (zero_unknowns_list xs). Type y = t" by (rule types_carried)
    ultimately have "SetVal (zero_unknowns_list xs)
        = Some (SetV t (foldl set_insert [] (zero_unknowns_list xs)))"
      by (rule SetVal_same)
    with False ys show ?thesis by (simp add: rebuilt_def ApplyResourceChange_callback_known)
  qed
next
  case (10 avs)
  then show ?case
    by (cases "avs = []") (simp_all add: ObjectVal_def ApplyResourceChange_callback_known)
next
  case (11 xs)
  then show ?case
    by (cases "xs = []") (simp_all add: TupleVal_def ApplyResourceChange_callback_known)
next
  case 12
  then show ?case by simp
next
  case (13 x xs)
  then show ?case by simp
next
  case 14
  then show ?case by simp
next
  case (15 kv kvs)
  then show ?case by simp
qed

text \<open>
  C4. On a configured provider without an override function or a canned response, the
  answer to a request whose planned state is a well-formed value and not null is the
  planned state with every unknown value replaced by the zero value of its type (the
  empty string, zero, false, the empty map or list, null for any other type); it has
  no unknown value anywhere, the planned private bytes and no diagnostic.
\<close>

theorem apply_default_zeroes_unknowns:
  assumes "ConfigureProviderCalled p"
    and "ApplyResourceChangeFn p = None"
    and "ApplyResourceChangeResponse p = None"
    and "\<not> IsNull (ARCq_PlannedState r)"
    and "well_formed (ARCq_PlannedState r)"
  shows "map_option fst (ApplyResourceChange p r) =
           Some \<lparr>ARCs_NewState = zero_unknowns (ARCq_PlannedState r),
                 ARCs_Private = ARCq_PlannedPrivate r, ARCs_Diagnostics = []\<rparr>
       \<and> \<not> has_unknown (zero_unknowns (ARCq_PlannedState r))
       \<and> (\<forall>path ty. ApplyResourceChange_callback path (UnknownVal ty) = Done (zero_value ty))"
proof -
  from assms(5) have eq: "Transform (ARCq_PlannedState r) ApplyResourceChange_callback
      = Done (zero_unknowns (ARCq_PlannedState r))"
    unfolding Transform_def by (rule apply_transform_zero_unknowns(1))
  from apply_transform(1) [OF assms(5), of "[]"] eq
  have "\<not> has_unknown (zero_unknowns (ARCq_PlannedState r))"
    by (auto simp: Transform_def)
  with assms(1-4) eq show ?thesis
    by (simp add: ApplyResourceChange_def Let_def ApplyResourceChange_callback_unknown)
qed


theorem apply_default_zeroes_unknowns_witness:
  "ConfigureProviderCalled test_provider
   \<and> ApplyResourceChangeFn test_provider = None
   \<and> ApplyResourceChangeResponse test_provider = None
   \<and> well_formed (ObjectV
        [(''id'', UnknownVal CtyString), (''count'', UnknownVal CtyNumber),
         (''enabled'', UnknownVal CtyBool), (''tags'', UnknownVal (CtyMap CtyString)),
         (''names'', ListV CtyString [StringVal ''a'', UnknownVal CtyString]),
         (''zones'', UnknownVal (CtySet CtyString))])
   \<and> map_option fst (ApplyResourceChange test_provider
        \<lparr>ARCq_TypeName = ''test_instance'', ARCq_PriorState = NullVal (CtyObject []),
         ARCq_PlannedState = ObjectV
           [(''id'', UnknownVal CtyString), (''count'', UnknownVal CtyNumber),
            (''enabled'', UnknownVal CtyBool), (''tags'', UnknownVal (CtyMap CtyString)),
            (''names'', ListV CtyString [StringVal ''a'', UnknownVal CtyString]),
            (''zones'', UnknownVal (CtySet CtyString))],
         ARCq_Config = ObjectV [], ARCq_PlannedPrivate = [1, 2]\<rparr>)
      = Some \<lparr>ARCs_NewState = ObjectV
                 [(''id'', StringVal []), (''count'', NumberVal 0),
                  (''enabled'', BoolVal False), (''tags'', MapV CtyString []),
                  (''names'', ListV CtyString [StringVal ''a'', StringVal []]),
                  (''zones'', NullVal (CtySet CtyString))],
               ARCs_Private = [1, 2], ARCs_Diagnostics = []\<rparr>
   \<and> \<not> has_unknown (ObjectV
        [(''id'', StringVal []), (''count'', NumberVal 0),
         (''enabled'', BoolVal False), (''tags'', MapV CtyString []),
         (''names'', ListV CtyString [StringVal ''a'', StringVal []]),
         (''zones'', NullVal (CtySet CtyString))])"
proof -
  let ?planned = "ObjectV
        [(''id'', UnknownVal CtyString), (''count'', UnknownVal CtyNumber),
         (''enabled'', UnknownVal CtyBool), (''tags'', UnknownVal (CtyMap CtyString)),
         (''names'', ListV CtyString [StringVal ''a'', UnknownVal CtyString]),
         (''zones'', UnknownVal (CtySet CtyString))]"
  let ?r = "\<lparr>ARCq_TypeName = ''test_instance'', ARCq_PriorState = NullVal (CtyObject []),
         ARCq_PlannedState = ?planned,
         ARCq_Config = ObjectV [], ARCq_PlannedPrivate = [1, 2]\<rparr>"
  have a: "ConfigureProviderCalled test_provider"
    and b: "ApplyResourceChangeFn test_provider = None"
    and c: "ApplyResourceChangeResponse test_provider = None"
    by (simp_all add: test_provider_def new_MockProvider_def)
  have d: "\<not> IsNull (ARCq_PlannedState ?r)" by simp
  have e: "well_formed (ARCq_PlannedState ?r)" by simp
  show ?thesis
    using a b c e apply_default_zeroes_unknowns [OF a b c d e] by simp
qed

section \<open>The default state upgrade\<close>

lemma flatmap_tags_example:
  assumes "conv (StringVal ''prod'') CtyString = Inr (StringVal ''prod'')"
  shows "HCL2ValueFromFlatmap conv (Some [(''tags.%'', ''1''), (''tags.env'', ''prod'')])
           (CtyObject [(''tags'', CtyMap CtyString)])
         = Done (ObjectV [(''tags'', MapV CtyString [(''env'', StringVal ''prod'')])])"
  using assms
  by (simp add: HCL2ValueFromFlatmap_def object_of_def hcl2ValueFromFlatmapMap_def read_count_def
        TrimRight_dot_def UnknownVariableValue_def Atoi_def map_keys_def HasPrefix_def named_def
        hcl2ValueFromFlatmapPrimitive_def built_def MapVal_def ObjectVal_def)

lemma flatmap_empty_set_element_example:
  "HCL2ValueFromFlatmap conv (Some [(''disk.#'', ''1'')])
     (CtyObject [(''disk'', CtySet (CtyObject [(''id'', CtyString)]))])
   = Done (ObjectV [(''disk'', SetV (CtyObject [(''id'', CtyString)])
                                  [ObjectV [(''id'', NullVal CtyString)]])])"
  by (simp add: HCL2ValueFromFlatmap_def object_of_def hcl2ValueFromFlatmapSet_def read_count_def
        TrimRight_dot_def UnknownVariableValue_def Atoi_def set_keys_def HasPrefix_def
        empty_element_def built_def SetVal_def ObjectVal_def set_insert_def)



section \<open>The default plan\<close>

lemma AttributeByPath_below_attribute:
  "AttributeByPath b path = Some a \<Longrightarrow> q \<noteq> [] \<Longrightarrow> AttributeByPath b (path @ q) = None"
  by (induction b path rule: AttributeByPath.induct) (auto split: option.splits if_splits)

lemma AttributeByPath_above_attribute:
  "AttributeByPath b (path @ q) = Some a \<Longrightarrow> q \<noteq> [] \<Longrightarrow> AttributeByPath b path = None"
  using AttributeByPath_below_attribute [of b path _ q] by (cases "AttributeByPath b path") auto

lemma transform_elems_nth:
  "transform_elems cb pre k xs = Done ys \<Longrightarrow>
     length ys = length xs
     \<and> (\<forall>j < length xs.
           transform cb (pre @ [IndexStep (NumberIntVal (int (k + j)))]) (xs ! j) = Done (ys ! j))"
proof (induction xs arbitrary: k ys)
  case Nil
  then show ?case by simp
next
  case (Cons x xs)
  from Cons.prems obtain y ys' where y: "transform cb (pre @ [IndexStep (NumberIntVal (int k))]) x = Done y"
    and ys': "transform_elems cb pre (Suc k) xs = Done ys'" and ys: "ys = y # ys'"
    by (auto split: outcome.splits)
  from Cons.IH [OF ys'] have len: "length ys' = length xs"
    and nth: "\<forall>j < length xs.
           transform cb (pre @ [IndexStep (NumberIntVal (int (Suc k + j)))]) (xs ! j) = Done (ys' ! j)"
    by simp_all
  show ?case
  proof (intro conjI allI impI)
    show "length ys = length (x # xs)" using len ys by simp
  next
    fix j assume "j < length (x # xs)"
    then show "transform cb (pre @ [IndexStep (NumberIntVal (int (k + j)))]) ((x # xs) ! j) = Done (ys ! j)"
      using y nth ys by (cases j) simp_all
  qed
qed

lemma transform_map_elems_lookup:
  "transform_map_elems cb pre kvs = Done ys \<Longrightarrow> map_of kvs k = Some u \<Longrightarrow>
     \<exists>u'. transform cb (pre @ [IndexStep (StringVal k)]) u = Done u' \<and> map_of ys k = Some u'"
proof (induction kvs arbitrary: ys)
  case Nil
  then show ?case by simp
next
  case (Cons kv kvs)
  from Cons.prems(1) obtain y ys'
    where y: "transform cb (pre @ [IndexStep (StringVal (fst kv))]) (snd kv) = Done y"
      and ys': "transform_map_elems cb pre kvs = Done ys'" and ys: "ys = (fst kv, y) # ys'"
    by (auto split: outcome.splits)
  show ?case
  proof (cases "fst kv = k")
    case True
    with Cons.prems(2) have "u = snd kv" by (cases kv) simp
    with True y ys show ?thesis by simp
  next
    case False
    with Cons.prems(2) have "map_of kvs k = Some u" by (cases kv) simp
    from Cons.IH [OF ys' this] False ys show ?thesis by simp
  qed
qed

lemma transform_attrs_lookup:
  "transform_attrs cb pre avs = Done ys \<Longrightarrow> map_of avs name = Some u \<Longrightarrow>
     \<exists>u'. transform cb (pre @ [GetAttrStep name]) u = Done u' \<and> map_of ys name = Some u'"
proof (induction avs arbitrary: ys)
  case Nil
  then show ?case by simp
next
  case (Cons av avs)
  from Cons.prems(1) obtain y ys'
    where y: "transform cb (pre @ [GetAttrStep (fst av)]) (snd av) = Done y"
      and ys': "transform_attrs cb pre avs = Done ys'" and ys: "ys = (fst av, y) # ys'"
    by (auto split: outcome.splits)
  show ?case
  proof (cases "fst av = name")
    case True
    with Cons.prems(2) have "u = snd av" by (cases av) simp
    with True y ys show ?thesis by simp
  next
    case False
    with Cons.prems(2) have "map_of avs name = Some u" by (cases av) simp
    from Cons.IH [OF ys' this] False ys show ?thesis by simp
  qed
qed

text \<open>
  Where the callback returns every value below a path as it is, the transform at the
  path is the callback on the value itself.
\<close>

lemma transform_identity_below:
  shows "(\<And>q u. q \<noteq> [] \<Longrightarrow> cb (pre @ q) u = Done u) \<Longrightarrow> well_formed v \<Longrightarrow>
           transform cb pre v = cb pre v"
    and "(\<And>q u. q \<noteq> [] \<Longrightarrow> cb (pre @ q) u = Done u) \<Longrightarrow> well_formed_items xs \<Longrightarrow>
           transform_elems cb pre i xs = Done xs \<and> transform_set_elems cb pre xs = Done xs"
    and "(\<And>q u. q \<noteq> [] \<Longrightarrow> cb (pre @ q) u = Done u) \<Longrightarrow> well_formed_attrs kvs \<Longrightarrow>
           transform_map_elems cb pre kvs = Done kvs \<and> transform_attrs cb pre kvs = Done kvs"
proof (induction v and xs and kvs arbitrary: pre and pre i and pre
       rule: has_unknown_has_unknown_list_has_unknown_fields.induct)
  case (7 t xs)
  show ?case
  proof (cases "xs = []")
    case True
    then show ?thesis by simp
  next
    case False
    from "7.prems"(2) have items: "well_formed_items xs" and ty: "\<forall>x \<in> set xs. Type x = t"
      by (simp_all add: well_formed_elems_iff well_formed_items_iff)
    from "7.IH" [OF "7.prems"(1) items, of 0] have "transform_elems cb pre 0 xs = Done xs"
      by simp
    moreover from False ty have "ListVal xs = Some (ListV t xs)" by (rule ListVal_same)
    ultimately show ?thesis using False by (simp add: rebuilt_def)
  qed
next
  case (8 t kvs)
  show ?case
  proof (cases "kvs = []")
    case True
    then show ?thesis by simp
  next
    case False
    from "8.prems"(2) have attrs: "well_formed_attrs kvs" and ty: "\<forall>kv \<in> set kvs. Type (snd kv) = t"
      by (simp_all add: well_formed_entries_iff well_formed_attrs_iff)
    from "8.IH" [OF "8.prems"(1) attrs] have "transform_map_elems cb pre kvs = Done kvs"
      by simp
    moreover from False ty have "MapVal kvs = Some (MapV t kvs)" by (rule MapVal_same)
    ultimately show ?thesis using False by (simp add: rebuilt_def)
  qed
next
  case (9 t xs)
  show ?case
  proof (cases "xs = []")
    case True
    then show ?thesis by simp
  next
    case False
    from "9.prems"(2) have items: "well_formed_items xs" and ty: "\<forall>x \<in> set xs. Type x = t"
      and norm: "foldl set_insert [] xs = xs"
      by (simp_all add: well_formed_elems_iff well_formed_items_iff)
    from "9.IH" [OF "9.prems"(1) items, of 0] have "transform_set_elems cb pre xs = Done xs"
      by simp
    moreover from False ty norm have "SetVal xs = Some (SetV t xs)"
      using SetVal_same [of xs t] by simp
    ultimately show ?thesis using False by (simp add: rebuilt_def)
  qed
next
  case (10 avs)
  from "10.IH" [OF "10.prems"(1)] "10.prems"(2) show ?case
    by (cases "avs = []") (simp_all add: ObjectVal_def)
next
  case (11 xs)
  from "11.IH" [OF "11.prems"(1), of 0] "11.prems"(2) show ?case
    by (cases "xs = []") (simp_all add: TupleVal_def)
next
  case (13 x xs)
  from "13.prems"(2) have x: "well_formed x" and xs: "well_formed_items xs" by simp_all
  have below: "cb ((pre @ [step]) @ q) u = Done u" for step q u
    using "13.prems"(1) [of "step # q" u] by simp
  have here: "cb (pre @ [step]) u = Done u" for step u
    using "13.prems"(1) [of "[step]" u] by simp
  from "13.IH"(1) [OF below x] here
  have "transform cb (pre @ [step]) x = Done x" for step by simp
  with "13.IH"(2) [OF "13.prems"(1) xs] show ?case by simp
next
  case (15 kv kvs)
  from "15.prems"(2) have v: "well_formed (snd kv)" and kvs: "well_formed_attrs kvs" by simp_all
  have below: "cb ((pre @ [step]) @ q) u = Done u" for step q u
    using "15.prems"(1) [of "step # q" u] by simp
  have here: "cb (pre @ [step]) u = Done u" for step u
    using "15.prems"(1) [of "[step]" u] by simp
  from "15.IH"(1) [OF below v] here
  have "transform cb (pre @ [step]) (snd kv) = Done (snd kv)" for step by simp
  with "15.IH"(2) [OF "15.prems"(1) kvs] show ?case by simp
qed simp_all


lemma GetAttrStep_Apply_Done:
  assumes "GetAttrStep_Apply name u = Done u1"
  shows "(\<exists>avs. u = ObjectV avs \<and> map_of avs name = Some u1) \<or> \<not> IsKnown u"
  using assms
  by (cases u) (auto simp: GetAttrStep_Apply_def split: option.splits)

lemma index_of_key_Some:
  assumes "index_of_key n len = Some i"
  shows "i < len" and "NumberVal n = NumberIntVal (int i)"
proof -
  from assms have n: "n = of_int \<lfloor>n\<rfloor>" and pos: "0 \<le> n" and i: "i = nat \<lfloor>n\<rfloor>" and "nat \<lfloor>n\<rfloor> < len"
    by (auto simp: index_of_key_def split: if_splits)
  then show "i < len" by simp
  from pos have "0 \<le> \<lfloor>n\<rfloor>" by simp
  then have "int (nat \<lfloor>n\<rfloor>) = \<lfloor>n\<rfloor>" by simp
  with n i show "NumberVal n = NumberIntVal (int i)" by (simp add: NumberIntVal_def)
qed

lemma IndexStep_Apply_Done:
  assumes "IndexStep_Apply key u = Done u1"
  shows "(\<exists>t xs n i. u = ListV t xs \<and> key = NumberVal n \<and> index_of_key n (length xs) = Some i
            \<and> u1 = xs ! i)
       \<or> (\<exists>xs n i. u = TupleV xs \<and> key = NumberVal n \<and> index_of_key n (length xs) = Some i
            \<and> u1 = xs ! i)
       \<or> (\<exists>t kvs k. u = MapV t kvs \<and> key = StringVal k \<and> map_of kvs k = Some u1)
       \<or> (\<exists>t xs. u = ListV t xs \<and> Type key = CtyNumber \<and> \<not> IsKnown key \<and> u1 = UnknownVal t)
       \<or> (\<exists>t kvs. u = MapV t kvs \<and> Type key = CtyString \<and> \<not> IsKnown key \<and> u1 = UnknownVal t)
       \<or> \<not> IsKnown u"
proof (cases u)
  case (ListV t xs)
  with assms show ?thesis
    by (cases key) (auto simp: IndexStep_Apply_def index_elem_def split: if_splits option.splits)
next
  case (TupleV xs)
  with assms show ?thesis
    by (cases key) (auto simp: IndexStep_Apply_def index_elem_def split: if_splits option.splits)
next
  case (MapV t kvs)
  with assms show ?thesis
    by (cases key) (auto simp: IndexStep_Apply_def index_map_def split: if_splits option.splits)
qed (use assms in \<open>auto simp: IndexStep_Apply_def split: if_splits\<close>)

lemma PathStep_Apply_unknown:
  "\<not> IsKnown u \<Longrightarrow> PathStep_Apply step u = Done v \<Longrightarrow> \<not> IsKnown v"
  by (cases u; cases step)
     (auto simp: GetAttrStep_Apply_def IndexStep_Apply_def index_elem_def
           split: cty_type.splits option.splits if_splits Value.splits)

lemma Path_Apply_unknown:
  "\<not> IsKnown u \<Longrightarrow> Path_Apply s u = Done v \<Longrightarrow> \<not> IsKnown v"
proof (induction s arbitrary: u)
  case Nil
  then show ?case by simp
next
  case (Cons step s)
  from Cons.prems(2) obtain u1 where "PathStep_Apply step u = Done u1" "Path_Apply s u1 = Done v"
    by (auto split: outcome.splits)
  with Cons.prems(1) Cons.IH [of u1] PathStep_Apply_unknown [of u step u1] show ?case by simp
qed

lemma PlanResourceChange_callback_not_attribute:
  "AttributeByPath (Block schema) path = None \<Longrightarrow> PlanResourceChange_callback schema r path v = Done v"
  by (simp add: PlanResourceChange_callback_def)

lemma PlanResourceChange_callback_unknown:
  "\<not> IsKnown v \<Longrightarrow> PlanResourceChange_callback schema r path v = Done v"
  by (simp add: PlanResourceChange_callback_def)

lemma well_formed_lookup:
  "well_formed_attrs avs \<Longrightarrow> map_of avs name = Some u \<Longrightarrow> well_formed u"
  using map_of_SomeD [of avs name u] by (force simp: well_formed_attrs_iff)


lemma ListVal_Some: "ListVal ys = Some lv \<Longrightarrow> \<exists>t'. lv = ListV t' ys"
  by (auto simp: ListVal_def split: if_splits option.splits)

lemma MapVal_Some: "MapVal ys = Some mv \<Longrightarrow> \<exists>t'. mv = MapV t' ys"
  by (auto simp: MapVal_def split: if_splits option.splits)

lemma transform_ObjectV_Done:
  assumes "avs \<noteq> []" and "transform cb pre (ObjectV avs) = Done u'" and "\<And>x. cb pre x = Done x"
  shows "\<exists>avs'. transform_attrs cb pre avs = Done avs' \<and> u' = ObjectV avs'"
  using assms by (cases "transform_attrs cb pre avs") (simp_all add: ObjectVal_def)

lemma transform_TupleV_Done:
  assumes "xs \<noteq> []" and "transform cb pre (TupleV xs) = Done u'" and "\<And>x. cb pre x = Done x"
  shows "\<exists>ys. transform_elems cb pre 0 xs = Done ys \<and> u' = TupleV ys"
  using assms by (cases "transform_elems cb pre 0 xs") (simp_all add: TupleVal_def)

lemma transform_ListV_Done:
  assumes "xs \<noteq> []" and "transform cb pre (ListV t xs) = Done u'" and "\<And>x. cb pre x = Done x"
  shows "\<exists>ys t'. transform_elems cb pre 0 xs = Done ys \<and> u' = ListV t' ys"
proof (cases "transform_elems cb pre 0 xs")
  case (Done ys)
  show ?thesis
  proof (cases "ListVal ys")
    case None
    with Done assms show ?thesis by (simp add: rebuilt_def)
  next
    case (Some lv)
    with ListVal_Some obtain t' where "lv = ListV t' ys" by blast
    with Some Done assms show ?thesis by (auto simp: rebuilt_def)
  qed
qed (use assms in simp_all)

lemma transform_MapV_Done:
  assumes "kvs \<noteq> []" and "transform cb pre (MapV t kvs) = Done u'" and "\<And>x. cb pre x = Done x"
  shows "\<exists>ys t'. transform_map_elems cb pre kvs = Done ys \<and> u' = MapV t' ys"
proof (cases "transform_map_elems cb pre kvs")
  case (Done ys)
  show ?thesis
  proof (cases "MapVal ys")
    case None
    with Done assms show ?thesis by (simp add: rebuilt_def)
  next
    case (Some mv)
    with MapVal_Some obtain t' where "mv = MapV t' ys" by blast
    with Some Done assms show ?thesis by (auto simp: rebuilt_def)
  qed
qed (use assms in simp_all)



text \<open>A callback that keeps the type of every value keeps the type of the whole.\<close>

lemma transform_preserves_type:
  assumes cb: "\<And>path v w. cb path v = Done w \<Longrightarrow> Type w = Type v"
  shows "well_formed v \<Longrightarrow> transform cb path v = Done v' \<Longrightarrow> Type v' = Type v"
    and "well_formed_items xs \<Longrightarrow>
           (transform_elems cb path i xs = Done ys \<longrightarrow> map Type ys = map Type xs)
         \<and> (transform_set_elems cb path xs = Done ys \<longrightarrow> map Type ys = map Type xs)"
    and "well_formed_attrs kvs \<Longrightarrow>
           (transform_map_elems cb path kvs = Done zs \<longrightarrow>
              map fst zs = map fst kvs \<and> map (\<lambda>kv. Type (snd kv)) zs = map (\<lambda>kv. Type (snd kv)) kvs)
         \<and> (transform_attrs cb path kvs = Done zs \<longrightarrow>
              map fst zs = map fst kvs \<and> map (\<lambda>kv. Type (snd kv)) zs = map (\<lambda>kv. Type (snd kv)) kvs)"
proof (induction v and xs and kvs arbitrary: path v' and path i ys and path zs
       rule: has_unknown_has_unknown_list_has_unknown_fields.induct)
  case (7 t xs)
  show ?case
  proof (cases "xs = []")
    case True
    with "7.prems"(2) cb [of path "ListV t xs" v'] show ?thesis by simp
  next
    case False
    from "7.prems"(1) have items: "well_formed_items xs" and ty: "\<forall>x \<in> set xs. Type x = t"
      by (simp_all add: well_formed_elems_iff well_formed_items_iff)
    from "7.prems"(2) False obtain ys lv where ys: "transform_elems cb path 0 xs = Done ys"
      and lv: "ListVal ys = Some lv" and v': "cb path lv = Done v'"
      by (auto simp: rebuilt_def split: outcome.splits option.splits)
    from "7.IH" [OF items, of path 0 ys] ys have tys: "map Type ys = map Type xs" by simp
    with False have "ys \<noteq> []" by auto
    moreover from tys ty have "\<forall>y \<in> set ys. Type y = t" by (rule types_carried)
    ultimately have "ListVal ys = Some (ListV t ys)" by (rule ListVal_same)
    with lv have "Type lv = CtyList t" by auto
    with cb [OF v'] show ?thesis by simp
  qed
next
  case (8 t kvs)
  show ?case
  proof (cases "kvs = []")
    case True
    with "8.prems"(2) cb [of path "MapV t kvs" v'] show ?thesis by simp
  next
    case False
    from "8.prems"(1) have attrs: "well_formed_attrs kvs" and ty: "\<forall>kv \<in> set kvs. Type (snd kv) = t"
      by (simp_all add: well_formed_entries_iff well_formed_attrs_iff)
    from "8.prems"(2) False obtain zs mv where zs: "transform_map_elems cb path kvs = Done zs"
      and mv: "MapVal zs = Some mv" and v': "cb path mv = Done v'"
      by (auto simp: rebuilt_def split: outcome.splits option.splits)
    from "8.IH" [OF attrs, of path zs] zs have keys: "map fst zs = map fst kvs"
      and tys: "map (\<lambda>kv. Type (snd kv)) zs = map (\<lambda>kv. Type (snd kv)) kvs" by simp_all
    from keys False have "zs \<noteq> []" by auto
    moreover from tys ty have "\<forall>kv \<in> set zs. Type (snd kv) = t" by (rule field_types_carried)
    ultimately have "MapVal zs = Some (MapV t zs)" by (rule MapVal_same)
    with mv have "Type mv = CtyMap t" by auto
    with cb [OF v'] show ?thesis by simp
  qed
next
  case (9 t xs)
  show ?case
  proof (cases "xs = []")
    case True
    with "9.prems"(2) cb [of path "SetV t xs" v'] show ?thesis by simp
  next
    case False
    from "9.prems"(1) have items: "well_formed_items xs" and ty: "\<forall>x \<in> set xs. Type x = t"
      by (simp_all add: well_formed_elems_iff well_formed_items_iff)
    from "9.prems"(2) False obtain ys sv where ys: "transform_set_elems cb path xs = Done ys"
      and sv: "SetVal ys = Some sv" and v': "cb path sv = Done v'"
      by (auto simp: rebuilt_def split: outcome.splits option.splits)
    from "9.IH" [OF items, of path 0 ys] ys have tys: "map Type ys = map Type xs" by simp
    with False have "ys \<noteq> []" by auto
    moreover from tys ty have "\<forall>y \<in> set ys. Type y = t" by (rule types_carried)
    ultimately have "SetVal ys = Some (SetV t (foldl set_insert [] ys))" by (rule SetVal_same)
    with sv have "Type sv = CtySet t" by auto
    with cb [OF v'] show ?thesis by simp
  qed
next
  case (10 avs)
  show ?case
  proof (cases "avs = []")
    case True
    with "10.prems"(2) cb [of path "ObjectV avs" v'] show ?thesis by simp
  next
    case False
    from "10.prems"(1) have attrs: "well_formed_attrs avs" by simp
    from "10.prems"(2) False obtain zs where zs: "transform_attrs cb path avs = Done zs"
      and v': "cb path (ObjectV zs) = Done v'"
      by (auto simp: ObjectVal_def split: outcome.splits)
    from "10.IH" [OF attrs, of path zs] zs have keys: "map fst zs = map fst avs"
      and tys: "map (\<lambda>kv. Type (snd kv)) zs = map (\<lambda>kv. Type (snd kv)) avs" by simp_all
    then have "map (\<lambda>(n, v). (n, Type v)) zs = map (\<lambda>(n, v). (n, Type v)) avs"
      by (simp add: attribute_types_split)
    with cb [OF v'] show ?thesis by simp
  qed
next
  case (11 xs)
  show ?case
  proof (cases "xs = []")
    case True
    with "11.prems"(2) cb [of path "TupleV xs" v'] show ?thesis by simp
  next
    case False
    from "11.prems"(1) have items: "well_formed_items xs" by simp
    from "11.prems"(2) False obtain ys where ys: "transform_elems cb path 0 xs = Done ys"
      and v': "cb path (TupleV ys) = Done v'"
      by (auto simp: TupleVal_def split: outcome.splits)
    from "11.IH" [OF items, of path 0 ys] ys have "map Type ys = map Type xs" by simp
    with cb [OF v'] show ?thesis by simp
  qed
next
  case (13 x xs)
  from "13.prems" have x: "well_formed x" and xs: "well_formed_items xs" by simp_all
  show ?case
  proof (intro conjI impI)
    assume "transform_elems cb path i (x # xs) = Done ys"
    then obtain y ys' where y: "transform cb (path @ [IndexStep (NumberIntVal (int i))]) x = Done y"
      and ys': "transform_elems cb path (Suc i) xs = Done ys'" and ys: "ys = y # ys'"
      by (auto split: outcome.splits)
    from "13.IH"(1) [OF x y] "13.IH"(2) [OF xs, of path "Suc i" ys'] ys' ys
    show "map Type ys = map Type (x # xs)" by simp
  next
    assume "transform_set_elems cb path (x # xs) = Done ys"
    then obtain y ys' where y: "transform cb (path @ [IndexStep x]) x = Done y"
      and ys': "transform_set_elems cb path xs = Done ys'" and ys: "ys = y # ys'"
      by (auto split: outcome.splits)
    from "13.IH"(1) [OF x y] "13.IH"(2) [OF xs, of path i ys'] ys' ys
    show "map Type ys = map Type (x # xs)" by simp
  qed
next
  case (15 kv kvs)
  from "15.prems" have v: "well_formed (snd kv)" and kvs: "well_formed_attrs kvs" by simp_all
  show ?case
  proof (intro conjI impI)
    assume "transform_map_elems cb path (kv # kvs) = Done zs"
    then obtain y zs' where y: "transform cb (path @ [IndexStep (StringVal (fst kv))]) (snd kv) = Done y"
      and zs': "transform_map_elems cb path kvs = Done zs'" and zs: "zs = (fst kv, y) # zs'"
      by (auto split: outcome.splits)
    from "15.IH"(1) [OF v y] "15.IH"(2) [OF kvs, of path zs'] zs' zs
    show "map fst zs = map fst (kv # kvs)"
      and "map (\<lambda>kv. Type (snd kv)) zs = map (\<lambda>kv. Type (snd kv)) (kv # kvs)" by simp_all
  next
    assume "transform_attrs cb path (kv # kvs) = Done zs"
    then obtain y zs' where y: "transform cb (path @ [GetAttrStep (fst kv)]) (snd kv) = Done y"
      and zs': "transform_attrs cb path kvs = Done zs'" and zs: "zs = (fst kv, y) # zs'"
      by (auto split: outcome.splits)
    from "15.IH"(1) [OF v y] "15.IH"(2) [OF kvs, of path zs'] zs' zs
    show "map fst zs = map fst (kv # kvs)"
      and "map (\<lambda>kv. Type (snd kv)) zs = map (\<lambda>kv. Type (snd kv)) (kv # kvs)" by simp_all
  qed
qed (use cb in auto)

lemma PlanResourceChange_callback_type:
  "PlanResourceChange_callback schema r path v = Done w \<Longrightarrow> Type w = Type v"
  by (auto simp: PlanResourceChange_callback_def split: if_splits option.splits outcome.splits)

lemma plan_transform_type:
  "well_formed u \<Longrightarrow> transform (PlanResourceChange_callback schema r) pre u = Done u' \<Longrightarrow>
     Type u' = Type u"
  by (rule transform_preserves_type(1) [where cb = "PlanResourceChange_callback schema r"])
     (auto dest: PlanResourceChange_callback_type)

lemma IndexStep_Apply_DoneE [consumes 2, case_names list tuple map list_unknown_key map_unknown_key]:
  assumes "IndexStep_Apply key u = Done u1" and "IsKnown u"
  obtains (list) t xs n i where "u = ListV t xs" "key = NumberVal n"
            "index_of_key n (length xs) = Some i" "u1 = xs ! i"
        | (tuple) xs n i where "u = TupleV xs" "key = NumberVal n"
            "index_of_key n (length xs) = Some i" "u1 = xs ! i"
        | (map) t kvs k where "u = MapV t kvs" "key = StringVal k" "map_of kvs k = Some u1"
        | (list_unknown_key) t xs where "u = ListV t xs" "Type key = CtyNumber" "\<not> IsKnown key"
            "u1 = UnknownVal t"
        | (map_unknown_key) t kvs where "u = MapV t kvs" "Type key = CtyString" "\<not> IsKnown key"
            "u1 = UnknownVal t"
proof -
  from IndexStep_Apply_Done [OF assms(1)] assms(2)
  have "(\<exists>t xs n i. u = ListV t xs \<and> key = NumberVal n \<and> index_of_key n (length xs) = Some i
            \<and> u1 = xs ! i)
       \<or> (\<exists>xs n i. u = TupleV xs \<and> key = NumberVal n \<and> index_of_key n (length xs) = Some i
            \<and> u1 = xs ! i)
       \<or> (\<exists>t kvs k. u = MapV t kvs \<and> key = StringVal k \<and> map_of kvs k = Some u1)
       \<or> (\<exists>t xs. u = ListV t xs \<and> Type key = CtyNumber \<and> \<not> IsKnown key \<and> u1 = UnknownVal t)
       \<or> (\<exists>t kvs. u = MapV t kvs \<and> Type key = CtyString \<and> \<not> IsKnown key \<and> u1 = UnknownVal t)"
    by simp
  then show thesis
    apply (elim disjE exE conjE)
        apply (rule list; assumption)
       apply (rule tuple; assumption)
      apply (rule map; assumption)
     apply (rule list_unknown_key; assumption)
    apply (rule map_unknown_key; assumption)
    done
qed

lemma GetAttrStep_Apply_DoneE [consumes 2]:
  assumes "GetAttrStep_Apply name u = Done u1" and "IsKnown u"
  obtains avs where "u = ObjectV avs" "map_of avs name = Some u1"
proof -
  from GetAttrStep_Apply_Done [OF assms(1)] assms(2)
  have "\<exists>avs. u = ObjectV avs \<and> map_of avs name = Some u1" by simp
  then show thesis using that by (elim exE conjE)
qed

lemma GetAttrStep_Apply_no_Panic: "GetAttrStep_Apply name c \<noteq> Panic"
  by (simp add: GetAttrStep_Apply_def split: Value.splits option.splits cty_type.splits)

lemma plain_number_key: "plain_key k \<Longrightarrow> Type k = CtyNumber \<Longrightarrow> \<exists>n. k = NumberVal n"
  by (cases k) simp_all

lemma plain_string_key: "plain_key k \<Longrightarrow> Type k = CtyString \<Longrightarrow> \<exists>s. k = StringVal s"
  by (cases k) simp_all

lemma index_elem_number: "index_elem (NumberVal n) len elem unknownKey \<noteq> Panic"
  by (simp add: index_elem_def split: option.splits)

lemma index_map_string: "index_map (StringVal s) kvs unknownKey \<noteq> Panic"
  by (simp add: index_map_def split: option.splits)

lemma IndexStep_Apply_no_Panic:
  assumes "plain_key k"
  shows "IndexStep_Apply k c \<noteq> Panic"
proof (cases "Type k = CtyNumber")
  case True
  with assms obtain n where "k = NumberVal n" using plain_number_key by blast
  then show ?thesis
    by (simp add: IndexStep_Apply_def index_elem_number split: Value.splits cty_type.splits)
next
  case False
  show ?thesis
  proof (cases "Type k = CtyString")
    case True
    with assms obtain s where "k = StringVal s" using plain_string_key by blast
    then show ?thesis
      by (simp add: IndexStep_Apply_def index_map_string split: Value.splits cty_type.splits)
  next
    case False
    with \<open>Type k \<noteq> CtyNumber\<close> show ?thesis by (simp add: IndexStep_Apply_def)
  qed
qed

lemma Path_Apply_no_Panic: "plain_path path \<Longrightarrow> Path_Apply path c \<noteq> Panic"
proof (induction path arbitrary: c)
  case Nil
  then show ?case by simp
next
  case (Cons step path)
  then have rest: "plain_path path" and step: "plain_step step" by (simp_all add: plain_path_def)
  from step have "PathStep_Apply step c \<noteq> Panic"
    by (cases step) (simp_all add: GetAttrStep_Apply_no_Panic IndexStep_Apply_no_Panic)
  with Cons.IH [OF rest] show ?case by (simp split: outcome.splits)
qed

lemma AttributeByPath_index_end: "AttributeByPath b (path @ [IndexStep k]) = None"
proof (induction path arbitrary: b)
  case Nil
  then show ?case by simp
next
  case (Cons step path)
  then show ?case by (cases step) (simp_all split: option.splits)
qed

lemma PlanResourceChange_callback_planned:
  assumes "plain_path path"
  shows "PlanResourceChange_callback schema r path x = Done (planned_value schema (PRCq_Config r) path x)"
    and "Type (planned_value schema (PRCq_Config r) path x) = Type x"
proof -
  from assms have "Path_Apply path (PRCq_Config r) \<noteq> Panic" by (rule Path_Apply_no_Panic)
  then show "PlanResourceChange_callback schema r path x = Done (planned_value schema (PRCq_Config r) path x)"
    by (cases x) (auto simp: PlanResourceChange_callback_def planned_value_def
                       split: option.splits outcome.splits)
  show "Type (planned_value schema (PRCq_Config r) path x) = Type x"
    by (simp add: planned_value_def split: option.splits outcome.splits)
qed

lemma planned_value_index_end: "planned_value schema config (path @ [IndexStep k]) x = x"
  by (simp add: planned_value_def AttributeByPath_index_end)

lemma PlanResourceChange_callback_index_end:
  "PlanResourceChange_callback schema r (path @ [IndexStep k]) x = Done x"
  by (simp add: PlanResourceChange_callback_not_attribute AttributeByPath_index_end)


lemma plain_path_snoc: "plain_path path \<Longrightarrow> plain_step step \<Longrightarrow> plain_path (path @ [step])"
  by (simp add: plain_path_def)

lemma not_plain_key_leaf:
  assumes "\<not> plain_key x"
  shows "transform cb path x = cb path x" and "walk f path x = f path x"
  using assms by (cases x; simp)+

text \<open>
  The transform under a callback that answers like a visitor on every plain path, and
  that returns the value at a path that ends in an index step, is the walk of the
  visitor.
\<close>

lemma transform_walk:
  assumes plain: "\<And>path x. plain_path path \<Longrightarrow> cb path x = Done (f path x) \<and> Type (f path x) = Type x"
    and index: "\<And>path k x. cb (path @ [IndexStep k]) x = Done x \<and> f (path @ [IndexStep k]) x = x"
  shows "well_formed v \<Longrightarrow> plain_path path \<Longrightarrow>
           transform cb path v = Done (walk f path v) \<and> Type (walk f path v) = Type v"
    and "well_formed_items xs \<Longrightarrow> plain_path path \<Longrightarrow>
           transform_elems cb path i xs = Done (walk_elems f path i xs)
         \<and> transform_set_elems cb path xs = Done (walk_set_elems f path xs)
         \<and> map Type (walk_elems f path i xs) = map Type xs
         \<and> map Type (walk_set_elems f path xs) = map Type xs"
    and "well_formed_attrs kvs \<Longrightarrow> plain_path path \<Longrightarrow>
           transform_map_elems cb path kvs = Done (walk_map_elems f path kvs)
         \<and> transform_attrs cb path kvs = Done (walk_attrs f path kvs)
         \<and> map fst (walk_map_elems f path kvs) = map fst kvs
         \<and> map fst (walk_attrs f path kvs) = map fst kvs
         \<and> map (\<lambda>kv. Type (snd kv)) (walk_map_elems f path kvs) = map (\<lambda>kv. Type (snd kv)) kvs
         \<and> map (\<lambda>kv. Type (snd kv)) (walk_attrs f path kvs) = map (\<lambda>kv. Type (snd kv)) kvs"
proof (induction v and xs and kvs arbitrary: path and path i and path
       rule: has_unknown_has_unknown_list_has_unknown_fields.induct)
  case 1
  then show ?case by simp
next
  case (2 t)
  with plain [of path "NullVal t"] show ?case by simp
next
  case (3 t)
  with plain [of path "UnknownVal t"] show ?case by simp
next
  case (4 s)
  with plain [of path "StringVal s"] show ?case by simp
next
  case (5 n)
  with plain [of path "NumberVal n"] show ?case by simp
next
  case (6 b)
  with plain [of path "BoolVal b"] show ?case by simp
next
  case (7 t xs)
  show ?case
  proof (cases "xs = []")
    case True
    with plain [OF "7.prems"(2), of "ListV t []"] show ?thesis by simp
  next
    case False
    from "7.prems" have items: "well_formed_items xs" and ty: "\<forall>x \<in> set xs. Type x = t"
      by (simp_all add: well_formed_elems_iff well_formed_items_iff)
    let ?ys = "walk_elems f path 0 xs"
    from "7.IH" [OF items "7.prems"(2), of 0]
    have ys: "transform_elems cb path 0 xs = Done ?ys" and tys: "map Type ?ys = map Type xs"
      by simp_all
    from tys False have "?ys \<noteq> []" by auto
    moreover from tys ty have "\<forall>y \<in> set ?ys. Type y = t" by (rule types_carried)
    ultimately have "ListVal ?ys = Some (ListV t ?ys)" by (rule ListVal_same)
    with False ys plain [OF "7.prems"(2), of "ListV t ?ys"] show ?thesis
      by (simp add: rebuilt_def)
  qed
next
  case (8 t kvs)
  show ?case
  proof (cases "kvs = []")
    case True
    with plain [OF "8.prems"(2), of "MapV t []"] show ?thesis by simp
  next
    case False
    from "8.prems" have attrs: "well_formed_attrs kvs" and ty: "\<forall>kv \<in> set kvs. Type (snd kv) = t"
      by (simp_all add: well_formed_entries_iff well_formed_attrs_iff)
    let ?ys = "walk_map_elems f path kvs"
    from "8.IH" [OF attrs "8.prems"(2)]
    have ys: "transform_map_elems cb path kvs = Done ?ys"
      and keys: "map fst ?ys = map fst kvs"
      and tys: "map (\<lambda>kv. Type (snd kv)) ?ys = map (\<lambda>kv. Type (snd kv)) kvs"
      by simp_all
    from keys False have "?ys \<noteq> []" by auto
    moreover from tys ty have "\<forall>kv \<in> set ?ys. Type (snd kv) = t" by (rule field_types_carried)
    ultimately have "MapVal ?ys = Some (MapV t ?ys)" by (rule MapVal_same)
    with False ys plain [OF "8.prems"(2), of "MapV t ?ys"] show ?thesis
      by (simp add: rebuilt_def)
  qed
next
  case (9 t xs)
  show ?case
  proof (cases "xs = []")
    case True
    with plain [OF "9.prems"(2), of "SetV t []"] show ?thesis by simp
  next
    case False
    from "9.prems" have items: "well_formed_items xs" and ty: "\<forall>x \<in> set xs. Type x = t"
      by (simp_all add: well_formed_elems_iff well_formed_items_iff)
    let ?ys = "walk_set_elems f path xs"
    from "9.IH" [OF items "9.prems"(2), of 0]
    have ys: "transform_set_elems cb path xs = Done ?ys" and tys: "map Type ?ys = map Type xs"
      by simp_all
    from tys False have "?ys \<noteq> []" by auto
    moreover from tys ty have "\<forall>y \<in> set ?ys. Type y = t" by (rule types_carried)
    ultimately have "SetVal ?ys = Some (SetV t (foldl set_insert [] ?ys))" by (rule SetVal_same)
    with False ys plain [OF "9.prems"(2), of "SetV t (foldl set_insert [] ?ys)"] show ?thesis
      by (simp add: rebuilt_def)
  qed
next
  case (10 avs)
  from "10.prems" have attrs: "well_formed_attrs avs" by simp
  let ?ys = "walk_attrs f path avs"
  from "10.IH" [OF attrs "10.prems"(2)]
  have ys: "transform_attrs cb path avs = Done ?ys"
    and keys: "map fst ?ys = map fst avs"
    and tys: "map (\<lambda>kv. Type (snd kv)) ?ys = map (\<lambda>kv. Type (snd kv)) avs"
    by simp_all
  from keys tys have "Type (ObjectV ?ys) = Type (ObjectV avs)"
    by (simp add: attribute_types_split)
  with ys plain [OF "10.prems"(2), of "ObjectV ?ys"] show ?case
    by (cases "avs = []") (simp_all add: ObjectVal_def)
next
  case (11 xs)
  from "11.prems" have items: "well_formed_items xs" by simp
  let ?ys = "walk_elems f path 0 xs"
  from "11.IH" [OF items "11.prems"(2), of 0]
  have ys: "transform_elems cb path 0 xs = Done ?ys" and tys: "map Type ?ys = map Type xs"
    by simp_all
  with plain [OF "11.prems"(2), of "TupleV ?ys"] show ?case
    by (cases "xs = []") (simp_all add: TupleVal_def)
next
  case 12
  then show ?case by simp
next
  case (13 x xs)
  from "13.prems" have x: "well_formed x" and xs: "well_formed_items xs" by simp_all
  have p1: "plain_path (path @ [IndexStep (NumberIntVal (int i))])"
    using "13.prems"(2) by (simp add: plain_path_snoc NumberIntVal_def)
  note ix = "13.IH"(1) [OF x p1]
  note rest = "13.IH"(2) [OF xs "13.prems"(2), of "Suc i"]
  have sx: "transform cb (path @ [IndexStep x]) x = Done (walk f (path @ [IndexStep x]) x)
            \<and> Type (walk f (path @ [IndexStep x]) x) = Type x"
  proof (cases "plain_key x")
    case True
    with "13.prems"(2) have "plain_path (path @ [IndexStep x])" by (simp add: plain_path_snoc)
    from "13.IH"(1) [OF x this] show ?thesis .
  next
    case False
    with index [of path x x] show ?thesis by (simp add: not_plain_key_leaf)
  qed
  from ix rest sx show ?case by simp
next
  case 14
  then show ?case by simp
next
  case (15 kv kvs)
  from "15.prems" have v: "well_formed (snd kv)" and kvs: "well_formed_attrs kvs" by simp_all
  have p1: "plain_path (path @ [IndexStep (StringVal (fst kv))])"
    and p2: "plain_path (path @ [GetAttrStep (fst kv)])"
    using "15.prems"(2) by (simp_all add: plain_path_snoc)
  from "15.IH"(1) [OF v p1] "15.IH"(1) [OF v p2] "15.IH"(2) [OF kvs "15.prems"(2)]
  show ?case by simp
qed

text \<open>
  Under an unknown key a known list or map gives an unknown value of its element type,
  which the plan keeps: the planned collection has the type of the proposed one.
\<close>

lemma transform_unknown: "\<not> IsKnown v \<Longrightarrow> transform cb path v = cb path v"
  by (cases v) simp_all

lemma unknown_well_formed: "\<not> IsKnown v \<Longrightarrow> well_formed v"
  by (cases v) simp_all

lemma nav_unknown_key:
  assumes wf: "well_formed u"
    and tr: "transform (PlanResourceChange_callback schema r) pre u = Done u'"
    and here: "\<And>x. PlanResourceChange_callback schema r pre x = Done x"
    and u: "(\<exists>xs. u = ListV t xs \<and> Type key = CtyNumber) \<or> (\<exists>kvs. u = MapV t kvs \<and> Type key = CtyString)"
    and key: "\<not> IsKnown key"
    and rest: "Path_Apply s (UnknownVal t) = Done v"
  shows "\<exists>w. transform (PlanResourceChange_callback schema r) (pre @ IndexStep key # s) v = Done w
           \<and> Path_Apply (IndexStep key # s) u' = Done w \<and> well_formed v"
proof -
  from rest have unknown: "\<not> IsKnown v" using Path_Apply_unknown [of "UnknownVal t" s v] by simp
  then have "PlanResourceChange_callback schema r (pre @ IndexStep key # s) v = Done v"
    by (rule PlanResourceChange_callback_unknown)
  with unknown
  have cb: "transform (PlanResourceChange_callback schema r) (pre @ IndexStep key # s) v = Done v"
    by (simp add: transform_unknown)
  from wf tr have ty: "Type u' = Type u" by (rule plan_transform_type)
  from u have "IndexStep_Apply key u' = Done (UnknownVal t)"
  proof
    assume "\<exists>xs. u = ListV t xs \<and> Type key = CtyNumber"
    then obtain xs where xs: "u = ListV t xs" and k: "Type key = CtyNumber" by blast
    have "\<exists>ys. u' = ListV t ys"
    proof (cases "xs = []")
      case True
      with tr xs here show ?thesis by auto
    next
      case False
      from tr xs have "transform (PlanResourceChange_callback schema r) pre (ListV t xs) = Done u'"
        by simp
      from transform_ListV_Done [OF False this here] ty xs show ?thesis by auto
    qed
    with k key show ?thesis
      by (cases key) (auto simp: IndexStep_Apply_def index_elem_def)
  next
    assume "\<exists>kvs. u = MapV t kvs \<and> Type key = CtyString"
    then obtain kvs where kvs: "u = MapV t kvs" and k: "Type key = CtyString" by blast
    have "\<exists>ys. u' = MapV t ys"
    proof (cases "kvs = []")
      case True
      with tr kvs here show ?thesis by auto
    next
      case False
      from tr kvs have "transform (PlanResourceChange_callback schema r) pre (MapV t kvs) = Done u'"
        by simp
      from transform_MapV_Done [OF False this here] ty kvs show ?thesis by auto
    qed
    with k key show ?thesis
      by (cases key) (auto simp: IndexStep_Apply_def index_map_def)
  qed
  with rest have "Path_Apply (IndexStep key # s) u' = Done v" by simp
  with cb unknown show ?thesis by (simp add: unknown_well_formed)
qed

lemma nav_list:
  fixes schema r
  defines "cb \<equiv> PlanResourceChange_callback schema r"
  assumes IH: "\<And>pre u u'. well_formed u \<Longrightarrow> transform cb pre u = Done u' \<Longrightarrow> Path_Apply s u = Done v
                 \<Longrightarrow> AttributeByPath (Block schema) (pre @ s @ s') = Some a
                 \<Longrightarrow> \<exists>w. transform cb (pre @ s) v = Done w \<and> Path_Apply s u' = Done w
                        \<and> well_formed v"
    and wf: "well_formed (ListV t xs)"
    and tr: "transform cb pre (ListV t xs) = Done u'"
    and here: "\<And>x. cb pre x = Done x"
    and idx: "index_of_key n (length xs) = Some i"
    and rest: "Path_Apply s (xs ! i) = Done v"
    and attr: "AttributeByPath (Block schema) ((pre @ [IndexStep (NumberVal n)]) @ s @ s') = Some a"
  shows "\<exists>w. transform cb (pre @ IndexStep (NumberVal n) # s) v = Done w
           \<and> Path_Apply (IndexStep (NumberVal n) # s) u' = Done w \<and> well_formed v"
proof -
  from index_of_key_Some [OF idx] have i: "i < length xs"
    and key: "NumberVal n = NumberIntVal (int i)" by simp_all
  from i have ne: "xs \<noteq> []" by auto
  from transform_ListV_Done [OF ne tr here] obtain ys t'
    where ys: "transform_elems cb pre 0 xs = Done ys" and u': "u' = ListV t' ys"
    by blast
  from transform_elems_nth [OF ys] i have len: "length ys = length xs"
    and t1: "transform cb (pre @ [IndexStep (NumberIntVal (int i))]) (xs ! i) = Done (ys ! i)"
    by simp_all
  from wf i have wf1: "well_formed (xs ! i)"
    by (simp add: well_formed_elems_iff)
  from t1 key have t1': "transform cb (pre @ [IndexStep (NumberVal n)]) (xs ! i) = Done (ys ! i)"
    by simp
  from IH [OF wf1 t1' rest attr] obtain w
    where w: "transform cb ((pre @ [IndexStep (NumberVal n)]) @ s) v = Done w" "Path_Apply s (ys ! i) = Done w"
      and wfv: "well_formed v"
    by blast
  from w(1) have "transform cb (pre @ IndexStep (NumberVal n) # s) v = Done w" by simp
  moreover from idx len have "index_of_key n (length ys) = Some i" by simp
  with w(2) u' have "Path_Apply (IndexStep (NumberVal n) # s) u' = Done w"
    by (simp add: IndexStep_Apply_def index_elem_def)
  ultimately show ?thesis using wfv by blast
qed


lemma nav_tuple:
  fixes schema r
  defines "cb \<equiv> PlanResourceChange_callback schema r"
  assumes IH: "\<And>pre u u'. well_formed u \<Longrightarrow> transform cb pre u = Done u' \<Longrightarrow> Path_Apply s u = Done v
                 \<Longrightarrow> AttributeByPath (Block schema) (pre @ s @ s') = Some a
                 \<Longrightarrow> \<exists>w. transform cb (pre @ s) v = Done w \<and> Path_Apply s u' = Done w
                        \<and> well_formed v"
    and wf: "well_formed (TupleV xs)"
    and tr: "transform cb pre (TupleV xs) = Done u'"
    and here: "\<And>x. cb pre x = Done x"
    and idx: "index_of_key n (length xs) = Some i"
    and rest: "Path_Apply s (xs ! i) = Done v"
    and attr: "AttributeByPath (Block schema) ((pre @ [IndexStep (NumberVal n)]) @ s @ s') = Some a"
  shows "\<exists>w. transform cb (pre @ IndexStep (NumberVal n) # s) v = Done w
           \<and> Path_Apply (IndexStep (NumberVal n) # s) u' = Done w \<and> well_formed v"
proof -
  from index_of_key_Some [OF idx] have i: "i < length xs"
    and key: "NumberVal n = NumberIntVal (int i)" by simp_all
  from i have ne: "xs \<noteq> []" by auto
  from transform_TupleV_Done [OF ne tr here] obtain ys
    where ys: "transform_elems cb pre 0 xs = Done ys" and u': "u' = TupleV ys"
    by blast
  from transform_elems_nth [OF ys] i have len: "length ys = length xs"
    and t1: "transform cb (pre @ [IndexStep (NumberIntVal (int i))]) (xs ! i) = Done (ys ! i)"
    by simp_all
  from wf i have wf1: "well_formed (xs ! i)"
    by (simp add: well_formed_items_iff)
  from t1 key have t1': "transform cb (pre @ [IndexStep (NumberVal n)]) (xs ! i) = Done (ys ! i)"
    by simp
  from IH [OF wf1 t1' rest attr] obtain w
    where w: "transform cb ((pre @ [IndexStep (NumberVal n)]) @ s) v = Done w" "Path_Apply s (ys ! i) = Done w"
      and wfv: "well_formed v"
    by blast
  from w(1) have "transform cb (pre @ IndexStep (NumberVal n) # s) v = Done w" by simp
  moreover from idx len have "index_of_key n (length ys) = Some i" by simp
  with w(2) u' have "Path_Apply (IndexStep (NumberVal n) # s) u' = Done w"
    by (simp add: IndexStep_Apply_def index_elem_def)
  ultimately show ?thesis using wfv by blast
qed

lemma nav_map:
  fixes schema r
  defines "cb \<equiv> PlanResourceChange_callback schema r"
  assumes IH: "\<And>pre u u'. well_formed u \<Longrightarrow> transform cb pre u = Done u' \<Longrightarrow> Path_Apply s u = Done v
                 \<Longrightarrow> AttributeByPath (Block schema) (pre @ s @ s') = Some a
                 \<Longrightarrow> \<exists>w. transform cb (pre @ s) v = Done w \<and> Path_Apply s u' = Done w
                        \<and> well_formed v"
    and wf: "well_formed (MapV t kvs)"
    and tr: "transform cb pre (MapV t kvs) = Done u'"
    and here: "\<And>x. cb pre x = Done x"
    and look: "map_of kvs k = Some u1"
    and rest: "Path_Apply s u1 = Done v"
    and attr: "AttributeByPath (Block schema) ((pre @ [IndexStep (StringVal k)]) @ s @ s') = Some a"
  shows "\<exists>w. transform cb (pre @ IndexStep (StringVal k) # s) v = Done w
           \<and> Path_Apply (IndexStep (StringVal k) # s) u' = Done w \<and> well_formed v"
proof -
  from look have ne: "kvs \<noteq> []" by auto
  from transform_MapV_Done [OF ne tr here] obtain ys t'
    where ys: "transform_map_elems cb pre kvs = Done ys" and u': "u' = MapV t' ys"
    by blast
  from transform_map_elems_lookup [OF ys look] obtain u1'
    where t1: "transform cb (pre @ [IndexStep (StringVal k)]) u1 = Done u1'"
      and look': "map_of ys k = Some u1'"
    by blast
  from wf have "\<forall>kv \<in> set kvs. well_formed (snd kv)"
    by (simp add: well_formed_entries_iff)
  moreover from look have "(k, u1) \<in> set kvs" by (rule map_of_SomeD)
  ultimately have wf1: "well_formed u1" by (metis snd_conv)
  from IH [OF wf1 t1 rest attr] obtain w
    where w: "transform cb ((pre @ [IndexStep (StringVal k)]) @ s) v = Done w" "Path_Apply s u1' = Done w"
      and wfv: "well_formed v"
    by blast
  from w(1) have "transform cb (pre @ IndexStep (StringVal k) # s) v = Done w" by simp
  moreover from w(2) u' look' have "Path_Apply (IndexStep (StringVal k) # s) u' = Done w"
    by (simp add: IndexStep_Apply_def index_map_def)
  ultimately show ?thesis using wfv by blast
qed

lemma nav_object:
  fixes schema r
  defines "cb \<equiv> PlanResourceChange_callback schema r"
  assumes IH: "\<And>pre u u'. well_formed u \<Longrightarrow> transform cb pre u = Done u' \<Longrightarrow> Path_Apply s u = Done v
                 \<Longrightarrow> AttributeByPath (Block schema) (pre @ s @ s') = Some a
                 \<Longrightarrow> \<exists>w. transform cb (pre @ s) v = Done w \<and> Path_Apply s u' = Done w
                        \<and> well_formed v"
    and wf: "well_formed (ObjectV avs)"
    and tr: "transform cb pre (ObjectV avs) = Done u'"
    and here: "\<And>x. cb pre x = Done x"
    and look: "map_of avs name = Some u1"
    and rest: "Path_Apply s u1 = Done v"
    and attr: "AttributeByPath (Block schema) ((pre @ [GetAttrStep name]) @ s @ s') = Some a"
  shows "\<exists>w. transform cb (pre @ GetAttrStep name # s) v = Done w
           \<and> Path_Apply (GetAttrStep name # s) u' = Done w \<and> well_formed v"
proof -
  from look have ne: "avs \<noteq> []" by auto
  from transform_ObjectV_Done [OF ne tr here] obtain avs'
    where avs': "transform_attrs cb pre avs = Done avs'" and u': "u' = ObjectV avs'"
    by blast
  from transform_attrs_lookup [OF avs' look] obtain u1'
    where t1: "transform cb (pre @ [GetAttrStep name]) u1 = Done u1'"
      and look': "map_of avs' name = Some u1'"
    by blast
  from wf look have wf1: "well_formed u1"
    using well_formed_lookup [of avs name u1] by simp
  from IH [OF wf1 t1 rest attr] obtain w
    where w: "transform cb ((pre @ [GetAttrStep name]) @ s) v = Done w" "Path_Apply s u1' = Done w"
      and wfv: "well_formed v"
    by blast
  from w(1) have "transform cb (pre @ GetAttrStep name # s) v = Done w" by simp
  moreover from w(2) u' look' have "Path_Apply (GetAttrStep name # s) u' = Done w"
    by (simp add: GetAttrStep_Apply_def)
  ultimately show ?thesis using wfv by blast
qed


text \<open>
  The value that the plan leaves at a path that leads on to a declared attribute: what
  the transform returns for the value that the proposed state has there.
\<close>

lemma plan_transform_at:
  assumes "well_formed u"
    and "transform (PlanResourceChange_callback schema r) pre u = Done u'"
    and "Path_Apply s u = Done v"
    and "AttributeByPath (Block schema) (pre @ s @ s') = Some a"
  shows "\<exists>w. transform (PlanResourceChange_callback schema r) (pre @ s) v = Done w
           \<and> Path_Apply s u' = Done w \<and> well_formed v"
  using assms
proof (induction s arbitrary: pre u u')
  case Nil
  then show ?case by simp
next
  case (Cons step s)
  let ?cb = "PlanResourceChange_callback schema r"
  from Cons.prems(4) have "AttributeByPath (Block schema) pre = None"
    using AttributeByPath_above_attribute [of "Block schema" pre "step # s @ s'" a] by simp
  then have here: "?cb pre x = Done x" for x
    by (rule PlanResourceChange_callback_not_attribute)
  from Cons.prems(3) obtain u1 where step: "PathStep_Apply step u = Done u1"
    and rest: "Path_Apply s u1 = Done v"
    by (auto split: outcome.splits)
  from Cons.prems(4) have attr: "AttributeByPath (Block schema) ((pre @ [step]) @ s @ s') = Some a"
    by simp
  note IH = Cons.IH
  show ?case
  proof (cases "IsKnown u")
    case False
    then have "transform ?cb pre u = ?cb pre u" by (rule transform_unknown)
    with here Cons.prems(2) have "u' = u" by simp
    moreover from False Cons.prems(3) have unknown: "\<not> IsKnown v" by (rule Path_Apply_unknown)
    then have "?cb (pre @ step # s) v = Done v" by (rule PlanResourceChange_callback_unknown)
    with unknown have "transform ?cb (pre @ step # s) v = Done v" by (simp add: transform_unknown)
    ultimately show ?thesis using Cons.prems(3) unknown by (simp add: unknown_well_formed)
  next
    case True
    show ?thesis
    proof (cases step)
      case (GetAttrStep name)
      with step have "GetAttrStep_Apply name u = Done u1" by simp
      from this True obtain avs where u: "u = ObjectV avs" and look: "map_of avs name = Some u1"
        by (rule GetAttrStep_Apply_DoneE)
      from Cons.prems(1,2) u have wf: "well_formed (ObjectV avs)"
        and tr: "transform ?cb pre (ObjectV avs) = Done u'" by simp_all
      from attr GetAttrStep
      have attr': "AttributeByPath (Block schema) ((pre @ [GetAttrStep name]) @ s @ s') = Some a"
        by simp
      from nav_object [OF IH wf tr here look rest attr']
        GetAttrStep show ?thesis by simp
    next
      case (IndexStep key)
      with step have "IndexStep_Apply key u = Done u1" by simp
      from this True show ?thesis
      proof (cases rule: IndexStep_Apply_DoneE)
        case (list t xs n i)
        from Cons.prems(1,2) list(1) have wf: "well_formed (ListV t xs)"
          and tr: "transform ?cb pre (ListV t xs) = Done u'" by simp_all
        from rest list(4) have rest': "Path_Apply s (xs ! i) = Done v" by simp
        from attr IndexStep list(2)
        have attr': "AttributeByPath (Block schema) ((pre @ [IndexStep (NumberVal n)]) @ s @ s') = Some a"
          by simp
        from nav_list [OF IH wf tr here list(3) rest' attr']
          IndexStep list(2) show ?thesis by simp
      next
        case (tuple xs n i)
        from Cons.prems(1,2) tuple(1) have wf: "well_formed (TupleV xs)"
          and tr: "transform ?cb pre (TupleV xs) = Done u'" by simp_all
        from rest tuple(4) have rest': "Path_Apply s (xs ! i) = Done v" by simp
        from attr IndexStep tuple(2)
        have attr': "AttributeByPath (Block schema) ((pre @ [IndexStep (NumberVal n)]) @ s @ s') = Some a"
          by simp
        from nav_tuple [OF IH wf tr here tuple(3) rest' attr']
          IndexStep tuple(2) show ?thesis by simp
      next
        case (map t kvs k)
        from Cons.prems(1,2) map(1) have wf: "well_formed (MapV t kvs)"
          and tr: "transform ?cb pre (MapV t kvs) = Done u'" by simp_all
        from attr IndexStep map(2)
        have attr': "AttributeByPath (Block schema) ((pre @ [IndexStep (StringVal k)]) @ s @ s') = Some a"
          by simp
        from nav_map [OF IH wf tr here map(3) rest attr']
          IndexStep map(2) show ?thesis by simp
      next
        case (list_unknown_key t xs)
        from list_unknown_key(1,2)
        have shape: "(\<exists>xs. u = ListV t xs \<and> Type key = CtyNumber)
                   \<or> (\<exists>kvs. u = MapV t kvs \<and> Type key = CtyString)" by blast
        from rest list_unknown_key(4) have rest': "Path_Apply s (UnknownVal t) = Done v" by simp
        from nav_unknown_key [OF Cons.prems(1,2) here shape list_unknown_key(3) rest']
          IndexStep show ?thesis by simp
      next
        case (map_unknown_key t kvs)
        from map_unknown_key(1,2)
        have shape: "(\<exists>xs. u = ListV t xs \<and> Type key = CtyNumber)
                   \<or> (\<exists>kvs. u = MapV t kvs \<and> Type key = CtyString)" by blast
        from rest map_unknown_key(4) have rest': "Path_Apply s (UnknownVal t) = Done v" by simp
        from nav_unknown_key [OF Cons.prems(1,2) here shape map_unknown_key(3) rest']
          IndexStep show ?thesis by simp
      qed
    qed
  qed
qed

text \<open>At a declared attribute nothing below changes, and the callback decides.\<close>

lemma plan_transform_at_attribute:
  assumes "well_formed u"
    and "transform (PlanResourceChange_callback schema r) pre u = Done u'"
    and "Path_Apply s u = Done v"
    and "AttributeByPath (Block schema) (pre @ s) = Some a"
  shows "\<exists>w. PlanResourceChange_callback schema r (pre @ s) v = Done w \<and> Path_Apply s u' = Done w"
proof -
  from assms(4) have "AttributeByPath (Block schema) (pre @ s @ []) = Some a" by simp
  from plan_transform_at [OF assms(1-3) this] obtain w
    where w: "transform (PlanResourceChange_callback schema r) (pre @ s) v = Done w"
      "Path_Apply s u' = Done w" and wf: "well_formed v"
    by blast
  have "PlanResourceChange_callback schema r ((pre @ s) @ q) x = Done x" if "q \<noteq> []" for q x
    using AttributeByPath_below_attribute [of "Block schema" "pre @ s" a q] assms(4) that
    by (simp add: PlanResourceChange_callback_not_attribute)
  then have "transform (PlanResourceChange_callback schema r) (pre @ s) v
      = PlanResourceChange_callback schema r (pre @ s) v"
    using wf by (rule transform_identity_below(1))
  with w show ?thesis by simp
qed

text \<open>
  A path through an element of a set cannot be applied to any value: the key of the
  step is the element, which is neither a number nor a string. So the plan changes
  nothing inside a set.
\<close>

lemma Path_Apply_through_set:
  assumes "IndexStep k \<in> set path" and "Type k \<noteq> CtyNumber" and "Type k \<noteq> CtyString"
  shows "Path_Apply path c \<noteq> Done x"
  using assms(1)
proof (induction path arbitrary: c)
  case Nil
  then show ?case by simp
next
  case (Cons step path)
  show ?case
  proof (cases "step = IndexStep k")
    case True
    with assms(2,3) have "PathStep_Apply step c \<noteq> Done y" for y
      by (simp add: IndexStep_Apply_def)
    then show ?thesis by (auto split: outcome.splits)
  next
    case False
    with Cons.prems have "IndexStep k \<in> set path" by simp
    from Cons.IH [OF this] show ?thesis by (auto split: outcome.splits)
  qed
qed

lemma planned_value_through_set:
  assumes "IndexStep k \<in> set path" and "Type k \<noteq> CtyNumber" and "Type k \<noteq> CtyString"
  shows "planned_value schema config path v = v"
  using Path_Apply_through_set [OF assms, of config]
  by (simp add: planned_value_def split: option.splits outcome.splits)

lemma walk_fixed:
  shows "well_formed v \<Longrightarrow> (\<And>q x. f (pre @ q) x = x) \<Longrightarrow> walk f pre v = v"
    and "well_formed_items xs \<Longrightarrow> (\<And>q x. f (pre @ q) x = x) \<Longrightarrow>
           walk_elems f pre i xs = xs \<and> walk_set_elems f pre xs = xs"
    and "well_formed_attrs kvs \<Longrightarrow> (\<And>q x. f (pre @ q) x = x) \<Longrightarrow>
           walk_map_elems f pre kvs = kvs \<and> walk_attrs f pre kvs = kvs"
proof (induction v and xs and kvs arbitrary: pre and pre i and pre
       rule: has_unknown_has_unknown_list_has_unknown_fields.induct)
  case 1
  then show ?case by simp
next
  case (2 t)
  from "2.prems"(2) [of "[]"] show ?case by simp
next
  case (3 t)
  from "3.prems"(2) [of "[]"] show ?case by simp
next
  case (4 s)
  from "4.prems"(2) [of "[]"] show ?case by simp
next
  case (5 n)
  from "5.prems"(2) [of "[]"] show ?case by simp
next
  case (6 b)
  from "6.prems"(2) [of "[]"] show ?case by simp
next
  case (7 t xs)
  from "7.prems"(1) have "well_formed_items xs"
    by (simp add: well_formed_elems_iff well_formed_items_iff)
  from "7.IH" [OF this "7.prems"(2), of 0] "7.prems"(2) [of "[]"] show ?case by simp
next
  case (8 t kvs)
  from "8.prems"(1) have "well_formed_attrs kvs"
    by (simp add: well_formed_entries_iff well_formed_attrs_iff)
  from "8.IH" [OF this "8.prems"(2)] "8.prems"(2) [of "[]"] show ?case by simp
next
  case (9 t xs)
  from "9.prems"(1) have "well_formed_items xs" and "foldl set_insert [] xs = xs"
    by (simp_all add: well_formed_elems_iff well_formed_items_iff)
  with "9.IH" [OF this(1) "9.prems"(2), of 0] "9.prems"(2) [of "[]"] show ?case by simp
next
  case (10 avs)
  from "10.prems"(1) have "well_formed_attrs avs" by simp
  from "10.IH" [OF this "10.prems"(2)] "10.prems"(2) [of "[]"] show ?case by simp
next
  case (11 xs)
  from "11.prems"(1) have "well_formed_items xs" by simp
  from "11.IH" [OF this "11.prems"(2), of 0] "11.prems"(2) [of "[]"] show ?case by simp
next
  case 12
  then show ?case by simp
next
  case (13 x xs)
  from "13.prems"(1) have x: "well_formed x" and xs: "well_formed_items xs" by simp_all
  have below: "f ((pre @ [step]) @ q) y = y" for step q y
    using "13.prems"(2) [of "step # q" y] by simp
  from "13.IH"(1) [OF x below] "13.IH"(2) [OF xs "13.prems"(2), of "Suc i"] show ?case by simp
next
  case 14
  then show ?case by simp
next
  case (15 kv kvs)
  from "15.prems"(1) have v: "well_formed (snd kv)" and kvs: "well_formed_attrs kvs" by simp_all
  have below: "f ((pre @ [step]) @ q) y = y" for step q y
    using "15.prems"(2) [of "step # q" y] by simp
  from "15.IH"(1) [OF v below] "15.IH"(2) [OF kvs "15.prems"(2)] show ?case by simp
qed

lemma leaf_of_primitive_type:
  assumes "Type x = CtyNumber \<or> Type x = CtyString"
  shows "walk f path x = f path x"
  using assms by (cases x) simp_all

lemma planned_set_elems:
  "well_formed_items xs \<Longrightarrow> walk_set_elems (planned_value schema config) path xs = xs"
proof (induction xs)
  case Nil
  then show ?case by simp
next
  case (Cons x xs)
  then have x: "well_formed x" and rest: "walk_set_elems (planned_value schema config) path xs = xs"
    by simp_all
  have "walk (planned_value schema config) (path @ [IndexStep x]) x = x"
  proof (cases "Type x = CtyNumber \<or> Type x = CtyString")
    case True
    then show ?thesis by (simp add: leaf_of_primitive_type planned_value_index_end)
  next
    case False
    then have "planned_value schema config ((path @ [IndexStep x]) @ q) y = y" for q y
      by (intro planned_value_through_set [of x]) simp_all
    with x show ?thesis by (rule walk_fixed(1))
  qed
  with rest show ?case by simp
qed

lemma planned_set:
  assumes "well_formed (SetV t xs)"
  shows "walk (planned_value schema config) path (SetV t xs)
         = planned_value schema config path (SetV t xs)"
proof -
  from assms have "well_formed_items xs" and "foldl set_insert [] xs = xs"
    by (simp_all add: well_formed_elems_iff well_formed_items_iff)
  then show ?thesis by (simp add: planned_set_elems)
qed

text \<open>
  A path that leads to a known value of the proposed state has plain keys: an unknown
  key gives an unknown value.
\<close>

lemma Path_Apply_known_plain:
  "Path_Apply s u = Done v \<Longrightarrow> IsKnown v \<Longrightarrow> plain_path s"
proof (induction s arbitrary: u)
  case Nil
  then show ?case by (simp add: plain_path_def)
next
  case (Cons step s)
  from Cons.prems(1) obtain u1 where step: "PathStep_Apply step u = Done u1"
    and rest: "Path_Apply s u1 = Done v"
    by (auto split: outcome.splits)
  from Cons.IH [OF rest Cons.prems(2)] have tail: "plain_path s" .
  from rest Cons.prems(2) have known1: "IsKnown u1" using Path_Apply_unknown by blast
  with step have known: "IsKnown u" using PathStep_Apply_unknown by blast
  have "plain_step step"
  proof (cases step)
    case (GetAttrStep name)
    then show ?thesis by simp
  next
    case (IndexStep key)
    with step have "IndexStep_Apply key u = Done u1" by simp
    from this known have "plain_key key"
      using known1 by (cases rule: IndexStep_Apply_DoneE) simp_all
    with IndexStep show ?thesis by simp
  qed
  with tail show ?case by (simp add: plain_path_def)
qed

text \<open>The transform of the plan is the walk of \<open>planned_value\<close>.\<close>

lemma plan_transform_walk:
  assumes "well_formed u" and "plain_path path"
  shows "transform (PlanResourceChange_callback schema r) path u
         = Done (walk (planned_value schema (PRCq_Config r)) path u)"
proof -
  have "transform (PlanResourceChange_callback schema r) path u
          = Done (walk (planned_value schema (PRCq_Config r)) path u)
        \<and> Type (walk (planned_value schema (PRCq_Config r)) path u) = Type u"
  proof (rule transform_walk(1) [OF _ _ assms])
    show "PlanResourceChange_callback schema r q x = Done (planned_value schema (PRCq_Config r) q x)
          \<and> Type (planned_value schema (PRCq_Config r) q x) = Type x" if "plain_path q" for q x
      using that by (simp add: PlanResourceChange_callback_planned)
    show "PlanResourceChange_callback schema r (q @ [IndexStep k]) x = Done x
          \<and> planned_value schema (PRCq_Config r) (q @ [IndexStep k]) x = x" for q k x
      by (simp add: PlanResourceChange_callback_index_end planned_value_index_end)
  qed
  then show ?thesis by simp
qed

text \<open>
  A set that stands above a declared attribute (the instances of a set-nested block) is
  in the planned state as it is in the proposed state.
\<close>

lemma plan_transform_at_set:
  assumes "well_formed u"
    and "transform (PlanResourceChange_callback schema r) [] u = Done u'"
    and "Path_Apply s u = Done (SetV t xs)"
    and "AttributeByPath (Block schema) (s @ s') = Some a"
    and "s' \<noteq> []"
  shows "Path_Apply s u' = Done (SetV t xs)"
proof -
  from assms(4) have "AttributeByPath (Block schema) ([] @ s @ s') = Some a" by simp
  from plan_transform_at [OF assms(1-3) this] obtain w
    where w: "transform (PlanResourceChange_callback schema r) s (SetV t xs) = Done w"
      "Path_Apply s u' = Done w" and wf: "well_formed (SetV t xs)"
    by auto
  from assms(3) have "plain_path s" by (rule Path_Apply_known_plain) simp
  with wf have "transform (PlanResourceChange_callback schema r) s (SetV t xs)
      = Done (walk (planned_value schema (PRCq_Config r)) s (SetV t xs))"
    by (rule plan_transform_walk)
  also from wf have "walk (planned_value schema (PRCq_Config r)) s (SetV t xs)
      = planned_value schema (PRCq_Config r) s (SetV t xs)"
    by (rule planned_set)
  also from assms(4,5) have "AttributeByPath (Block schema) s = None"
    by (rule AttributeByPath_above_attribute)
  then have "planned_value schema (PRCq_Config r) s (SetV t xs) = SetV t xs"
    by (simp add: planned_value_def)
  finally show ?thesis using w by simp
qed

text \<open>
  C5 (as the code has it). On a configured provider without an override function or a
  canned response, with a schema for the type name, the answer to a request whose
  proposed state is well-formed and not null is produced without a diagnostic: the
  planned private bytes are the prior ones, and the planned state is the proposed state
  walked bottom-up with \<open>planned_value\<close> at every path. Take a path that resolves to a
  declared attribute and to a value in the proposed state. When the path can be applied
  to the configuration: a computed attribute that is not optional and is null in the
  proposed state is unknown in the planned state, and an optional and computed attribute
  that is known and not null in the proposed state and null in the configuration is
  unknown in the planned state; the prior state is not read. When the path cannot be
  applied to the configuration, when the value is unknown, and in every other case the
  planned state has the value of the proposed state there. The instances of a set-nested
  block, whose paths cannot be applied to any value, are in the planned state as they
  are in the proposed state, with every attribute inside. The callback returns the
  value at every path that is not a declared attribute as it is.
\<close>

theorem default_plan_attributes:
  assumes "ConfigureProviderCalled p"
    and "PlanResourceChangeFn p = None"
    and "PlanResourceChangeResponse p = None"
    and "ResourceTypes (getProviderSchema p) (PRCq_TypeName r) = Some schema"
    and "\<not> IsNull (PRCq_ProposedNewState r)"
    and "well_formed (PRCq_ProposedNewState r)"
  shows "PlanResourceChange p r =
           Some (\<lparr>PRCs_PlannedState = planned schema (PRCq_Config r) (PRCq_ProposedNewState r),
                  PRCs_RequiresReplace = [],
                  PRCs_PlannedPrivate = PRCq_PriorPrivate r,
                  PRCs_Diagnostics = []\<rparr>,
                 p\<lparr>PlanResourceChangeCalled := True, PlanResourceChangeRequest := r\<rparr>)
       \<and> (\<forall>path attr v.
            AttributeByPath (Block schema) path = Some attr
            \<and> Path_Apply path (PRCq_ProposedNewState r) = Done v \<longrightarrow>
              (Computed attr \<and> \<not> Optional attr \<and> IsNull v
                 \<and> (\<exists>c. Path_Apply path (PRCq_Config r) = Done c) \<longrightarrow>
               Path_Apply path (planned schema (PRCq_Config r) (PRCq_ProposedNewState r))
                 = Done (UnknownVal (Type v)))
            \<and> (Computed attr \<and> Optional attr \<and> IsKnown v \<and> \<not> IsNull v
                 \<and> (\<exists>c. Path_Apply path (PRCq_Config r) = Done c \<and> IsNull c) \<longrightarrow>
               Path_Apply path (planned schema (PRCq_Config r) (PRCq_ProposedNewState r))
                 = Done (UnknownVal (Type v)))
            \<and> ((\<exists>e. Path_Apply path (PRCq_Config r) = Failed e) \<longrightarrow>
               Path_Apply path (planned schema (PRCq_Config r) (PRCq_ProposedNewState r)) = Done v)
            \<and> (\<not> IsKnown v \<longrightarrow>
               Path_Apply path (planned schema (PRCq_Config r) (PRCq_ProposedNewState r)) = Done v)
            \<and> (\<not> (Computed attr \<and> \<not> Optional attr \<and> IsNull v)
                 \<and> \<not> (Computed attr \<and> Optional attr \<and> \<not> IsNull v
                        \<and> (\<exists>c. Path_Apply path (PRCq_Config r) = Done c \<and> IsNull c)) \<longrightarrow>
               Path_Apply path (planned schema (PRCq_Config r) (PRCq_ProposedNewState r)) = Done v))
       \<and> (\<forall>path below attr t xs.
            Path_Apply path (PRCq_ProposedNewState r) = Done (SetV t xs)
            \<and> below \<noteq> [] \<and> AttributeByPath (Block schema) (path @ below) = Some attr \<longrightarrow>
              Path_Apply path (planned schema (PRCq_Config r) (PRCq_ProposedNewState r))
                = Done (SetV t xs))
       \<and> (\<forall>q u. AttributeByPath (Block schema) q = None \<longrightarrow>
             PlanResourceChange_callback schema r q u = Done u)"
proof -
  let ?cb = "PlanResourceChange_callback schema r"
  let ?plan = "planned schema (PRCq_Config r) (PRCq_ProposedNewState r)"
  have "plain_path []" by (simp add: plain_path_def)
  with assms(6) have val: "transform ?cb [] (PRCq_ProposedNewState r) = Done ?plan"
    unfolding planned_def by (rule plan_transform_walk)
  have produced: "PlanResourceChange p r =
           Some (\<lparr>PRCs_PlannedState = ?plan, PRCs_RequiresReplace = [],
                  PRCs_PlannedPrivate = PRCq_PriorPrivate r, PRCs_Diagnostics = []\<rparr>,
                 p\<lparr>PlanResourceChangeCalled := True, PlanResourceChangeRequest := r\<rparr>)"
    using assms(1-5) val
    by (simp add: PlanResourceChange_def Let_def getProviderSchema_def Transform_def)
  have at: "\<exists>w. ?cb path v = Done w \<and> Path_Apply path ?plan = Done w"
    if "AttributeByPath (Block schema) path = Some attr"
      and "Path_Apply path (PRCq_ProposedNewState r) = Done v" for path attr v
  proof -
    from that(1) have "AttributeByPath (Block schema) ([] @ path) = Some attr" by simp
    from plan_transform_at_attribute [OF assms(6) val that(2) this] show ?thesis by simp
  qed
  have attributes: "(Computed attr \<and> \<not> Optional attr \<and> IsNull v
                 \<and> (\<exists>c. Path_Apply path (PRCq_Config r) = Done c) \<longrightarrow>
               Path_Apply path ?plan = Done (UnknownVal (Type v)))
            \<and> (Computed attr \<and> Optional attr \<and> IsKnown v \<and> \<not> IsNull v
                 \<and> (\<exists>c. Path_Apply path (PRCq_Config r) = Done c \<and> IsNull c) \<longrightarrow>
               Path_Apply path ?plan = Done (UnknownVal (Type v)))
            \<and> ((\<exists>e. Path_Apply path (PRCq_Config r) = Failed e) \<longrightarrow> Path_Apply path ?plan = Done v)
            \<and> (\<not> IsKnown v \<longrightarrow> Path_Apply path ?plan = Done v)
            \<and> (\<not> (Computed attr \<and> \<not> Optional attr \<and> IsNull v)
                 \<and> \<not> (Computed attr \<and> Optional attr \<and> \<not> IsNull v
                        \<and> (\<exists>c. Path_Apply path (PRCq_Config r) = Done c \<and> IsNull c)) \<longrightarrow>
               Path_Apply path ?plan = Done v)"
    if attr: "AttributeByPath (Block schema) path = Some attr"
      and v: "Path_Apply path (PRCq_ProposedNewState r) = Done v" for path attr v
  proof -
    from at [OF attr v] obtain w
      where cb: "?cb path v = Done w" and planned: "Path_Apply path ?plan = Done w"
      by blast
    show ?thesis
    proof (intro conjI impI)
      assume "Computed attr \<and> \<not> Optional attr \<and> IsNull v
              \<and> (\<exists>c. Path_Apply path (PRCq_Config r) = Done c)"
      with cb attr have "w = UnknownVal (Type v)"
        by (cases v) (auto simp: PlanResourceChange_callback_def)
      with planned show "Path_Apply path ?plan = Done (UnknownVal (Type v))" by simp
    next
      assume "Computed attr \<and> Optional attr \<and> IsKnown v \<and> \<not> IsNull v
              \<and> (\<exists>c. Path_Apply path (PRCq_Config r) = Done c \<and> IsNull c)"
      with cb attr have "w = UnknownVal (Type v)"
        by (auto simp: PlanResourceChange_callback_def)
      with planned show "Path_Apply path ?plan = Done (UnknownVal (Type v))" by simp
    next
      assume "\<exists>e. Path_Apply path (PRCq_Config r) = Failed e"
      with cb attr have "w = v"
        by (auto simp: PlanResourceChange_callback_def split: if_splits)
      with planned show "Path_Apply path ?plan = Done v" by simp
    next
      assume "\<not> IsKnown v"
      with cb have "w = v" by (simp add: PlanResourceChange_callback_def)
      with planned show "Path_Apply path ?plan = Done v" by simp
    next
      assume "\<not> (Computed attr \<and> \<not> Optional attr \<and> IsNull v)
              \<and> \<not> (Computed attr \<and> Optional attr \<and> \<not> IsNull v
                     \<and> (\<exists>c. Path_Apply path (PRCq_Config r) = Done c \<and> IsNull c))"
      with cb attr have "w = v"
        by (cases "Path_Apply path (PRCq_Config r)")
           (auto simp: PlanResourceChange_callback_def split: if_splits)
      with planned show "Path_Apply path ?plan = Done v" by simp
    qed
  qed
  have sets: "Path_Apply path ?plan = Done (SetV t xs)"
    if "Path_Apply path (PRCq_ProposedNewState r) = Done (SetV t xs)"
      and "below \<noteq> []" and "AttributeByPath (Block schema) (path @ below) = Some attr"
    for path below attr t xs
    using assms(6) val that(1,3,2) by (rule plan_transform_at_set)
  have others: "?cb q u = Done u" if "AttributeByPath (Block schema) q = None" for q u
    using that by (rule PlanResourceChange_callback_not_attribute)
  from produced attributes sets others show ?thesis by blast
qed

theorem default_plan_attributes_witness:
  "ConfigureProviderCalled test_provider
   \<and> PlanResourceChangeFn test_provider = None
   \<and> PlanResourceChangeResponse test_provider = None
   \<and> ResourceTypes (getProviderSchema test_provider) ''test_instance'' = Some test_schema
   \<and> well_formed (ObjectV [(''id'', NullVal CtyString), (''name'', StringVal ''x'')])
   \<and> map_option fst (PlanResourceChange test_provider
        \<lparr>PRCq_TypeName = ''test_instance'',
         PRCq_PriorState = ObjectV [(''id'', StringVal ''i-1''), (''name'', StringVal ''x'')],
         PRCq_ProposedNewState = ObjectV [(''id'', NullVal CtyString), (''name'', StringVal ''x'')],
         PRCq_Config = ObjectV [(''id'', NullVal CtyString), (''name'', NullVal CtyString)],
         PRCq_PriorPrivate = [1]\<rparr>)
      = Some \<lparr>PRCs_PlannedState =
                 ObjectV [(''id'', UnknownVal CtyString), (''name'', UnknownVal CtyString)],
               PRCs_RequiresReplace = [], PRCs_PlannedPrivate = [1], PRCs_Diagnostics = []\<rparr>
   \<and> AttributeByPath (Block test_schema) [GetAttrStep ''id'']
      = Some \<lparr>AttrType = CtyString, Required = False, Optional = False, Computed = True\<rparr>
   \<and> Path_Apply [GetAttrStep ''id'']
        (ObjectV [(''id'', NullVal CtyString), (''name'', StringVal ''x'')]) = Done (NullVal CtyString)
   \<and> Path_Apply [GetAttrStep ''id'']
        (ObjectV [(''id'', UnknownVal CtyString), (''name'', UnknownVal CtyString)])
      = Done (UnknownVal CtyString)
   \<and> AttributeByPath (Block test_schema) [GetAttrStep ''name'']
      = Some \<lparr>AttrType = CtyString, Required = False, Optional = True, Computed = True\<rparr>
   \<and> Path_Apply [GetAttrStep ''name'']
        (ObjectV [(''id'', NullVal CtyString), (''name'', StringVal ''x'')]) = Done (StringVal ''x'')
   \<and> Path_Apply [GetAttrStep ''name'']
        (ObjectV [(''id'', NullVal CtyString), (''name'', NullVal CtyString)]) = Done (NullVal CtyString)
   \<and> Path_Apply [GetAttrStep ''name'']
        (ObjectV [(''id'', UnknownVal CtyString), (''name'', UnknownVal CtyString)])
      = Done (UnknownVal CtyString)
   \<and> ConfigureProviderCalled disk_provider
   \<and> PlanResourceChangeFn disk_provider = None
   \<and> PlanResourceChangeResponse disk_provider = None
   \<and> ResourceTypes (getProviderSchema disk_provider) ''test_instance'' = Some disk_schema
   \<and> well_formed (ObjectV
        [(''name'', StringVal ''x''),
         (''disk'', SetV (CtyObject [(''id'', CtyString)]) [ObjectV [(''id'', NullVal CtyString)]])])
   \<and> map_option fst (PlanResourceChange disk_provider
        \<lparr>PRCq_TypeName = ''test_instance'',
         PRCq_PriorState = NullVal (CtyObject []),
         PRCq_ProposedNewState = ObjectV
           [(''name'', StringVal ''x''),
            (''disk'', SetV (CtyObject [(''id'', CtyString)]) [ObjectV [(''id'', NullVal CtyString)]])],
         PRCq_Config = ObjectV
           [(''name'', NullVal CtyString),
            (''disk'', SetV (CtyObject [(''id'', CtyString)]) [ObjectV [(''id'', NullVal CtyString)]])],
         PRCq_PriorPrivate = [2]\<rparr>)
      = Some \<lparr>PRCs_PlannedState = ObjectV
                 [(''name'', UnknownVal CtyString),
                  (''disk'', SetV (CtyObject [(''id'', CtyString)])
                     [ObjectV [(''id'', NullVal CtyString)]])],
               PRCs_RequiresReplace = [], PRCs_PlannedPrivate = [2], PRCs_Diagnostics = []\<rparr>
   \<and> AttributeByPath (Block disk_schema)
        ([GetAttrStep ''disk''] @ [IndexStep (ObjectV [(''id'', NullVal CtyString)]), GetAttrStep ''id''])
      = Some \<lparr>AttrType = CtyString, Required = False, Optional = False, Computed = True\<rparr>
   \<and> Path_Apply [GetAttrStep ''disk'']
        (ObjectV
           [(''name'', StringVal ''x''),
            (''disk'', SetV (CtyObject [(''id'', CtyString)]) [ObjectV [(''id'', NullVal CtyString)]])])
      = Done (SetV (CtyObject [(''id'', CtyString)]) [ObjectV [(''id'', NullVal CtyString)]])
   \<and> Path_Apply [GetAttrStep ''disk'']
        (ObjectV
           [(''name'', UnknownVal CtyString),
            (''disk'', SetV (CtyObject [(''id'', CtyString)]) [ObjectV [(''id'', NullVal CtyString)]])])
      = Done (SetV (CtyObject [(''id'', CtyString)]) [ObjectV [(''id'', NullVal CtyString)]])"
proof -
  let ?proposed1 = "ObjectV [(''id'', NullVal CtyString), (''name'', StringVal ''x'')]"
  let ?config1 = "ObjectV [(''id'', NullVal CtyString), (''name'', NullVal CtyString)]"
  let ?planned1 = "ObjectV [(''id'', UnknownVal CtyString), (''name'', UnknownVal CtyString)]"
  let ?r1 = "\<lparr>PRCq_TypeName = ''test_instance'',
         PRCq_PriorState = ObjectV [(''id'', StringVal ''i-1''), (''name'', StringVal ''x'')],
         PRCq_ProposedNewState = ?proposed1, PRCq_Config = ?config1, PRCq_PriorPrivate = [1]\<rparr>"
  let ?disks = "SetV (CtyObject [(''id'', CtyString)]) [ObjectV [(''id'', NullVal CtyString)]]"
  let ?proposed2 = "ObjectV [(''name'', StringVal ''x''), (''disk'', ?disks)]"
  let ?config2 = "ObjectV [(''name'', NullVal CtyString), (''disk'', ?disks)]"
  let ?planned2 = "ObjectV [(''name'', UnknownVal CtyString), (''disk'', ?disks)]"
  let ?r2 = "\<lparr>PRCq_TypeName = ''test_instance'', PRCq_PriorState = NullVal (CtyObject []),
         PRCq_ProposedNewState = ?proposed2, PRCq_Config = ?config2, PRCq_PriorPrivate = [2]\<rparr>"
  have a1: "ConfigureProviderCalled test_provider"
    and b1: "PlanResourceChangeFn test_provider = None"
    and c1: "PlanResourceChangeResponse test_provider = None"
    by (simp_all add: test_provider_def new_MockProvider_def)
  have d1: "ResourceTypes (getProviderSchema test_provider) (PRCq_TypeName ?r1) = Some test_schema"
    by (simp add: test_provider_def new_MockProvider_def getProviderSchema_def)
  have e1: "\<not> IsNull (PRCq_ProposedNewState ?r1)" by simp
  have f1: "well_formed (PRCq_ProposedNewState ?r1)" by simp
  have a2: "ConfigureProviderCalled disk_provider"
    and b2: "PlanResourceChangeFn disk_provider = None"
    and c2: "PlanResourceChangeResponse disk_provider = None"
    by (simp_all add: disk_provider_def new_MockProvider_def)
  have d2: "ResourceTypes (getProviderSchema disk_provider) (PRCq_TypeName ?r2) = Some disk_schema"
    by (simp add: disk_provider_def new_MockProvider_def getProviderSchema_def)
  have e2: "\<not> IsNull (PRCq_ProposedNewState ?r2)" by simp
  have f2: "well_formed (PRCq_ProposedNewState ?r2)" by (simp add: set_insert_def)
  have pl1: "planned test_schema ?config1 ?proposed1 = ?planned1"
    by (simp add: planned_def planned_value_def test_schema_def GetAttrStep_Apply_def)
  have pl2: "planned disk_schema ?config2 ?proposed2 = ?planned2"
    by (simp add: planned_def planned_value_def disk_schema_def GetAttrStep_Apply_def
          IndexStep_Apply_def set_insert_def)
  have h1: "AttributeByPath (Block test_schema) [GetAttrStep ''id'']
      = Some \<lparr>AttrType = CtyString, Required = False, Optional = False, Computed = True\<rparr>"
    and h2: "AttributeByPath (Block test_schema) [GetAttrStep ''name'']
      = Some \<lparr>AttrType = CtyString, Required = False, Optional = True, Computed = True\<rparr>"
    by (simp_all add: test_schema_def)
  have h3: "AttributeByPath (Block disk_schema)
        ([GetAttrStep ''disk''] @ [IndexStep (ObjectV [(''id'', NullVal CtyString)]), GetAttrStep ''id''])
      = Some \<lparr>AttrType = CtyString, Required = False, Optional = False, Computed = True\<rparr>"
    by (simp add: disk_schema_def)
  have i1: "Path_Apply [GetAttrStep ''id''] ?proposed1 = Done (NullVal CtyString)"
    and i2: "Path_Apply [GetAttrStep ''name''] ?proposed1 = Done (StringVal ''x'')"
    and i3: "Path_Apply [GetAttrStep ''disk''] ?proposed2 = Done ?disks"
    and j1: "Path_Apply [GetAttrStep ''id''] ?config1 = Done (NullVal CtyString)"
    and j2: "Path_Apply [GetAttrStep ''name''] ?config1 = Done (NullVal CtyString)"
    by (simp_all add: GetAttrStep_Apply_def)
  note plan1 = default_plan_attributes [OF a1 b1 c1 d1 e1 f1]
  note plan2 = default_plan_attributes [OF a2 b2 c2 d2 e2 f2]
  from plan1 pl1 have g1: "map_option fst (PlanResourceChange test_provider ?r1)
      = Some \<lparr>PRCs_PlannedState = ?planned1, PRCs_RequiresReplace = [],
               PRCs_PlannedPrivate = [1], PRCs_Diagnostics = []\<rparr>"
    by simp
  from plan2 pl2 have g2: "map_option fst (PlanResourceChange disk_provider ?r2)
      = Some \<lparr>PRCs_PlannedState = ?planned2, PRCs_RequiresReplace = [],
               PRCs_PlannedPrivate = [2], PRCs_Diagnostics = []\<rparr>"
    by simp
  from plan1 [THEN conjunct2, THEN conjunct1, rule_format, of "[GetAttrStep ''id'']", OF conjI, OF h1]
    i1 j1 pl1
  have k1: "Path_Apply [GetAttrStep ''id''] ?planned1 = Done (UnknownVal CtyString)"
    by simp
  from plan1 [THEN conjunct2, THEN conjunct1, rule_format, of "[GetAttrStep ''name'']", OF conjI, OF h2]
    i2 j2 pl1
  have k2: "Path_Apply [GetAttrStep ''name''] ?planned1 = Done (UnknownVal CtyString)"
    by simp
  from plan2 [THEN conjunct2, THEN conjunct2, THEN conjunct1, rule_format,
      of "[GetAttrStep ''disk'']" _ _
         "[IndexStep (ObjectV [(''id'', NullVal CtyString)]), GetAttrStep ''id'']"]
    i3 h3 pl2
  have k3: "Path_Apply [GetAttrStep ''disk''] ?planned2 = Done ?disks"
    by simp
  from a1 b1 c1 d1 f1 g1 h1 i1 k1 h2 i2 j2 k2 a2 b2 c2 d2 f2 g2 h3 i3 k3
  show ?thesis by simp
qed

theorem default_plan_attributes_counterexample:
  "ConfigureProviderCalled disk_provider
   \<and> PlanResourceChangeFn disk_provider = None
   \<and> PlanResourceChangeResponse disk_provider = None
   \<and> ResourceTypes (getProviderSchema disk_provider) ''test_instance'' = Some disk_schema
   \<and> AttributeByPath (Block disk_schema)
        [GetAttrStep ''disk'', IndexStep (ObjectV [(''id'', NullVal CtyString)]), GetAttrStep ''id'']
      = Some \<lparr>AttrType = CtyString, Required = False, Optional = False, Computed = True\<rparr>
   \<and> AttributeByPath (Block disk_schema) [GetAttrStep ''name'']
      = Some \<lparr>AttrType = CtyString, Required = False, Optional = True, Computed = True\<rparr>
   \<and> map_option fst (PlanResourceChange disk_provider
        \<lparr>PRCq_TypeName = ''test_instance'',
         PRCq_PriorState = ObjectV
           [(''name'', StringVal ''x''),
            (''disk'', SetV (CtyObject [(''id'', CtyString)]) [ObjectV [(''id'', StringVal ''d-1'')]])],
         PRCq_ProposedNewState = ObjectV
           [(''name'', NullVal CtyString),
            (''disk'', SetV (CtyObject [(''id'', CtyString)]) [ObjectV [(''id'', NullVal CtyString)]])],
         PRCq_Config = ObjectV
           [(''name'', NullVal CtyString),
            (''disk'', SetV (CtyObject [(''id'', CtyString)]) [ObjectV [(''id'', NullVal CtyString)]])],
         PRCq_PriorPrivate = []\<rparr>)
      = Some \<lparr>PRCs_PlannedState = ObjectV
                 [(''name'', NullVal CtyString),
                  (''disk'', SetV (CtyObject [(''id'', CtyString)])
                     [ObjectV [(''id'', NullVal CtyString)]])],
               PRCs_RequiresReplace = [], PRCs_PlannedPrivate = [], PRCs_Diagnostics = []\<rparr>"
  by (simp add: PlanResourceChange_def disk_provider_def new_MockProvider_def getProviderSchema_def
        Transform_def PlanResourceChange_callback_def disk_schema_def ObjectVal_def
        GetAttrStep_Apply_def IndexStep_Apply_def rebuilt_def SetVal_def set_insert_def)

end
